theory Spec2Isabelle
  imports Complex_Main "HOL-Library.Word" "HOL-Library.Multiset"
begin

unbundle bit_operations_syntax

section \<open>Terminal window support (terminal.c): data model\<close>

text \<open>
  The embedding follows \<^verbatim>\<open>src/terminal.c\<close>.  C \<^verbatim>\<open>int\<close> values are modelled as
  \<^typ>\<open>int\<close>: none of the properties below depends on 32-bit wrap-around.  The colour
  components of a cell are \<^verbatim>\<open>uint8_t\<close> and are modelled as \<^typ>\<open>8 word\<close>, the code
  points of a cell are \<^verbatim>\<open>uint32_t\<close> and are modelled as \<^typ>\<open>32 word\<close>.
\<close>

record VTermColor =
  red :: "8 word"
  green :: "8 word"
  blue :: "8 word"

record VTermRect =
  start_row :: int
  end_row :: int
  start_col :: int
  end_col :: int

record VTermPos =
  row :: int
  col :: int

text \<open>The attribute bit fields of a cell that \<^verbatim>\<open>cell2attr\<close> tests for being non-zero.\<close>

record VTermScreenCellAttrs =
  bold :: bool
  underline :: bool
  italic :: bool
  strike :: bool
  reverse :: bool

text \<open>
  \<^verbatim>\<open>chars\<close> is the array \<^verbatim>\<open>uint32_t chars[VTERM_MAX_CHARS_PER_CELL]\<close>: the list holds its
  leading entries, every entry not listed is zero (so \<^verbatim>\<open>memset(&cell, 0, ...)\<close> gives the
  empty list).  \<^verbatim>\<open>width\<close> is a C \<^verbatim>\<open>char\<close>.
\<close>

record VTermScreenCell =
  chars :: "32 word list"
  width :: int
  attrs :: VTermScreenCellAttrs
  fg :: VTermColor
  bg :: VTermColor

definition VTERM_MAX_CHARS_PER_CELL :: nat where
  "VTERM_MAX_CHARS_PER_CELL = 6"

definition chars_at :: "VTermScreenCell \<Rightarrow> nat \<Rightarrow> 32 word" where
  "chars_at cell i = (if i < length (chars cell) then chars cell ! i else 0)"

text \<open>\<^verbatim>\<open>sb_cells\<close> is an allocated array or \<^verbatim>\<open>NULL\<close> (\<^term>\<open>None\<close>).\<close>

record sb_line_T =
  sb_cols :: int
  sb_cells :: "VTermScreenCell list option"

definition MAX_ROW :: int where
  "MAX_ROW = 999999"

definition KEY_BUF_LEN :: nat where
  "KEY_BUF_LEN = 200"

subsection \<open>The job and its channel\<close>

text \<open>
  Of a channel the model keeps whether it is open (\<^verbatim>\<open>channel_is_open\<close>) and the byte
  sequences handed to \<^verbatim>\<open>channel_send\<close> for the job's input, oldest first.
\<close>

record channel_T =
  ch_open :: bool
  ch_sent :: "8 word list list"

datatype jobstatus = JOB_FAILED | JOB_STARTED | JOB_ENDED

record job_T =
  jv_status :: jobstatus
  jv_channel :: "channel_T option"

subsection \<open>The host buffer and its windows\<close>

text \<open>
  A buffer is identified by its number; \<^verbatim>\<open>b_ml\<close> holds its lines, each line the sequence of
  character codes that were handed to \<^verbatim>\<open>mb_char2bytes\<close>.  A window refers to its buffer by
  the buffer number, so \<^verbatim>\<open>wp->w_buffer == term->tl_buffer\<close> compares numbers.
\<close>

record buf_T =
  b_fnum :: nat
  b_ml :: "int list list"

definition ml_line_count :: "buf_T \<Rightarrow> int" where
  "ml_line_count buf = int (length (b_ml buf))"

record win_T =
  w_buffer :: nat
  w_winrow :: int
  w_wincol :: int
  w_height :: int
  w_width :: int

subsection \<open>The terminal emulator\<close>

datatype VTermKey =
  VTERM_KEY_NONE | VTERM_KEY_ENTER | VTERM_KEY_TAB | VTERM_KEY_BACKSPACE | VTERM_KEY_ESCAPE
  | VTERM_KEY_UP | VTERM_KEY_DOWN | VTERM_KEY_LEFT | VTERM_KEY_RIGHT
  | VTERM_KEY_INS | VTERM_KEY_DEL | VTERM_KEY_HOME | VTERM_KEY_END
  | VTERM_KEY_PAGEUP | VTERM_KEY_PAGEDOWN
  | VTERM_KEY_FUNCTION nat
  | VTERM_KEY_KP_0 | VTERM_KEY_KP_1 | VTERM_KEY_KP_2 | VTERM_KEY_KP_3 | VTERM_KEY_KP_4
  | VTERM_KEY_KP_5 | VTERM_KEY_KP_6 | VTERM_KEY_KP_7 | VTERM_KEY_KP_8 | VTERM_KEY_KP_9
  | VTERM_KEY_KP_MULT | VTERM_KEY_KP_PLUS | VTERM_KEY_KP_MINUS | VTERM_KEY_KP_PERIOD
  | VTERM_KEY_KP_DIVIDE | VTERM_KEY_KP_ENTER

datatype VTermModifier = VTERM_MOD_NONE | VTERM_MOD_SHIFT | VTERM_MOD_CTRL

text \<open>The calls that terminal.c makes into libvterm and that change the emulator.\<close>

datatype vterm_call =
  InputWrite "8 word list"
  | ScreenFlushDamage
  | KeyboardKey VTermKey VTermModifier
  | KeyboardUnichar int VTermModifier
  | KeyboardStartPaste
  | KeyboardEndPaste
  | MouseMove int int VTermModifier
  | MouseButton int bool VTermModifier
  | SetSize int int

text \<open>
  libvterm is not part of terminal.c, so the emulator is a parameter of the model:
  \<^item> \<^verbatim>\<open>vt_screen r c\<close> is what \<^verbatim>\<open>vterm_screen_get_cell\<close> stores for position \<open>(r, c)\<close>,
    \<^term>\<open>None\<close> when it returns 0;
  \<^item> \<^verbatim>\<open>vt_calls\<close> is the sequence of calls made so far, oldest first;
  \<^item> \<^verbatim>\<open>vt_encode\<close> gives the bytes that a keyboard or mouse call appends to the output
    buffer, \<^verbatim>\<open>vt_output\<close> is that buffer.
\<close>

record VTerm =
  vt_screen :: "int \<Rightarrow> int \<Rightarrow> VTermScreenCell option"
  vt_calls :: "vterm_call list"
  vt_encode :: "vterm_call \<Rightarrow> 8 word list"
  vt_output :: "8 word list"

subsection \<open>The terminal\<close>

text \<open>
  \<^verbatim>\<open>struct terminal_S\<close>.  \<^verbatim>\<open>tl_next\<close> is left out (the list of terminals is handled by the
  callers); the growing array \<^verbatim>\<open>tl_scrollback\<close> is a list, \<^verbatim>\<open>ga_len\<close> its length.  Pointers
  that may be \<^verbatim>\<open>NULL\<close> are options.
\<close>

record term_T =
  tl_vterm :: "VTerm option"
  tl_job :: "job_T option"
  tl_buffer :: buf_T
  tl_terminal_mode :: bool
  tl_channel_closed :: bool
  tl_rows :: int
  tl_cols :: int
  tl_rows_fixed :: bool
  tl_cols_fixed :: bool
  tl_title :: "string option"
  tl_status_text :: "string option"
  tl_dirty_row_start :: int
  tl_dirty_row_end :: int
  tl_scrollback :: "sb_line_T list"
  tl_scrollback_scrolled :: int
  tl_cursor_pos :: VTermPos
  tl_cursor_visible :: bool

section \<open>Creating a terminal\<close>

text \<open>
  \<^verbatim>\<open>ex_terminal\<close>, lines 190 to 195: the structure comes from \<^verbatim>\<open>alloc_clear\<close> (every field
  zero), then the end of the dirty range and the cursor visibility are set and the
  scrollback is initialised empty.  \<^verbatim>\<open>buf\<close> is the buffer of the new window that
  \<^verbatim>\<open>ex_terminal\<close> stores in \<^verbatim>\<open>tl_buffer\<close>.  No later step of \<^verbatim>\<open>ex_terminal\<close> assigns the
  dirty range.
\<close>

definition alloc_clear_term :: "buf_T \<Rightarrow> term_T" where
  "alloc_clear_term buf =
     \<lparr>tl_vterm = None, tl_job = None, tl_buffer = buf,
      tl_terminal_mode = False, tl_channel_closed = False,
      tl_rows = 0, tl_cols = 0, tl_rows_fixed = False, tl_cols_fixed = False,
      tl_title = None, tl_status_text = None,
      tl_dirty_row_start = 0, tl_dirty_row_end = 0,
      tl_scrollback = [], tl_scrollback_scrolled = 0,
      tl_cursor_pos = \<lparr>row = 0, col = 0\<rparr>, tl_cursor_visible = False\<rparr>"

definition ex_terminal_new :: "buf_T \<Rightarrow> term_T" where
  "ex_terminal_new buf =
     (alloc_clear_term buf)\<lparr>tl_dirty_row_end := MAX_ROW, tl_cursor_visible := True\<rparr>"

section \<open>Damage callback\<close>

text \<open>
  \<^verbatim>\<open>handle_damage\<close>: \<^verbatim>\<open>MIN\<close> and \<^verbatim>\<open>MAX\<close> of the stored range and the rectangle's rows.
  \<^verbatim>\<open>redraw_buf_later\<close> only schedules a redraw of the host windows and the callback always
  returns 1; neither is part of the state.
\<close>

definition handle_damage :: "VTermRect \<Rightarrow> term_T \<Rightarrow> term_T" where
  "handle_damage rect term =
     term\<lparr>tl_dirty_row_start := min (tl_dirty_row_start term) (start_row rect),
          tl_dirty_row_end := max (tl_dirty_row_end term) (end_row rect)\<rparr>"

text \<open>A sequence of damage callbacks, delivered in list order.\<close>

fun handle_damages :: "VTermRect list \<Rightarrow> term_T \<Rightarrow> term_T" where
  "handle_damages [] term = term"
| "handle_damages (rect # rects) term = handle_damages rects (handle_damage rect term)"

section \<open>Colour index\<close>

text \<open>
  \<^verbatim>\<open>color2index\<close>.  \<^verbatim>\<open>lookup_color\<close> (syntax.c) and \<^verbatim>\<open>t_colors\<close> (the number of colours of
  the host terminal) are not part of terminal.c and are parameters.  The greyscale loop
  over \<^verbatim>\<open>cutoff[23]\<close> is \<open>greyscale\<close>, started at \<open>i = 0\<close>.
\<close>

definition cutoff :: "int list" where
  "cutoff = [0x05, 0x10, 0x1B, 0x26, 0x31, 0x3C, 0x47, 0x52,
             0x5D, 0x68, 0x73, 0x7F, 0x8A, 0x95, 0xA0, 0xAB,
             0xB6, 0xC1, 0xCC, 0xD7, 0xE2, 0xED, 0xF9]"

fun greyscale :: "int \<Rightarrow> int list \<Rightarrow> int \<Rightarrow> int" where
  "greyscale r [] i = 256"
| "greyscale r (c # cs) i = (if r < c then i + 233 else greyscale r cs (i + 1))"

definition color2index ::
  "(int \<Rightarrow> bool \<Rightarrow> int) \<Rightarrow> int \<Rightarrow> VTermColor \<Rightarrow> bool \<Rightarrow> int" where
  "color2index lookup_color t_colors color foreground =
     (let r = uint (red color); b = uint (blue color); g = uint (green color);
          nomatch =
            (if t_colors \<ge> 256 then
               (if r = b \<and> r = g then greyscale r cutoff 0
                else 17 + ((r + 25) div 0x33) * 36 + ((g + 25) div 0x33) * 6 + (b + 25) div 0x33)
             else 0)
      in
      if r = 0 then
        (if g = 0 then
           (if b = 0 then lookup_color 0 foreground + 1
            else if b = 224 then lookup_color 1 foreground + 1
            else nomatch)
         else if g = 224 then
           (if b = 0 then lookup_color 2 foreground + 1
            else if b = 224 then lookup_color 3 foreground + 1
            else nomatch)
         else nomatch)
      else if r = 224 then
        (if g = 0 then
           (if b = 0 then lookup_color 4 foreground + 1
            else if b = 224 then lookup_color 5 foreground + 1
            else nomatch)
         else if g = 224 then
           (if b = 0 then lookup_color 6 foreground + 1
            else if b = 224 then lookup_color 8 foreground + 1
            else nomatch)
         else nomatch)
      else if r = 128 then
        (if g = 128 \<and> b = 128 then lookup_color 12 foreground + 1 else nomatch)
      else if r = 255 then
        (if g = 64 then
           (if b = 64 then lookup_color 20 foreground + 1
            else if b = 255 then lookup_color 22 foreground + 1
            else nomatch)
         else if g = 255 then
           (if b = 64 then lookup_color 24 foreground + 1
            else if b = 255 then lookup_color 26 foreground + 1
            else nomatch)
         else nomatch)
      else if r = 64 then
        (if g = 64 then
           (if b = 255 then lookup_color 14 foreground + 1 else nomatch)
         else if g = 255 then
           (if b = 64 then lookup_color 16 foreground + 1
            else if b = 255 then lookup_color 18 foreground + 1
            else nomatch)
         else nomatch)
      else nomatch)"

text \<open>
  The standard palette of \<^verbatim>\<open>color2index\<close> as a table: the RGB triples that are matched
  exactly, each with its index into \<^verbatim>\<open>color_names[]\<close>.
\<close>

definition standard_colors :: "((int \<times> int \<times> int) \<times> int) list" where
  "standard_colors =
     [((0, 0, 0), 0), ((0, 0, 224), 1), ((0, 224, 0), 2), ((0, 224, 224), 3),
      ((224, 0, 0), 4), ((224, 0, 224), 5), ((224, 224, 0), 6), ((224, 224, 224), 8),
      ((128, 128, 128), 12),
      ((255, 64, 64), 20), ((255, 64, 255), 22), ((255, 255, 64), 24), ((255, 255, 255), 26),
      ((64, 64, 255), 14), ((64, 255, 64), 16), ((64, 255, 255), 18)]"

definition rgb :: "VTermColor \<Rightarrow> int \<times> int \<times> int" where
  "rgb color = (uint (red color), uint (green color), uint (blue color))"


definition id_lookup_color :: "int \<Rightarrow> bool \<Rightarrow> int" where
  "id_lookup_color idx foreground = idx"

section \<open>Faults, allocation and the host document\<close>

text \<open>
  A read through a \<^verbatim>\<open>NULL\<close> pointer or outside an array is undefined behaviour in C.  The
  model stops there with a fault instead of inventing a value.  A loop that does not end
  gives no result at all: the functions built on such a loop return an \<^typ>\<open>'a option\<close>,
  \<^term>\<open>None\<close> meaning that the C function does not return.
\<close>

datatype fault = NullPointer | OutOfBounds

text \<open>
  \<^verbatim>\<open>alloc\<close> and \<^verbatim>\<open>ga_grow\<close> may fail.  Their outcomes are an input of the model: the list
  gives the outcome of each request in the order in which the requests are made, and once
  the list is used up every request succeeds.  \<^verbatim>\<open>ga_grow\<close> returns \<^verbatim>\<open>OK\<close> for \<^term>\<open>True\<close>.
\<close>

definition alloc :: "bool list \<Rightarrow> bool \<times> bool list" where
  "alloc allocs = (case allocs of [] \<Rightarrow> (True, []) | ok # rest \<Rightarrow> (ok, rest))"

definition ga_grow :: "bool list \<Rightarrow> bool \<times> bool list" where
  "ga_grow allocs = alloc allocs"

text \<open>
  Modelled from the spec: the host document's \<open>append-line(doc, after-line-index, text)\<close>,
  \<open>delete-line(doc, line-index)\<close> and \<open>line-count(doc)\<close>; memline.c, which implements them as
  \<^verbatim>\<open>ml_append_buf\<close> and \<^verbatim>\<open>ml_delete\<close>, is not part of the sources.  Both do nothing for a line
  number outside the buffer.  A buffer always has at least one line: an empty buffer holds
  one empty line (terminal.c: "Delete the empty line that was in the empty buffer"), and
  deleting the only line leaves one empty line.
\<close>

definition ml_append_buf :: "buf_T \<Rightarrow> int \<Rightarrow> int list \<Rightarrow> buf_T" where
  "ml_append_buf buf lnum line =
     (if 0 \<le> lnum \<and> lnum \<le> ml_line_count buf
      then buf\<lparr>b_ml := take (nat lnum) (b_ml buf) @ [line] @ drop (nat lnum) (b_ml buf)\<rparr>
      else buf)"

definition ml_delete :: "buf_T \<Rightarrow> int \<Rightarrow> buf_T" where
  "ml_delete buf lnum =
     (if lnum < 1 \<or> lnum > ml_line_count buf then buf
      else if ml_line_count buf = 1 then buf\<lparr>b_ml := [[]]\<rparr>
      else buf\<lparr>b_ml := take (nat lnum - 1) (b_ml buf) @ drop (nat lnum) (b_ml buf)\<rparr>)"

section \<open>Writing job output to the emulator\<close>

definition NL :: "8 word" where
  "NL = 0x0A"

definition CAR :: "8 word" where
  "CAR = 0x0D"

definition vterm_input_write :: "8 word list \<Rightarrow> VTerm \<Rightarrow> VTerm" where
  "vterm_input_write bytes vterm = vterm\<lparr>vt_calls := vt_calls vterm @ [InputWrite bytes]\<rparr>"

definition vterm_screen_flush_damage :: "VTerm \<Rightarrow> VTerm" where
  "vterm_screen_flush_damage vterm = vterm\<lparr>vt_calls := vt_calls vterm @ [ScreenFlushDamage]\<rparr>"

text \<open>
  \<^verbatim>\<open>term_write_job_output\<close>.  \<^verbatim>\<open>msg[len]\<close> is the list \<open>msg\<close>; \<open>p\<close>, \<open>done\<close> and \<open>len_now\<close> are
  offsets from \<^verbatim>\<open>msg\<close> (\<^verbatim>\<open>size_t\<close> in the source).  \<^verbatim>\<open>utf_ptr2len_len\<close> (mbyte.c) is not part
  of the sources and is a parameter: it is applied to the \<open>len - (p - msg)\<close> bytes that are
  left at \<open>p\<close>.

  \<open>scan_to_NL\<close> is the inner loop: it returns the offset at which it stops.  It does not
  end when \<^verbatim>\<open>utf_ptr2len_len\<close> returns 0.
\<close>

partial_function (option) scan_to_NL ::
  "(8 word list \<Rightarrow> nat) \<Rightarrow> 8 word list \<Rightarrow> nat \<Rightarrow> nat option" where
  "scan_to_NL utf_ptr2len_len msg p =
     (if p < length msg then
        (if msg ! p = NL then Some p
         else scan_to_NL utf_ptr2len_len msg (p + utf_ptr2len_len (drop p msg)))
      else Some p)"

text \<open>
  The outer loop.  \<^verbatim>\<open>vterm_input_write(vterm, msg + done, len_now)\<close> reads \<open>len_now\<close> bytes
  from offset \<open>done\<close>; when the inner loop stepped beyond the end of the message these are
  more bytes than the message has, which is a read outside the array.
\<close>

partial_function (option) write_lines ::
  "(8 word list \<Rightarrow> nat) \<Rightarrow> 8 word list \<Rightarrow> nat \<Rightarrow> VTerm \<Rightarrow> (fault + VTerm) option" where
  "write_lines utf_ptr2len_len msg done vterm =
     (if done < length msg then
        Option.bind (scan_to_NL utf_ptr2len_len msg done) (\<lambda>p.
          let len_now = p - done in
          if done + len_now > length msg then Some (Inl OutOfBounds)
          else
            let vterm1 = vterm_input_write (take len_now (drop done msg)) vterm in
            if p < length msg \<and> msg ! p = NL
            then write_lines utf_ptr2len_len msg (done + (len_now + 1))
                   (vterm_input_write [CAR, NL] vterm1)
            else write_lines utf_ptr2len_len msg (done + len_now) vterm1)
      else Some (Inr vterm))"

definition term_write_job_output ::
  "(8 word list \<Rightarrow> nat) \<Rightarrow> 8 word list \<Rightarrow> VTerm \<Rightarrow> (fault + VTerm) option" where
  "term_write_job_output utf_ptr2len_len msg vterm =
     (case write_lines utf_ptr2len_len msg 0 vterm of
        None \<Rightarrow> None
      | Some (Inl f) \<Rightarrow> Some (Inl f)
      | Some (Inr vterm') \<Rightarrow> Some (Inr (vterm_screen_flush_damage vterm')))"

text \<open>
  \<^verbatim>\<open>write_to_term\<close>: \<^verbatim>\<open>msg\<close> is NUL terminated, \<open>msg\<close> holds the \<^verbatim>\<open>STRLEN(msg)\<close> bytes before
  the NUL.  The channel log, \<^verbatim>\<open>update_screen\<close> and \<^verbatim>\<open>update_cursor\<close> only write the log and
  the display.
\<close>

definition write_to_term ::
  "(8 word list \<Rightarrow> nat) \<Rightarrow> term_T \<Rightarrow> 8 word list \<Rightarrow> (fault + term_T) option" where
  "write_to_term utf_ptr2len_len term msg =
     (case tl_vterm term of
        None \<Rightarrow> Some (Inr term)
      | Some vterm \<Rightarrow>
          (case term_write_job_output utf_ptr2len_len msg vterm of
             None \<Rightarrow> None
           | Some (Inl f) \<Rightarrow> Some (Inl f)
           | Some (Inr vterm') \<Rightarrow> Some (Inr (term\<lparr>tl_vterm := Some vterm'\<rparr>))))"

section \<open>The scrollback and the buffer\<close>

text \<open>
  \<^verbatim>\<open>add_scrollback_line_to_buffer\<close>, the loop over the code points of one cell:
  \<^verbatim>\<open>for (i = 0; (c = line->sb_cells[col].chars[i]) > 0 || i == 0; ++i)\<close>.
  \<open>c\<close> is an \<^verbatim>\<open>int\<close>, so the code point is read as a signed value.  The result is the list
  of the characters handed to \<^verbatim>\<open>mb_char2bytes\<close>.  Reading \<^verbatim>\<open>chars[i]\<close> for
  \<open>i \<ge> VTERM_MAX_CHARS_PER_CELL\<close> is a read outside the array.
\<close>

function cell_text :: "VTermScreenCell \<Rightarrow> nat \<Rightarrow> fault + int list" where
  "cell_text cell i =
     (if VTERM_MAX_CHARS_PER_CELL \<le> i then Inl OutOfBounds
      else
        let c = sint (chars_at cell i) in
        if c > 0 \<or> i = 0 then
          (case cell_text cell (i + 1) of
             Inl f \<Rightarrow> Inl f
           | Inr cs \<Rightarrow> Inr ((if c = 0 then 32 else c) # cs))
        else Inr [])"
  by pat_completeness auto
termination
  by (relation "measure (\<lambda>(cell, i). VTERM_MAX_CHARS_PER_CELL - i)") auto

declare cell_text.simps [simp del]

text \<open>
  The loop over the columns of the line,
  \<^verbatim>\<open>for (col = 0; col < line->sb_cols; col += line->sb_cells[col].width)\<close>.
  Each round first grows the text buffer \<open>ga\<close>; when that fails the function jumps to
  \<^verbatim>\<open>failed\<close> and nothing is appended (\<^term>\<open>None\<close> for the text).  The loop does not end while
  it meets cells of width 0 and \<^verbatim>\<open>ga_grow\<close> succeeds.
\<close>

partial_function (option) sb_line_text ::
  "sb_line_T \<Rightarrow> int \<Rightarrow> int list \<Rightarrow> bool list \<Rightarrow> (fault + int list option \<times> bool list) option"
  where
  "sb_line_text line column ga allocs =
     (if column < sb_cols line then
        (if \<not> fst (ga_grow allocs) then Some (Inr (None, snd (ga_grow allocs)))
         else
           (case sb_cells line of
              None \<Rightarrow> Some (Inl NullPointer)
            | Some cells \<Rightarrow>
                if column < 0 \<or> int (length cells) \<le> column then Some (Inl OutOfBounds)
                else
                  (case cell_text (cells ! nat column) 0 of
                     Inl f \<Rightarrow> Some (Inl f)
                   | Inr cs \<Rightarrow>
                       sb_line_text line (column + width (cells ! nat column)) (ga @ cs)
                         (snd (ga_grow allocs)))))
      else Some (Inr (Some ga, allocs)))"

text \<open>
  \<^verbatim>\<open>add_scrollback_line_to_buffer\<close>: the last line of the scrollback is appended to the
  buffer after line \<open>lnum = ga_len - 1\<close>; when that was the first scrollback line, line 2 of
  the buffer (the empty line of the empty buffer) is deleted.  The state is the terminal
  together with the outcomes of the allocation requests still to come.
\<close>

definition add_scrollback_line_to_buffer ::
  "term_T \<times> bool list \<Rightarrow> (fault + term_T \<times> bool list) option" where
  "add_scrollback_line_to_buffer s =
     (case s of (term, allocs) \<Rightarrow>
        if tl_scrollback term = [] then Some (Inl OutOfBounds)
        else
          let lnum = int (length (tl_scrollback term)) - 1;
              line = last (tl_scrollback term)
          in
          (case sb_line_text line 0 [] allocs of
             None \<Rightarrow> None
           | Some (Inl f) \<Rightarrow> Some (Inl f)
           | Some (Inr (None, allocs1)) \<Rightarrow> Some (Inr (term, allocs1))
           | Some (Inr (Some ga, allocs1)) \<Rightarrow>
               if \<not> fst (ga_grow allocs1) then Some (Inr (term, snd (ga_grow allocs1)))
               else
                 let buf1 = ml_append_buf (tl_buffer term) lnum ga;
                     buf2 = (if lnum = 0 then ml_delete buf1 2 else buf1)
                 in Some (Inr (term\<lparr>tl_buffer := buf2\<rparr>, snd (ga_grow allocs1)))))"

text \<open>
  \<^verbatim>\<open>move_terminal_to_buffer\<close>.  \<open>screen_row_len\<close> is the loop that computes \<open>len\<close> for one
  row, \<open>copy_screen_row\<close> the loop that fills the allocated cells.
\<close>

definition zero_cell :: VTermScreenCell where
  "zero_cell =
     \<lparr>chars = [], width = 0,
      attrs = \<lparr>bold = False, underline = False, italic = False, strike = False, reverse = False\<rparr>,
      fg = \<lparr>red = 0, green = 0, blue = 0\<rparr>, bg = \<lparr>red = 0, green = 0, blue = 0\<rparr>\<rparr>"

definition screen_row_len :: "VTerm \<Rightarrow> int \<Rightarrow> int \<Rightarrow> int" where
  "screen_row_len vterm r cols =
     foldl (\<lambda>len c. case vt_screen vterm r c of
                       None \<Rightarrow> len
                     | Some cell \<Rightarrow> if chars_at cell 0 \<noteq> 0 then c + 1 else len)
       0 [0..cols - 1]"

definition copy_screen_row :: "VTerm \<Rightarrow> int \<Rightarrow> int \<Rightarrow> VTermScreenCell list" where
  "copy_screen_row vterm r len =
     map (\<lambda>c. case vt_screen vterm r c of None \<Rightarrow> zero_cell | Some cell \<Rightarrow> cell) [0..len - 1]"

text \<open>The loop \<^verbatim>\<open>while (lines_skipped > 0)\<close>: one empty scrollback line per skipped row.\<close>

fun add_skipped_lines ::
  "nat \<Rightarrow> term_T \<times> bool list \<Rightarrow> (fault + term_T \<times> bool list) option" where
  "add_skipped_lines 0 s = Some (Inr s)"
| "add_skipped_lines (Suc n) (term, allocs) =
     (if fst (ga_grow allocs) then
        (case add_scrollback_line_to_buffer
                (term\<lparr>tl_scrollback := tl_scrollback term @ [\<lparr>sb_cols = 0, sb_cells = None\<rparr>]\<rparr>,
                 snd (ga_grow allocs)) of
           None \<Rightarrow> None
         | Some (Inl f) \<Rightarrow> Some (Inl f)
         | Some (Inr s') \<Rightarrow> add_skipped_lines n s')
      else add_skipped_lines n (term, snd (ga_grow allocs)))"

text \<open>The part of the loop body that stores a row of \<open>len > 0\<close> cells.\<close>

definition add_screen_row ::
  "VTerm \<Rightarrow> int \<Rightarrow> int \<Rightarrow> term_T \<times> bool list \<Rightarrow> (fault + term_T \<times> bool list) option" where
  "add_screen_row vterm r len s =
     (case s of (term, allocs) \<Rightarrow>
        if fst (alloc allocs) then
          (if fst (ga_grow (snd (alloc allocs))) then
             add_scrollback_line_to_buffer
               (term\<lparr>tl_scrollback := tl_scrollback term @
                        [\<lparr>sb_cols = len, sb_cells = Some (copy_screen_row vterm r len)\<rparr>]\<rparr>,
                snd (ga_grow (snd (alloc allocs))))
           else Some (Inr (term, snd (ga_grow (snd (alloc allocs))))))
        else Some (Inr (term, snd (alloc allocs))))"

text \<open>
  The loop over the rows \<open>pos.row = 0, \<dots>, tl_rows - 1\<close>, given as a list; the second
  argument is \<open>lines_skipped\<close>.
\<close>

fun move_rows ::
  "VTerm \<Rightarrow> int list \<Rightarrow> nat \<Rightarrow> term_T \<times> bool list \<Rightarrow> (fault + term_T \<times> bool list) option"
  where
  "move_rows vterm [] lines_skipped s = Some (Inr s)"
| "move_rows vterm (r # rs) lines_skipped s =
     (let len = screen_row_len vterm r (tl_cols (fst s)) in
      if len = 0 then move_rows vterm rs (lines_skipped + 1) s
      else
        (case add_skipped_lines lines_skipped s of
           None \<Rightarrow> None
         | Some (Inl f) \<Rightarrow> Some (Inl f)
         | Some (Inr s1) \<Rightarrow>
             (case add_screen_row vterm r len s1 of
                None \<Rightarrow> None
              | Some (Inl f) \<Rightarrow> Some (Inl f)
              | Some (Inr s2) \<Rightarrow> move_rows vterm rs 0 s2)))"

text \<open>
  \<^verbatim>\<open>vterm_obtain_screen(term->tl_vterm)\<close> reads through \<^verbatim>\<open>tl_vterm\<close>.  The final loop over the
  windows only moves their cursors and schedules a redraw.
\<close>

definition move_terminal_to_buffer ::
  "term_T \<times> bool list \<Rightarrow> (fault + term_T \<times> bool list) option" where
  "move_terminal_to_buffer s =
     (case tl_vterm (fst s) of
        None \<Rightarrow> Some (Inl NullPointer)
      | Some vterm \<Rightarrow> move_rows vterm [0..tl_rows (fst s) - 1] 0 s)"

section \<open>Terminal mode\<close>

text \<open>\<^verbatim>\<open>set_terminal_mode\<close>; \<^verbatim>\<open>maketitle\<close> only updates the display.\<close>

definition set_terminal_mode :: "term_T \<Rightarrow> bool \<Rightarrow> term_T" where
  "set_terminal_mode term on = term\<lparr>tl_terminal_mode := on, tl_status_text := None\<rparr>"

definition term_free_vterm :: "term_T \<Rightarrow> term_T" where
  "term_free_vterm term = term\<lparr>tl_vterm := None\<rparr>"

definition cleanup_vterm :: "term_T \<times> bool list \<Rightarrow> (fault + term_T \<times> bool list) option" where
  "cleanup_vterm s =
     (case move_terminal_to_buffer s of
        None \<Rightarrow> None
      | Some (Inl f) \<Rightarrow> Some (Inl f)
      | Some (Inr (term, allocs)) \<Rightarrow>
          Some (Inr (set_terminal_mode (term_free_vterm term) False, allocs)))"

text \<open>
  \<^verbatim>\<open>term_enter_terminal_mode\<close> and \<^verbatim>\<open>term_leave_terminal_mode\<close> work on the terminal of the
  current buffer, so \<^verbatim>\<open>curbuf\<close> is \<^verbatim>\<open>tl_buffer\<close>.
\<close>

definition term_enter_terminal_mode ::
  "term_T \<times> bool list \<Rightarrow> (fault + term_T \<times> bool list) option" where
  "term_enter_terminal_mode s =
     (case move_terminal_to_buffer s of
        None \<Rightarrow> None
      | Some (Inl f) \<Rightarrow> Some (Inl f)
      | Some (Inr (term, allocs)) \<Rightarrow> Some (Inr (set_terminal_mode term True, allocs)))"

text \<open>
  The loop of \<^verbatim>\<open>term_leave_terminal_mode\<close> that removes the terminal contents from the
  scrollback and the buffer.  \<^verbatim>\<open>line = (sb_line_T *)gap->ga_data + gap->ga_len - 1\<close> followed
  by \<^verbatim>\<open>vim_free(line->sb_cells)\<close> reads the entry before the start of the array when
  \<^verbatim>\<open>ga_len\<close> is 0.
\<close>

function remove_terminal_contents :: "term_T \<Rightarrow> fault + term_T" where
  "remove_terminal_contents term =
     (if ml_line_count (tl_buffer term) > tl_scrollback_scrolled term then
        (let term1 = term\<lparr>tl_buffer :=
                       ml_delete (tl_buffer term) (ml_line_count (tl_buffer term))\<rparr>
         in
         if tl_scrollback term1 = [] then Inl OutOfBounds
         else
           (let term2 = term1\<lparr>tl_scrollback := butlast (tl_scrollback term1)\<rparr> in
            if tl_scrollback term2 = [] then Inr term2
            else remove_terminal_contents term2))
      else Inr term)"
  by pat_completeness auto
termination
  by (relation "measure (\<lambda>term. length (tl_scrollback term))") auto

declare remove_terminal_contents.simps [simp del]

definition term_leave_terminal_mode ::
  "term_T \<times> bool list \<Rightarrow> (fault + term_T \<times> bool list) option" where
  "term_leave_terminal_mode s =
     (case remove_terminal_contents (fst s) of
        Inl f \<Rightarrow> Some (Inl f)
      | Inr term1 \<Rightarrow>
          (let term2 = set_terminal_mode term1 False in
           if tl_channel_closed term2 then cleanup_vterm (term2, snd s)
           else Some (Inr (term2, snd s))))"

section \<open>Scrollback callback\<close>

text \<open>
  \<^verbatim>\<open>handle_pushline(cols, cells, user)\<close>: \<open>cells\<close> is the array of \<open>cols\<close> cells, so \<open>cols\<close> is
  the length of the list.  \<^verbatim>\<open>alloc\<close> is only called when \<open>len > 0\<close>; \<^verbatim>\<open>mch_memmove\<close> copies
  the first \<open>len\<close> cells.
\<close>

definition pushline_len :: "VTermScreenCell list \<Rightarrow> int" where
  "pushline_len cells =
     foldl (\<lambda>len i. if chars_at (cells ! i) 0 \<noteq> 0 then int i + 1 else len) 0
       [0..<length cells]"

definition handle_pushline ::
  "VTermScreenCell list \<Rightarrow> term_T \<times> bool list \<Rightarrow> (fault + term_T \<times> bool list) option" where
  "handle_pushline cells s =
     (case s of (term, allocs) \<Rightarrow>
        if fst (ga_grow allocs) then
          (let allocs1 = snd (ga_grow allocs);
               len = pushline_len cells;
               p = (if len > 0 \<and> fst (alloc allocs1)
                    then Some (take (nat len) cells) else None);
               allocs2 = (if len > 0 then snd (alloc allocs1) else allocs1)
           in
           add_scrollback_line_to_buffer
             (term\<lparr>tl_scrollback := tl_scrollback term @ [\<lparr>sb_cols = len, sb_cells = p\<rparr>],
                   tl_scrollback_scrolled := tl_scrollback_scrolled term + 1\<rparr>,
              allocs2))
        else Some (Inr (term, snd (ga_grow allocs))))"

text \<open>A sequence of push-line callbacks, delivered in list order.\<close>

fun handle_pushlines ::
  "VTermScreenCell list list \<Rightarrow> term_T \<times> bool list \<Rightarrow> (fault + term_T \<times> bool list) option"
  where
  "handle_pushlines [] s = Some (Inr s)"
| "handle_pushlines (cells # rest) s =
     (case handle_pushline cells s of
        None \<Rightarrow> None
      | Some (Inl f) \<Rightarrow> Some (Inl f)
      | Some (Inr s') \<Rightarrow> handle_pushlines rest s')"

section \<open>Closing the channel\<close>

text \<open>
  \<^verbatim>\<open>term_channel_closed\<close>, the body of its loop for one terminal whose job owns the closed
  channel.
\<close>

definition term_channel_closed ::
  "term_T \<times> bool list \<Rightarrow> (fault + term_T \<times> bool list) option" where
  "term_channel_closed s =
     (let term1 = (fst s)\<lparr>tl_channel_closed := True, tl_title := None, tl_status_text := None\<rparr>
      in if \<not> tl_terminal_mode term1 then cleanup_vterm (term1, snd s)
         else Some (Inr (term1, snd s)))"

section \<open>Attributes\<close>

text \<open>
  What \<^verbatim>\<open>cell2attr\<close> uses of the host: whether the GUI is in use (false when built without
  \<^verbatim>\<open>FEAT_GUI\<close>), the option 'termguicolors' (false when built without
  \<^verbatim>\<open>FEAT_TERMGUICOLORS\<close>), the number of colours, the highlight bits of vim.h and the
  functions of syntax.c and the GUI that turn colours and attributes into an attribute
  index.  None of them is part of terminal.c; they are parameters.
\<close>

record host_T =
  gui_in_use :: bool
  p_tgc :: bool
  t_colors :: int
  lookup_color :: "int \<Rightarrow> bool \<Rightarrow> int"
  HL_BOLD :: int
  HL_UNDERLINE :: int
  HL_ITALIC :: int
  HL_STANDOUT :: int
  HL_INVERSE :: int
  gui_mch_get_rgb_color :: "8 word \<Rightarrow> 8 word \<Rightarrow> 8 word \<Rightarrow> int"
  gui_get_rgb_color_cmn :: "8 word \<Rightarrow> 8 word \<Rightarrow> 8 word \<Rightarrow> int"
  get_gui_attr_idx :: "int \<Rightarrow> int \<Rightarrow> int \<Rightarrow> int"
  get_tgc_attr_idx :: "int \<Rightarrow> int \<Rightarrow> int \<Rightarrow> int"
  get_cterm_attr_idx :: "int \<Rightarrow> int \<Rightarrow> int \<Rightarrow> int"

definition cell2attr :: "host_T \<Rightarrow> VTermScreenCell \<Rightarrow> int" where
  "cell2attr host cell =
     (let attr0 = 0;
          attr1 = (if bold (attrs cell) then attr0 OR HL_BOLD host else attr0);
          attr2 = (if underline (attrs cell) then attr1 OR HL_UNDERLINE host else attr1);
          attr3 = (if italic (attrs cell) then attr2 OR HL_ITALIC host else attr2);
          attr4 = (if strike (attrs cell) then attr3 OR HL_STANDOUT host else attr3);
          attr = (if reverse (attrs cell) then attr4 OR HL_INVERSE host else attr4)
      in
      if gui_in_use host then
        get_gui_attr_idx host attr
          (gui_mch_get_rgb_color host (red (fg cell)) (green (fg cell)) (blue (fg cell)))
          (gui_mch_get_rgb_color host (red (bg cell)) (green (bg cell)) (blue (bg cell)))
      else if p_tgc host then
        get_tgc_attr_idx host attr
          (gui_get_rgb_color_cmn host (red (fg cell)) (green (fg cell)) (blue (fg cell)))
          (gui_get_rgb_color_cmn host (red (bg cell)) (green (bg cell)) (blue (bg cell)))
      else
        get_cterm_attr_idx host attr
          (color2index (lookup_color host) (t_colors host) (fg cell) True)
          (color2index (lookup_color host) (t_colors host) (bg cell) False))"

text \<open>
  \<^verbatim>\<open>term_get_attr(buf, lnum, col)\<close> for the terminal of \<open>buf\<close>.  \<^verbatim>\<open>lnum\<close> is a \<^verbatim>\<open>linenr_T\<close>
  (\<^verbatim>\<open>long\<close>), \<^verbatim>\<open>col\<close> an \<^verbatim>\<open>int\<close>.  \<open>line\<close> is entry \<open>lnum - 1\<close> of the scrollback.
\<close>

definition term_get_attr :: "host_T \<Rightarrow> term_T \<Rightarrow> int \<Rightarrow> int \<Rightarrow> fault + int" where
  "term_get_attr host term lnum column =
     (if lnum > int (length (tl_scrollback term)) then Inr 0
      else if lnum - 1 < 0 then Inl OutOfBounds
      else
        (let line = tl_scrollback term ! nat (lnum - 1) in
         if column \<ge> sb_cols line then Inr 0
         else
           (case sb_cells line of
              None \<Rightarrow> Inl NullPointer
            | Some cells \<Rightarrow>
                if column < 0 \<or> int (length cells) \<le> column then Inl OutOfBounds
                else Inr (cell2attr host (cells ! nat column)))))"

section \<open>Updating a window: the size of the terminal\<close>

definition vterm_set_size :: "int \<Rightarrow> int \<Rightarrow> VTerm \<Rightarrow> VTerm" where
  "vterm_set_size rows cols vterm = vterm\<lparr>vt_calls := vt_calls vterm @ [SetSize rows cols]\<rparr>"

text \<open>
  The loop \<^verbatim>\<open>FOR_ALL_WINDOWS(twp)\<close> of \<^verbatim>\<open>term_update_window\<close> over the windows \<open>wins\<close>, with
  the current \<open>rows\<close> and \<open>cols\<close>.
\<close>

fun smallest_size :: "term_T \<Rightarrow> win_T list \<Rightarrow> int \<times> int \<Rightarrow> int \<times> int" where
  "smallest_size term [] (rows, cols) = (rows, cols)"
| "smallest_size term (twp # wins) (rows, cols) =
     smallest_size term wins
       (if w_buffer twp = b_fnum (tl_buffer term) then
          (if \<not> tl_rows_fixed term \<and> rows > w_height twp then w_height twp else rows,
           if \<not> tl_cols_fixed term \<and> cols > w_width twp then w_width twp else cols)
        else (rows, cols))"

text \<open>
  The size that \<^verbatim>\<open>term_update_window(wp)\<close> passes to \<^verbatim>\<open>vterm_set_size\<close> and
  \<^verbatim>\<open>term_report_winsize\<close>, \<^term>\<open>None\<close> when the condition of the \<^verbatim>\<open>if\<close> does not hold and
  the size is left alone.
\<close>

definition term_update_window_size :: "win_T \<Rightarrow> win_T list \<Rightarrow> term_T \<Rightarrow> (int \<times> int) option" where
  "term_update_window_size wp wins term =
     (if (\<not> tl_rows_fixed term \<and> tl_rows term \<noteq> w_height wp)
         \<or> (\<not> tl_cols_fixed term \<and> tl_cols term \<noteq> w_width wp)
      then
        Some (smallest_size term wins
                (if tl_rows_fixed term then tl_rows term else w_height wp,
                 if tl_cols_fixed term then tl_cols term else w_width wp))
      else None)"

text \<open>
  \<^verbatim>\<open>term_update_window\<close> up to the resize: \<^term>\<open>None\<close> is \<^verbatim>\<open>FAIL\<close>.  \<open>term\<close> is
  \<^verbatim>\<open>wp->w_buffer->b_term\<close>, \<open>wins\<close> are the windows of \<^verbatim>\<open>FOR_ALL_WINDOWS\<close>.  Reporting the size to
  the job and drawing the screen lines act on the job and the display only.
\<close>

definition term_update_window :: "win_T \<Rightarrow> win_T list \<Rightarrow> term_T option \<Rightarrow> term_T option" where
  "term_update_window wp wins b_term =
     (case b_term of
        None \<Rightarrow> None
      | Some term \<Rightarrow>
          (case tl_vterm term of
             None \<Rightarrow> None
           | Some vterm \<Rightarrow>
               if tl_terminal_mode term then None
               else
                 (case term_update_window_size wp wins term of
                    None \<Rightarrow> Some term
                  | Some (rows, cols) \<Rightarrow>
                      Some (term\<lparr>tl_vterm := Some (vterm_set_size rows cols vterm)\<rparr>))))"

section \<open>Operations that test for the emulator\<close>

text \<open>
  \<^verbatim>\<open>term_job_running\<close>; \<^verbatim>\<open>channel_is_open\<close> is false for a \<^verbatim>\<open>NULL\<close> channel.
\<close>

definition term_job_running :: "term_T \<Rightarrow> bool" where
  "term_job_running term =
     (case tl_job term of
        None \<Rightarrow> False
      | Some job \<Rightarrow>
          jv_status job = JOB_STARTED
          \<and> (case jv_channel job of None \<Rightarrow> False | Some channel \<Rightarrow> ch_open channel))"

text \<open>
  \<^verbatim>\<open>term_use_loop\<close>, \<^verbatim>\<open>term_is_finished\<close> and \<^verbatim>\<open>term_show_buffer\<close>; \<open>b_term\<close> is the terminal of
  the buffer, \<^term>\<open>None\<close> for a buffer without terminal.
\<close>

definition term_use_loop :: "term_T option \<Rightarrow> bool" where
  "term_use_loop b_term =
     (case b_term of
        None \<Rightarrow> False
      | Some term \<Rightarrow> \<not> tl_terminal_mode term \<and> tl_vterm term \<noteq> None \<and> term_job_running term)"

definition term_is_finished :: "term_T option \<Rightarrow> bool" where
  "term_is_finished b_term =
     (case b_term of None \<Rightarrow> False | Some term \<Rightarrow> tl_vterm term = None)"

definition term_show_buffer :: "term_T option \<Rightarrow> bool" where
  "term_show_buffer b_term =
     (case b_term of
        None \<Rightarrow> False
      | Some term \<Rightarrow> tl_vterm term = None \<or> tl_terminal_mode term)"

text \<open>
  \<^verbatim>\<open>f_term_getline\<close>.  \<open>b_term\<close> is the terminal of the buffer found by \<^verbatim>\<open>term_get_buf\<close>, \<open>arg\<close>
  the row argument (\<^term>\<open>None\<close> when it is not given, the row of the cursor is used then).
  The result is the string stored in \<^verbatim>\<open>rettv\<close>: nothing (\<^verbatim>\<open>NULL\<close>), a line of the buffer copied
  by \<^verbatim>\<open>vim_strsave\<close>, or the text that \<^verbatim>\<open>vterm_screen_get_text\<close> writes for the rectangle into
  the \<open>len\<close> bytes allocated for it.  \<^verbatim>\<open>vterm_screen_get_text\<close> belongs to libvterm and is a
  parameter; the terminating \<^verbatim>\<open>NUL\<close> is stored behind the bytes it wrote, which is outside the
  allocated bytes when it wrote \<open>len\<close> of them.  \<^verbatim>\<open>vim_strsave\<close> and \<^verbatim>\<open>alloc\<close> may fail.
\<close>

datatype getline_result = NoString | BufferLine "int list" | ScreenText "8 word list"

definition MB_MAXBYTES :: int where
  "MB_MAXBYTES = 21"

definition f_term_getline ::
  "(VTerm \<Rightarrow> VTermRect \<Rightarrow> int \<Rightarrow> 8 word list) \<Rightarrow> term_T option \<Rightarrow> int option \<Rightarrow> bool list
     \<Rightarrow> fault + getline_result \<times> bool list" where
  "f_term_getline vterm_screen_get_text b_term arg allocs =
     (case b_term of
        None \<Rightarrow> Inr (NoString, allocs)
      | Some term \<Rightarrow>
          (let r = (case arg of None \<Rightarrow> row (tl_cursor_pos term) | Some n \<Rightarrow> n) in
           case tl_vterm term of
             None \<Rightarrow>
               (let lnum = r + tl_scrollback_scrolled term + 1 in
                if lnum > 0 \<and> lnum \<le> ml_line_count (tl_buffer term) then
                  (if fst (alloc allocs)
                   then Inr (BufferLine (b_ml (tl_buffer term) ! nat (lnum - 1)),
                             snd (alloc allocs))
                   else Inr (NoString, snd (alloc allocs)))
                else Inr (NoString, allocs))
           | Some vterm \<Rightarrow>
               (let len = tl_cols term * MB_MAXBYTES + 1 in
                if fst (alloc allocs) then
                  (let text = vterm_screen_get_text vterm
                       \<lparr>start_row = r, end_row = r + 1, start_col = 0, end_col = tl_cols term\<rparr>
                       len
                   in if int (length text) \<ge> len then Inl OutOfBounds
                      else Inr (ScreenText text, snd (alloc allocs)))
                else Inr (NoString, snd (alloc allocs)))))"

text \<open>
  \<^verbatim>\<open>f_term_scrape\<close>.  One entry of the returned list: the code points of the cell before the
  first zero, as they are handed to \<^verbatim>\<open>utf_char2bytes\<close>, the colours printed with
  \<^verbatim>\<open>"#%02x%02x%02x"\<close>, the attribute and the width.
\<close>

record scrape_cell =
  sc_chars :: "int list"
  sc_fg :: string
  sc_bg :: string
  sc_attr :: int
  sc_width :: int

definition hex_digit :: "nat \<Rightarrow> char" where
  "hex_digit n = ''0123456789abcdef'' ! n"

definition hex2 :: "8 word \<Rightarrow> string" where
  "hex2 w = [hex_digit (unat w div 16), hex_digit (unat w mod 16)]"

definition rgb_string :: "VTermColor \<Rightarrow> string" where
  "rgb_string color = CHR ''#'' # hex2 (red color) @ hex2 (green color) @ hex2 (blue color)"

definition scrape_dict :: "host_T \<Rightarrow> VTermScreenCell \<Rightarrow> scrape_cell" where
  "scrape_dict host cell =
     \<lparr>sc_chars = map sint (takeWhile (\<lambda>c. c \<noteq> 0)
                    (map (chars_at cell) [0..<VTERM_MAX_CHARS_PER_CELL])),
      sc_fg = rgb_string (fg cell), sc_bg = rgb_string (bg cell),
      sc_attr = cell2attr host cell, sc_width = width cell\<rparr>"

text \<open>
  The cell for position \<open>(prow, column)\<close>: from the scrollback when the emulator is gone,
  from the screen otherwise.  \<^term>\<open>Inr None\<close> is the \<^verbatim>\<open>break\<close> out of the loop.
\<close>

definition scrape_get_cell :: "term_T \<Rightarrow> int \<Rightarrow> int \<Rightarrow> fault + VTermScreenCell option" where
  "scrape_get_cell term prow column =
     (case tl_vterm term of
        None \<Rightarrow>
          (let lnum = prow + tl_scrollback_scrolled term in
           if lnum < 0 \<or> lnum \<ge> int (length (tl_scrollback term)) then Inr None
           else
             (let line = tl_scrollback term ! nat lnum in
              if column \<ge> sb_cols line then Inr None
              else
                (case sb_cells line of
                   None \<Rightarrow> Inl NullPointer
                 | Some cells \<Rightarrow>
                     if column < 0 \<or> int (length cells) \<le> column then Inl OutOfBounds
                     else Inr (Some (cells ! nat column)))))
      | Some vterm \<Rightarrow> Inr (vt_screen vterm prow column))"

text \<open>
  The loop \<^verbatim>\<open>for (pos.col = 0; pos.col < term->tl_cols; )\<close>.  \<^verbatim>\<open>dict_alloc\<close> may return \<^verbatim>\<open>NULL\<close>;
  the entry is handed to \<^verbatim>\<open>list_append_dict\<close> and \<^verbatim>\<open>dict_add_nr_str\<close> without a test, which
  read through it.
\<close>

function scrape_cells ::
  "host_T \<Rightarrow> term_T \<Rightarrow> int \<Rightarrow> int \<Rightarrow> bool list \<Rightarrow> fault + scrape_cell list \<times> bool list" where
  "scrape_cells host term prow column allocs =
     (if column < tl_cols term then
        (case scrape_get_cell term prow column of
           Inl f \<Rightarrow> Inl f
         | Inr None \<Rightarrow> Inr ([], allocs)
         | Inr (Some cell) \<Rightarrow>
             if \<not> fst (alloc allocs) then Inl NullPointer
             else
               (case scrape_cells host term prow
                       (if width cell = 2 then column + 2 else column + 1) (snd (alloc allocs)) of
                  Inl f \<Rightarrow> Inl f
                | Inr (entries, allocs') \<Rightarrow> Inr (scrape_dict host cell # entries, allocs')))
      else Inr ([], allocs))"
  by pat_completeness auto
termination
  by (relation "measure (\<lambda>(host, term, prow, column, allocs). nat (tl_cols term - column))") auto

declare scrape_cells.simps [simp del]

text \<open>
  \<^verbatim>\<open>f_term_scrape\<close>: \<^term>\<open>None\<close> when \<^verbatim>\<open>rettv_list_alloc\<close> fails and no list is returned, else
  the list, which stays empty for a buffer without terminal.
\<close>

definition f_term_scrape ::
  "host_T \<Rightarrow> term_T option \<Rightarrow> int option \<Rightarrow> bool list
     \<Rightarrow> fault + scrape_cell list option \<times> bool list" where
  "f_term_scrape host b_term arg allocs =
     (if \<not> fst (alloc allocs) then Inr (None, snd (alloc allocs))
      else
        (case b_term of
           None \<Rightarrow> Inr (Some [], snd (alloc allocs))
         | Some term \<Rightarrow>
             (let prow = (case arg of None \<Rightarrow> row (tl_cursor_pos term) | Some n \<Rightarrow> n) in
              case scrape_cells host term prow 0 (snd (alloc allocs)) of
                Inl f \<Rightarrow> Inl f
              | Inr (entries, allocs') \<Rightarrow> Inr (Some entries, allocs'))))"

section \<open>Reference functions for the statements\<close>

text \<open>
  A scrollback line is intact when a positive width comes with a cell array that has at
  least that many cells.
\<close>

definition sb_line_ok :: "sb_line_T \<Rightarrow> bool" where
  "sb_line_ok line =
     (sb_cols line > 0 \<longrightarrow>
        (case sb_cells line of None \<Rightarrow> False | Some cells \<Rightarrow> sb_cols line \<le> int (length cells)))"

definition scrollback_ok :: "term_T \<Rightarrow> bool" where
  "scrollback_ok term = list_all sb_line_ok (tl_scrollback term)"

text \<open>
  Following the description of the feeding helper: the message is split at its line
  feeds; each piece is written as it is and each line feed as carriage return, line feed.
\<close>

function split_calls :: "8 word list \<Rightarrow> vterm_call list" where
  "split_calls msg =
     (if msg = [] then []
      else
        (case dropWhile (\<lambda>b. b \<noteq> NL) msg of
           [] \<Rightarrow> [InputWrite msg]
         | nl # rest \<Rightarrow>
             InputWrite (takeWhile (\<lambda>b. b \<noteq> NL) msg) # InputWrite [CAR, NL] # split_calls rest))"
  by pat_completeness auto
termination
proof (relation "measure length")
  show "wf (measure length)" by simp
next
  fix msg :: "8 word list" and nl rest
  assume "dropWhile (\<lambda>b. b \<noteq> NL) msg = nl # rest"
  then have "length (nl # rest) \<le> length msg"
    by (metis length_dropWhile_le)
  then show "(rest, msg) \<in> measure length" by simp
qed

declare split_calls.simps [simp del]

text \<open>The bytes that a sequence of calls feeds to the emulator.\<close>

fun input_bytes :: "vterm_call list \<Rightarrow> 8 word list" where
  "input_bytes [] = []"
| "input_bytes (InputWrite bytes # calls) = bytes @ input_bytes calls"
| "input_bytes (call # calls) = input_bytes calls"

definition nl_to_crnl :: "8 word list \<Rightarrow> 8 word list" where
  "nl_to_crnl msg = concat (map (\<lambda>b. if b = NL then [CAR, NL] else [b]) msg)"

text \<open>
  \<^verbatim>\<open>utf_ptr2len_len(p, size)\<close> belongs to mbyte.c, which is not part of the sources; the
  functions above take it as a parameter.  It is given here as mbyte.c defines it, for the
  \<open>size\<close> bytes at \<open>p\<close> (at least one, as in every call of terminal.c): \<^verbatim>\<open>utf8len_tab\<close> is
  the length that the first byte announces; the result is 1 when that length is 1 or when
  one of the bytes that follow, as far as the announced length and \<open>size\<close> reach, is not a
  continuation byte, and the announced length otherwise.  So for a sequence that \<open>size\<close>
  cuts short the result is more than \<open>size\<close>.
\<close>

definition utf8len_tab :: "8 word \<Rightarrow> nat" where
  "utf8len_tab b =
     (if b < 0xC0 then 1 else if b < 0xE0 then 2 else if b < 0xF0 then 3
      else if b < 0xF8 then 4 else if b < 0xFC then 5 else if b < 0xFE then 6 else 1)"

definition utf_ptr2len_len :: "8 word list \<Rightarrow> nat" where
  "utf_ptr2len_len bytes =
     (let len = utf8len_tab (hd bytes);
          m = (if len > length bytes then length bytes else len)
      in
      if len = 1 then 1
      else if list_ex (\<lambda>i. (bytes ! i) AND 0xC0 \<noteq> 0x80) [1..<m] then 1
      else len)"

text \<open>
  No character of the message is cut short by the end of the message: wherever the scan
  for a line feed may stand, the length that \<open>h\<close> returns there stays within the message.
\<close>

definition no_cut_character :: "(8 word list \<Rightarrow> nat) \<Rightarrow> 8 word list \<Rightarrow> bool" where
  "no_cut_character h msg =
     list_all (\<lambda>p. msg ! p = NL \<or> p + h (drop p msg) \<le> length msg) [0..<length msg]"

text \<open>The windows among \<open>wins\<close> that show the buffer of the terminal.\<close>

definition windows_showing :: "term_T \<Rightarrow> win_T list \<Rightarrow> win_T set" where
  "windows_showing term wins = {w \<in> set wins. w_buffer w = b_fnum (tl_buffer term)}"

text \<open>
  A cell as the emulator delivers it: its width is at least 1 and one of the code points
  after the first is zero or negative as an \<^verbatim>\<open>int\<close>, so that the loop over the code points
  ends inside the array.
\<close>

definition cell_ok :: "VTermScreenCell \<Rightarrow> bool" where
  "cell_ok cell =
     (1 \<le> width cell \<and> list_ex (\<lambda>i. sint (chars_at cell i) \<le> 0) [1..<VTERM_MAX_CHARS_PER_CELL])"

text \<open>The emulator has such a cell at every position of the first \<open>rows\<close> rows and \<open>cols\<close> columns.\<close>

definition screen_ok :: "VTerm \<Rightarrow> int \<Rightarrow> int \<Rightarrow> bool" where
  "screen_ok vterm rows cols =
     list_all (\<lambda>r. list_all (\<lambda>c. case vt_screen vterm r c of
                                    None \<Rightarrow> False
                                  | Some cell \<Rightarrow> cell_ok cell) [0..cols - 1]) [0..rows - 1]"

text \<open>
  Following the description of the flush: the scrollback line for a screen row, empty when
  the row has no content, and the lines that a flush of the rows \<open>rs\<close> adds: one line for
  every row down to the last row with content, none for the empty rows below it.
\<close>

definition screen_line :: "VTerm \<Rightarrow> int \<Rightarrow> int \<Rightarrow> sb_line_T" where
  "screen_line vterm cols r =
     (if screen_row_len vterm r cols = 0 then \<lparr>sb_cols = 0, sb_cells = None\<rparr>
      else \<lparr>sb_cols = screen_row_len vterm r cols,
            sb_cells = Some (copy_screen_row vterm r (screen_row_len vterm r cols))\<rparr>)"

definition drop_trailing_empty :: "VTerm \<Rightarrow> int \<Rightarrow> int list \<Rightarrow> int list" where
  "drop_trailing_empty vterm cols rs =
     rev (dropWhile (\<lambda>r. screen_row_len vterm r cols = 0) (rev rs))"

definition flushed_lines :: "VTerm \<Rightarrow> int \<Rightarrow> int list \<Rightarrow> sb_line_T list" where
  "flushed_lines vterm cols rs = map (screen_line vterm cols) (drop_trailing_empty vterm cols rs)"

text \<open>The scrollback line that a push-line callback stores when its allocation succeeds.\<close>

definition pushed_line :: "VTermScreenCell list \<Rightarrow> sb_line_T" where
  "pushed_line cells =
     \<lparr>sb_cols = pushline_len cells,
      sb_cells = (if pushline_len cells > 0 then Some (take (nat (pushline_len cells)) cells)
                  else None)\<rparr>"

text \<open>
  A stored line whose text can be produced: it is empty, or it has its cells and these are
  cells as the emulator delivers them.
\<close>

definition line_cells_ok :: "sb_line_T \<Rightarrow> bool" where
  "line_cells_ok line =
     (sb_cols line \<le> 0 \<or>
      (case sb_cells line of
         None \<Rightarrow> False
       | Some cells \<Rightarrow> sb_cols line \<le> int (length cells) \<and> list_all cell_ok cells))"

text \<open>
  The buffer follows the scrollback: it has one line for each scrollback line, and its one
  empty line while the scrollback is empty.
\<close>

definition buffer_follows :: "term_T \<Rightarrow> bool" where
  "buffer_follows term =
     (ml_line_count (tl_buffer term) = max 1 (int (length (tl_scrollback term))))"

text \<open>
  \<open>term'\<close> is \<open>term\<close> with the lines \<open>new\<close> appended to the scrollback and with a buffer of
  its own, which follows the scrollback if the buffer of \<open>term\<close> did.
\<close>

definition appended :: "term_T \<Rightarrow> sb_line_T list \<Rightarrow> term_T \<Rightarrow> bool" where
  "appended term new term' =
     (term'\<lparr>tl_buffer := tl_buffer term\<rparr> = term\<lparr>tl_scrollback := tl_scrollback term @ new\<rparr>
      \<and> (buffer_follows term \<longrightarrow> buffer_follows term'))"

text \<open>
  The lines of a flush computed row by row, with the number \<open>k\<close> of empty rows seen since
  the last row with content.
\<close>

fun flush_acc :: "VTerm \<Rightarrow> int \<Rightarrow> nat \<Rightarrow> int list \<Rightarrow> sb_line_T list" where
  "flush_acc vterm cols k [] = []"
| "flush_acc vterm cols k (r # rs) =
     (if screen_row_len vterm r cols = 0 then flush_acc vterm cols (k + 1) rs
      else replicate k \<lparr>sb_cols = 0, sb_cells = None\<rparr> @ [screen_line vterm cols r]
           @ flush_acc vterm cols 0 rs)"

text \<open>
  The cells stored for row \<open>prow\<close> of a terminal without emulator: those of scrollback line
  \<open>prow + tl_scrollback_scrolled\<close>, none when there is no such line.
\<close>

definition stored_cells :: "term_T \<Rightarrow> int \<Rightarrow> VTermScreenCell list" where
  "stored_cells term prow =
     (let lnum = prow + tl_scrollback_scrolled term in
      if 0 \<le> lnum \<and> lnum < int (length (tl_scrollback term)) then
        (case sb_cells (tl_scrollback term ! nat lnum) of None \<Rightarrow> [] | Some cells \<Rightarrow> cells)
      else [])"

section \<open>Concrete terminals for the examples\<close>

text \<open>
  A screen given by a grid of cells: \<^verbatim>\<open>vterm_screen_get_cell\<close> returns 0 outside the grid.
\<close>

definition grid_screen :: "VTermScreenCell list list \<Rightarrow> int \<Rightarrow> int \<Rightarrow> VTermScreenCell option" where
  "grid_screen grid r c =
     (if 0 \<le> r \<and> r < int (length grid) \<and> 0 \<le> c \<and> c < int (length (grid ! nat r))
      then Some (grid ! nat r ! nat c) else None)"

definition char_cell :: "32 word \<Rightarrow> VTermScreenCell" where
  "char_cell ch = zero_cell\<lparr>chars := [ch], width := 1\<rparr>"

definition blank_cell :: VTermScreenCell where
  "blank_cell = zero_cell\<lparr>width := 1\<rparr>"

definition example_vterm :: "VTermScreenCell list list \<Rightarrow> VTerm" where
  "example_vterm grid =
     \<lparr>vt_screen = grid_screen grid, vt_calls = [], vt_encode = (\<lambda>call. []), vt_output = []\<rparr>"

definition example_job :: job_T where
  "example_job = \<lparr>jv_status = JOB_STARTED, jv_channel = Some \<lparr>ch_open = True, ch_sent = []\<rparr>\<rparr>"

definition example_buf :: buf_T where
  "example_buf = \<lparr>b_fnum = 1, b_ml = [[]]\<rparr>"

text \<open>
  A terminal as \<^verbatim>\<open>ex_terminal\<close> leaves it when the job has started: the emulator shows
  \<open>grid\<close>, the size is \<open>rows\<close> by \<open>cols\<close> and taken from the window, the buffer is empty.
\<close>

definition example_term :: "VTermScreenCell list list \<Rightarrow> int \<Rightarrow> int \<Rightarrow> term_T" where
  "example_term grid rows cols =
     (ex_terminal_new example_buf)
       \<lparr>tl_vterm := Some (example_vterm grid), tl_job := Some example_job,
        tl_rows := rows, tl_cols := cols\<rparr>"

definition example_win :: "int \<Rightarrow> int \<Rightarrow> win_T" where
  "example_win height wd =
     \<lparr>w_buffer = 1, w_winrow = 0, w_wincol = 0, w_height = height, w_width = wd\<rparr>"

text \<open>A screen of three rows and two columns: an empty row, a row with one character, an empty row.\<close>

definition example_grid :: "VTermScreenCell list list" where
  "example_grid =
     [[blank_cell, blank_cell], [char_cell 97, blank_cell], [blank_cell, blank_cell]]"

text \<open>
  A host without GUI and without 'termguicolors' that has 256 colours; the attribute index
  of a cell is taken to be its attribute bits.
\<close>

definition example_host :: host_T where
  "example_host =
     \<lparr>gui_in_use = False, p_tgc = False, t_colors = 256, lookup_color = id_lookup_color,
      HL_BOLD = 2, HL_UNDERLINE = 8, HL_ITALIC = 4, HL_STANDOUT = 32, HL_INVERSE = 1,
      gui_mch_get_rgb_color = (\<lambda>r g b. 0), gui_get_rgb_color_cmn = (\<lambda>r g b. 0),
      get_gui_attr_idx = (\<lambda>attr f b. attr), get_tgc_attr_idx = (\<lambda>attr f b. attr),
      get_cterm_attr_idx = (\<lambda>attr f b. attr)\<rparr>"

text \<open>
  The terminal of one row and one column that showed the character \<open>a\<close> when its channel
  was closed: the row is in the scrollback and in the buffer, the emulator is gone.
\<close>

definition example_finished_term :: term_T where
  "example_finished_term =
     (example_term [[char_cell 97]] 1 1)
       \<lparr>tl_vterm := None, tl_buffer := \<lparr>b_fnum = 1, b_ml = [[97]]\<rparr>,
        tl_channel_closed := True,
        tl_scrollback := [\<lparr>sb_cols = 1, sb_cells = Some [char_cell 97]\<rparr>]\<rparr>"

text \<open>An emulator whose \<^verbatim>\<open>vterm_screen_get_text\<close> writes nothing.\<close>

definition no_screen_text :: "VTerm \<Rightarrow> VTermRect \<Rightarrow> int \<Rightarrow> 8 word list" where
  "no_screen_text vterm rect len = []"

section \<open>Keys\<close>

text \<open>
  The key codes of keymap.h are not part of the sources.  A typed key \<open>c\<close> is either one of
  the special keys that terminal.c names, or \<open>Char n\<close>: any other value \<open>n\<close> of the \<^verbatim>\<open>int\<close>,
  a character or a special key that no \<^verbatim>\<open>case\<close> label names.  The character constants of
  ascii.h have their ASCII values.  The model is the build with \<^verbatim>\<open>FEAT_GUI\<close>,
  \<^verbatim>\<open>FEAT_GUI_TABLINE\<close>, \<^verbatim>\<open>FEAT_NETBEANS_INTG\<close>, \<^verbatim>\<open>FEAT_DND\<close> and \<^verbatim>\<open>FEAT_AUTOCMD\<close>, in which
  every \<^verbatim>\<open>case\<close> label of \<^verbatim>\<open>term_convert_key\<close> is present.
\<close>

datatype (plugins only: code) key_T =
  Char int
  | K_ZERO | K_BS | K_DEL | K_DOWN | K_S_DOWN | K_END | K_S_END | K_C_END
  | K_F1 | K_F2 | K_F3 | K_F4 | K_F5 | K_F6 | K_F7 | K_F8 | K_F9 | K_F10 | K_F11 | K_F12
  | K_F21 | K_HOME | K_S_HOME | K_C_HOME | K_INS
  | K_K0 | K_K1 | K_K2 | K_K3 | K_K4 | K_K5 | K_K6 | K_K7 | K_K8 | K_K9
  | K_KDEL | K_KDIVIDE | K_KEND | K_KENTER | K_KHOME | K_KINS | K_KMINUS
  | K_KMULTIPLY | K_KPAGEDOWN | K_KPAGEUP | K_KPLUS | K_KPOINT
  | K_LEFT | K_S_LEFT | K_C_LEFT | K_PAGEDOWN | K_PAGEUP
  | K_RIGHT | K_S_RIGHT | K_C_RIGHT | K_UP | K_S_UP
  | K_MOUSEUP | K_MOUSEDOWN | K_MOUSELEFT | K_MOUSERIGHT
  | K_LEFTMOUSE | K_LEFTMOUSE_NM | K_LEFTDRAG | K_LEFTRELEASE | K_LEFTRELEASE_NM
  | K_MIDDLEMOUSE | K_MIDDLEDRAG | K_MIDDLERELEASE
  | K_RIGHTMOUSE | K_RIGHTDRAG | K_RIGHTRELEASE
  | K_X1MOUSE | K_X1DRAG | K_X1RELEASE | K_X2MOUSE | K_X2DRAG | K_X2RELEASE
  | K_IGNORE | K_NOP | K_UNDO | K_HELP | K_XF1 | K_XF2 | K_XF3 | K_XF4 | K_SELECT
  | K_VER_SCROLLBAR | K_HOR_SCROLLBAR | K_TABLINE | K_TABMENU | K_DROP | K_CURSORHOLD
  | K_PS | K_PE

definition NUL :: int where "NUL = 0"
definition BS :: int where "BS = 8"
definition TAB :: int where "TAB = 9"
definition ESC :: int where "ESC = 27"

text \<open>
  Modelled from the spec: the emulator's \<open>keyboard-key(key, modifiers)\<close>,
  \<open>keyboard-unichar(codepoint, modifiers)\<close>, \<open>mouse-move\<close> and \<open>mouse-button\<close>, "each appending
  to an internal output buffer drained via a read-output call"; libvterm is not part of the
  sources.  A call is recorded and the bytes that the emulator's encoder produces for it
  are appended to the output buffer.  \<^verbatim>\<open>vterm_output_read(vterm, buf, len)\<close> moves the first
  \<open>len\<close> bytes of the output buffer, or all of them when there are fewer, into \<open>buf\<close> and
  returns their number.
\<close>

definition vterm_call_out :: "vterm_call \<Rightarrow> VTerm \<Rightarrow> VTerm" where
  "vterm_call_out call vterm =
     vterm\<lparr>vt_calls := vt_calls vterm @ [call],
           vt_output := vt_output vterm @ vt_encode vterm call\<rparr>"

definition vterm_keyboard_key :: "VTerm \<Rightarrow> VTermKey \<Rightarrow> VTermModifier \<Rightarrow> VTerm" where
  "vterm_keyboard_key vterm key modifier = vterm_call_out (KeyboardKey key modifier) vterm"

definition vterm_keyboard_unichar :: "VTerm \<Rightarrow> int \<Rightarrow> VTermModifier \<Rightarrow> VTerm" where
  "vterm_keyboard_unichar vterm c modifier = vterm_call_out (KeyboardUnichar c modifier) vterm"

definition vterm_keyboard_start_paste :: "VTerm \<Rightarrow> VTerm" where
  "vterm_keyboard_start_paste vterm = vterm_call_out KeyboardStartPaste vterm"

definition vterm_keyboard_end_paste :: "VTerm \<Rightarrow> VTerm" where
  "vterm_keyboard_end_paste vterm = vterm_call_out KeyboardEndPaste vterm"

definition vterm_mouse_move :: "VTerm \<Rightarrow> int \<Rightarrow> int \<Rightarrow> VTermModifier \<Rightarrow> VTerm" where
  "vterm_mouse_move vterm r c modifier = vterm_call_out (MouseMove r c modifier) vterm"

definition vterm_mouse_button :: "VTerm \<Rightarrow> int \<Rightarrow> bool \<Rightarrow> VTermModifier \<Rightarrow> VTerm" where
  "vterm_mouse_button vterm button pressed modifier = vterm_call_out (MouseButton button pressed modifier) vterm"

definition vterm_output_read :: "VTerm \<Rightarrow> nat \<Rightarrow> nat \<times> 8 word list \<times> VTerm" where
  "vterm_output_read vterm len =
     (min len (length (vt_output vterm)), take len (vt_output vterm),
      vterm\<lparr>vt_output := drop len (vt_output vterm)\<rparr>)"

text \<open>
  The mouse position and the current window, globals of the host, and the \<^verbatim>\<open>int\<close> value
  that keymap.h gives to a key.
\<close>

record input_env =
  mouse_row :: int
  mouse_col :: int
  curwin :: win_T
  key_value :: "key_T \<Rightarrow> int"

text \<open>\<^verbatim>\<open>term_send_mouse\<close>; it returns \<^verbatim>\<open>TRUE\<close>.\<close>

definition term_send_mouse :: "input_env \<Rightarrow> VTerm \<Rightarrow> int \<Rightarrow> bool \<Rightarrow> VTerm" where
  "term_send_mouse env vterm button pressed =
     vterm_mouse_button
       (vterm_mouse_move vterm (mouse_row env - w_winrow (curwin env))
          (mouse_col env - w_wincol (curwin env)) VTERM_MOD_NONE)
       button pressed VTERM_MOD_NONE"

text \<open>
  \<^verbatim>\<open>term_convert_key\<close>, the part after the \<^verbatim>\<open>switch\<close>: the key is given to the emulator and
  the converted bytes are read back into \<open>buf\<close>.  The result is the return value, the bytes
  written to \<open>buf\<close> and the emulator.
\<close>

definition convert_key_read_back ::
  "VTerm \<Rightarrow> VTermKey \<Rightarrow> VTermModifier \<Rightarrow> bool \<Rightarrow> int \<Rightarrow> nat \<times> 8 word list \<times> VTerm" where
  "convert_key_read_back vterm key modifier mouse c =
     vterm_output_read
       (if key \<noteq> VTERM_KEY_NONE then vterm_keyboard_key vterm key modifier
        else if \<not> mouse then vterm_keyboard_unichar vterm c modifier
        else vterm)
       KEY_BUF_LEN"

text \<open>
  \<^verbatim>\<open>term_convert_key\<close>.  The \<^verbatim>\<open>switch\<close> sets \<open>key\<close>, \<open>mod\<close>, \<open>mouse\<close> or \<open>c\<close>, or returns 0 at
  once; \<^verbatim>\<open>CAR\<close> is the character 13.  \<^verbatim>\<open>K_ZERO\<close> has no \<^verbatim>\<open>case\<close> label here and is handled
  as a normal character, like \<open>Char n\<close>.  A key that returns 0 at once does not touch the emulator; every other key calls
  into libvterm with \<^verbatim>\<open>term->tl_vterm\<close>, which must not be \<^verbatim>\<open>NULL\<close>.
\<close>

definition convert_key_switch ::
  "input_env \<Rightarrow> VTerm \<Rightarrow> key_T \<Rightarrow> nat \<times> 8 word list \<times> VTerm" where
  "convert_key_switch env vterm c =
     (let special = (\<lambda>key modifier. convert_key_read_back vterm key modifier False 0);
          plain = (\<lambda>key. convert_key_read_back vterm key VTERM_MOD_NONE False 0);
          mouse = (\<lambda>button pressed.
                     convert_key_read_back (term_send_mouse env vterm button pressed)
                       VTERM_KEY_NONE VTERM_MOD_NONE True 0);
          return0 = (0, [], vterm)
      in
      case c of
        Char n \<Rightarrow>
          if n = 13 then plain VTERM_KEY_ENTER
          else if n = ESC then plain VTERM_KEY_ESCAPE
          else if n = TAB then plain VTERM_KEY_TAB
          else convert_key_read_back vterm VTERM_KEY_NONE VTERM_MOD_NONE False n
      | K_ZERO \<Rightarrow>
          convert_key_read_back vterm VTERM_KEY_NONE VTERM_MOD_NONE False (key_value env K_ZERO)
      | K_BS \<Rightarrow> convert_key_read_back vterm VTERM_KEY_NONE VTERM_MOD_NONE False BS
      | K_DEL \<Rightarrow> plain VTERM_KEY_DEL
      | K_DOWN \<Rightarrow> plain VTERM_KEY_DOWN
      | K_S_DOWN \<Rightarrow> special VTERM_KEY_DOWN VTERM_MOD_SHIFT
      | K_END \<Rightarrow> plain VTERM_KEY_END
      | K_S_END \<Rightarrow> special VTERM_KEY_END VTERM_MOD_SHIFT
      | K_C_END \<Rightarrow> special VTERM_KEY_END VTERM_MOD_CTRL
      | K_F10 \<Rightarrow> plain (VTERM_KEY_FUNCTION 10)
      | K_F11 \<Rightarrow> plain (VTERM_KEY_FUNCTION 11)
      | K_F12 \<Rightarrow> plain (VTERM_KEY_FUNCTION 12)
      | K_F1 \<Rightarrow> plain (VTERM_KEY_FUNCTION 1)
      | K_F2 \<Rightarrow> plain (VTERM_KEY_FUNCTION 2)
      | K_F3 \<Rightarrow> plain (VTERM_KEY_FUNCTION 3)
      | K_F4 \<Rightarrow> plain (VTERM_KEY_FUNCTION 4)
      | K_F5 \<Rightarrow> plain (VTERM_KEY_FUNCTION 5)
      | K_F6 \<Rightarrow> plain (VTERM_KEY_FUNCTION 6)
      | K_F7 \<Rightarrow> plain (VTERM_KEY_FUNCTION 7)
      | K_F8 \<Rightarrow> plain (VTERM_KEY_FUNCTION 8)
      | K_F9 \<Rightarrow> plain (VTERM_KEY_FUNCTION 9)
      | K_HOME \<Rightarrow> plain VTERM_KEY_HOME
      | K_S_HOME \<Rightarrow> special VTERM_KEY_HOME VTERM_MOD_SHIFT
      | K_C_HOME \<Rightarrow> special VTERM_KEY_HOME VTERM_MOD_CTRL
      | K_INS \<Rightarrow> plain VTERM_KEY_INS
      | K_K0 \<Rightarrow> plain VTERM_KEY_KP_0
      | K_K1 \<Rightarrow> plain VTERM_KEY_KP_1
      | K_K2 \<Rightarrow> plain VTERM_KEY_KP_2
      | K_K3 \<Rightarrow> plain VTERM_KEY_KP_3
      | K_K4 \<Rightarrow> plain VTERM_KEY_KP_4
      | K_K5 \<Rightarrow> plain VTERM_KEY_KP_5
      | K_K6 \<Rightarrow> plain VTERM_KEY_KP_6
      | K_K7 \<Rightarrow> plain VTERM_KEY_KP_7
      | K_K8 \<Rightarrow> plain VTERM_KEY_KP_8
      | K_K9 \<Rightarrow> plain VTERM_KEY_KP_9
      | K_KDEL \<Rightarrow> plain VTERM_KEY_DEL
      | K_KDIVIDE \<Rightarrow> plain VTERM_KEY_KP_DIVIDE
      | K_KEND \<Rightarrow> plain VTERM_KEY_KP_1
      | K_KENTER \<Rightarrow> plain VTERM_KEY_KP_ENTER
      | K_KHOME \<Rightarrow> plain VTERM_KEY_KP_7
      | K_KINS \<Rightarrow> plain VTERM_KEY_KP_0
      | K_KMINUS \<Rightarrow> plain VTERM_KEY_KP_MINUS
      | K_KMULTIPLY \<Rightarrow> plain VTERM_KEY_KP_MULT
      | K_KPAGEDOWN \<Rightarrow> plain VTERM_KEY_KP_3
      | K_KPAGEUP \<Rightarrow> plain VTERM_KEY_KP_9
      | K_KPLUS \<Rightarrow> plain VTERM_KEY_KP_PLUS
      | K_KPOINT \<Rightarrow> plain VTERM_KEY_KP_PERIOD
      | K_LEFT \<Rightarrow> plain VTERM_KEY_LEFT
      | K_S_LEFT \<Rightarrow> special VTERM_KEY_LEFT VTERM_MOD_SHIFT
      | K_C_LEFT \<Rightarrow> special VTERM_KEY_LEFT VTERM_MOD_CTRL
      | K_PAGEDOWN \<Rightarrow> plain VTERM_KEY_PAGEDOWN
      | K_PAGEUP \<Rightarrow> plain VTERM_KEY_PAGEUP
      | K_RIGHT \<Rightarrow> plain VTERM_KEY_RIGHT
      | K_S_RIGHT \<Rightarrow> special VTERM_KEY_RIGHT VTERM_MOD_SHIFT
      | K_C_RIGHT \<Rightarrow> special VTERM_KEY_RIGHT VTERM_MOD_CTRL
      | K_UP \<Rightarrow> plain VTERM_KEY_UP
      | K_S_UP \<Rightarrow> special VTERM_KEY_UP VTERM_MOD_SHIFT
      | K_MOUSEUP \<Rightarrow> mouse 5 True
      | K_MOUSEDOWN \<Rightarrow> mouse 4 True
      | K_MOUSELEFT \<Rightarrow> return0
      | K_MOUSERIGHT \<Rightarrow> return0
      | K_LEFTMOUSE \<Rightarrow> mouse 1 True
      | K_LEFTMOUSE_NM \<Rightarrow> mouse 1 True
      | K_LEFTDRAG \<Rightarrow> mouse 1 True
      | K_LEFTRELEASE \<Rightarrow> mouse 1 False
      | K_LEFTRELEASE_NM \<Rightarrow> mouse 1 False
      | K_MIDDLEMOUSE \<Rightarrow> mouse 2 True
      | K_MIDDLEDRAG \<Rightarrow> mouse 2 True
      | K_MIDDLERELEASE \<Rightarrow> mouse 2 False
      | K_RIGHTMOUSE \<Rightarrow> mouse 3 True
      | K_RIGHTDRAG \<Rightarrow> mouse 3 True
      | K_RIGHTRELEASE \<Rightarrow> mouse 3 False
      | K_X1MOUSE \<Rightarrow> return0
      | K_X1DRAG \<Rightarrow> return0
      | K_X1RELEASE \<Rightarrow> return0
      | K_X2MOUSE \<Rightarrow> return0
      | K_X2DRAG \<Rightarrow> return0
      | K_X2RELEASE \<Rightarrow> return0
      | K_IGNORE \<Rightarrow> return0
      | K_NOP \<Rightarrow> return0
      | K_UNDO \<Rightarrow> return0
      | K_HELP \<Rightarrow> return0
      | K_XF1 \<Rightarrow> plain (VTERM_KEY_FUNCTION 1)
      | K_XF2 \<Rightarrow> plain (VTERM_KEY_FUNCTION 2)
      | K_XF3 \<Rightarrow> plain (VTERM_KEY_FUNCTION 3)
      | K_XF4 \<Rightarrow> plain (VTERM_KEY_FUNCTION 4)
      | K_SELECT \<Rightarrow> return0
      | K_VER_SCROLLBAR \<Rightarrow> return0
      | K_HOR_SCROLLBAR \<Rightarrow> return0
      | K_TABLINE \<Rightarrow> return0
      | K_TABMENU \<Rightarrow> return0
      | K_F21 \<Rightarrow> plain (VTERM_KEY_FUNCTION 21)
      | K_DROP \<Rightarrow> return0
      | K_CURSORHOLD \<Rightarrow> return0
      | K_PS \<Rightarrow> (0, [], vterm_keyboard_start_paste vterm)
      | K_PE \<Rightarrow> (0, [], vterm_keyboard_end_paste vterm))"

text \<open>The keys for which the \<^verbatim>\<open>switch\<close> returns 0 without a call into libvterm.\<close>

definition returns_at_once :: "key_T \<Rightarrow> bool" where
  "returns_at_once c =
     (c \<in> {K_MOUSELEFT, K_MOUSERIGHT, K_X1MOUSE, K_X1DRAG, K_X1RELEASE,
            K_X2MOUSE, K_X2DRAG, K_X2RELEASE, K_IGNORE, K_NOP, K_UNDO, K_HELP, K_SELECT,
            K_VER_SCROLLBAR, K_HOR_SCROLLBAR, K_TABLINE, K_TABMENU, K_DROP, K_CURSORHOLD})"

definition term_convert_key ::
  "input_env \<Rightarrow> term_T \<Rightarrow> key_T \<Rightarrow> fault + nat \<times> 8 word list \<times> term_T" where
  "term_convert_key env term c =
     (if returns_at_once c then Inr (0, [], term)
      else
        (case tl_vterm term of
           None \<Rightarrow> Inl NullPointer
         | Some vterm \<Rightarrow>
             (case convert_key_switch env vterm c of
                (n, buf, vterm') \<Rightarrow> Inr (n, buf, term\<lparr>tl_vterm := Some vterm'\<rparr>))))"

text \<open>
  \<^verbatim>\<open>channel_send(term->tl_job->jv_channel, PART_IN, msg, len, NULL)\<close>: the bytes are queued
  for the job.  The call reads through \<^verbatim>\<open>tl_job\<close> and the channel.
\<close>

definition channel_send :: "term_T \<Rightarrow> 8 word list \<Rightarrow> fault + term_T" where
  "channel_send term bytes =
     (case tl_job term of
        None \<Rightarrow> Inl NullPointer
      | Some job \<Rightarrow>
          (case jv_channel job of
             None \<Rightarrow> Inl NullPointer
           | Some channel \<Rightarrow>
               Inr (term\<lparr>tl_job := Some (job\<lparr>jv_channel :=
                      Some (channel\<lparr>ch_sent := ch_sent channel @ [bytes]\<rparr>)\<rparr>)\<rparr>)))"

text \<open>
  The state of \<^verbatim>\<open>send_keys_to_term\<close> besides the terminal: its static variable
  \<^verbatim>\<open>mouse_was_outside\<close> and the keys given to \<^verbatim>\<open>stuffcharReadbuff\<close>.
\<close>

record key_globals =
  mouse_was_outside :: bool
  readbuff :: "key_T list"

definition is_drag_key :: "key_T \<Rightarrow> bool" where
  "is_drag_key c = (c \<in> {K_LEFTDRAG, K_MIDDLEDRAG, K_RIGHTDRAG, K_X1DRAG, K_X2DRAG})"

definition is_click_key :: "key_T \<Rightarrow> bool" where
  "is_click_key c =
     (c \<in> {K_LEFTMOUSE, K_LEFTMOUSE_NM, K_LEFTRELEASE, K_LEFTRELEASE_NM,
            K_MIDDLEMOUSE, K_MIDDLERELEASE, K_RIGHTMOUSE, K_RIGHTRELEASE,
            K_X1MOUSE, K_X1RELEASE, K_X2MOUSE, K_X2RELEASE})"

definition mouse_outside :: "input_env \<Rightarrow> bool" where
  "mouse_outside env =
     (mouse_row env < w_winrow (curwin env)
      \<or> mouse_row env \<ge> w_winrow (curwin env) + w_height (curwin env)
      \<or> mouse_col env < w_wincol (curwin env)
      \<or> mouse_col env \<ge> w_wincol (curwin env) + w_width (curwin env))"

text \<open>
  \<^verbatim>\<open>send_keys_to_term\<close>: the result is \<^verbatim>\<open>OK\<close> (\<^term>\<open>True\<close>) or \<^verbatim>\<open>FAIL\<close>, with the terminal and
  the globals.  The bytes go through the buffer \<^verbatim>\<open>msg[KEY_BUF_LEN]\<close>.
\<close>

definition send_keys_to_term ::
  "input_env \<Rightarrow> term_T \<Rightarrow> key_T \<Rightarrow> bool \<Rightarrow> key_globals
     \<Rightarrow> fault + bool \<times> term_T \<times> key_globals" where
  "send_keys_to_term env term c typed g =
     (if c = Char NUL \<or> c = K_ZERO then
        Inr (False, term, if typed then g\<lparr>readbuff := readbuff g @ [c]\<rparr> else g)
      else if c = K_IGNORE then Inr (False, term, g)
      else if (is_drag_key c \<or> is_click_key c)
              \<and> (mouse_outside env \<or> (is_drag_key c \<and> mouse_was_outside g)) then
        Inr (False, term,
             if typed then g\<lparr>readbuff := readbuff g @ [c], mouse_was_outside := True\<rparr> else g)
      else
        (let g1 = (if typed then g\<lparr>mouse_was_outside := False\<rparr> else g) in
         case term_convert_key env term c of
           Inl f \<Rightarrow> Inl f
         | Inr (len, msg, term1) \<Rightarrow>
             if len > 0 then
               (case channel_send term1 (take len msg) of
                  Inl f \<Rightarrow> Inl f
                | Inr term2 \<Rightarrow> Inr (True, term2, g1))
             else Inr (True, term1, g1)))"

text \<open>
  \<^verbatim>\<open>f_term_sendkeys\<close>.  \<open>b_term\<close> is the terminal of the buffer found by \<^verbatim>\<open>term_get_buf\<close>
  (\<^term>\<open>None\<close> when it returns \<^verbatim>\<open>NULL\<close>), \<open>msg\<close> the characters of the string argument as
  \<^verbatim>\<open>PTR2CHAR\<close> yields them (\<^term>\<open>None\<close> when \<^verbatim>\<open>get_tv_string_chk\<close> returns \<^verbatim>\<open>NULL\<close>).  The loop
  over the characters is \<open>send_all_keys\<close>; the result of \<^verbatim>\<open>send_keys_to_term\<close> is ignored.
\<close>

fun send_all_keys ::
  "input_env \<Rightarrow> int list \<Rightarrow> term_T \<times> key_globals \<Rightarrow> fault + term_T \<times> key_globals" where
  "send_all_keys env [] s = Inr s"
| "send_all_keys env (ch # msg) (term, g) =
     (case send_keys_to_term env term (Char ch) False g of
        Inl f \<Rightarrow> Inl f
      | Inr (ok, term', g') \<Rightarrow> send_all_keys env msg (term', g'))"

definition f_term_sendkeys ::
  "input_env \<Rightarrow> term_T option \<Rightarrow> int list option \<Rightarrow> key_globals
     \<Rightarrow> fault + term_T option \<times> key_globals" where
  "f_term_sendkeys env b_term msg g =
     (case b_term of
        None \<Rightarrow> Inr (None, g)
      | Some term \<Rightarrow>
          (case msg of
             None \<Rightarrow> Inr (Some term, g)
           | Some keys \<Rightarrow>
               if tl_vterm term = None then Inr (Some term, g)
               else
                 (case send_all_keys env keys (term, g) of
                    Inl f \<Rightarrow> Inl f
                  | Inr (term', g') \<Rightarrow> Inr (Some term', g'))))"

text \<open>The byte sequences queued for the job of a terminal so far.\<close>

definition sent :: "term_T \<Rightarrow> 8 word list list" where
  "sent term =
     (case tl_job term of
        None \<Rightarrow> []
      | Some job \<Rightarrow> (case jv_channel job of None \<Rightarrow> [] | Some channel \<Rightarrow> ch_sent channel))"

text \<open>
  For the examples: the mouse inside a window of 24 by 80, keys valued 0, and an emulator
  that answers every keyboard and mouse call with the three bytes \<open>ESC [ A\<close>.
\<close>

definition example_env :: input_env where
  "example_env =
     \<lparr>mouse_row = 0, mouse_col = 0, curwin = example_win 24 80, key_value = (\<lambda>c. 0)\<rparr>"

definition example_keys_term :: term_T where
  "example_keys_term =
     (example_term [] 24 80)
       \<lparr>tl_vterm := Some ((example_vterm [])\<lparr>vt_encode := (\<lambda>call. [0x1B, 0x5B, 0x41])\<rparr>)\<rparr>"

section \<open>The loop that sends typed keys to the job\<close>

text \<open>
  \<^verbatim>\<open>term_vgetc\<close> waits for a key.  While it waits the host handles the events of the channel,
  so the terminal found after the wait may differ from the one before (the job may have
  finished); \<^verbatim>\<open>terminal_loop\<close> reads \<^verbatim>\<open>curbuf->b_term\<close> again after every wait.  What the waits
  deliver is an input of the model: for each wait, in their order, the key and the change
  of the terminal during the wait.  With no entry left the wait does not end.
\<close>

type_synonym key_events = "(key_T \<times> (term_T \<Rightarrow> term_T)) list"

text \<open>
  What \<^verbatim>\<open>terminal_loop\<close> and \<^verbatim>\<open>term_paste_register\<close> use of the host: the key of the option
  'termkey' (\<^term>\<open>None\<close> when the option is empty, \<open>termkey\<close> is 0 then), the result of
  \<^verbatim>\<open>get_expr_register\<close>, the lines of a register as \<^verbatim>\<open>get_reg_contents\<close> returns them
  (\<^term>\<open>None\<close> for \<^verbatim>\<open>NULL\<close>) and whether \<^verbatim>\<open>get_reg_type\<close> is \<^verbatim>\<open>MLINE\<close>.
\<close>

record loop_env =
  termkey :: "key_T option"
  get_expr_register :: key_T
  get_reg_contents :: "key_T \<Rightarrow> 8 word list list option"
  reg_is_MLINE :: "key_T \<Rightarrow> bool"

definition Ctrl_W :: int where
  "Ctrl_W = 23"

text \<open>
  \<^verbatim>\<open>term_paste_register\<close>: the loop over the lines of the register, then the function.  The
  result holds the events that are left.
\<close>

fun paste_lines :: "bool \<Rightarrow> 8 word list list \<Rightarrow> term_T \<Rightarrow> fault + term_T" where
  "paste_lines mline [] term = Inr term"
| "paste_lines mline (s # rest) term =
     (case channel_send term s of
        Inl f \<Rightarrow> Inl f
      | Inr term1 \<Rightarrow>
          if rest \<noteq> [] \<or> mline then
            (case channel_send term1 [CAR] of
               Inl f \<Rightarrow> Inl f
             | Inr term2 \<Rightarrow> paste_lines mline rest term2)
          else paste_lines mline rest term1)"

definition term_paste_register ::
  "loop_env \<Rightarrow> term_T \<Rightarrow> key_events \<Rightarrow> (fault + term_T \<times> key_events) option" where
  "term_paste_register lenv term0 events =
     (case events of
        [] \<Rightarrow> None
      | (c, change) # events1 \<Rightarrow>
          (let term = change term0 in
           if c = Char 61 \<and> get_expr_register lenv \<noteq> Char 61 then Some (Inr (term, events1))
           else
             (case get_reg_contents lenv c of
                None \<Rightarrow> Some (Inr (term, events1))
              | Some l \<Rightarrow>
                  (case paste_lines (reg_is_MLINE lenv c) l term of
                     Inl f \<Rightarrow> Some (Inl f)
                   | Inr term1 \<Rightarrow> Some (Inr (term1, events1))))))"

text \<open>
  One round of the loop of \<^verbatim>\<open>terminal_loop\<close>.  The state is the terminal of the current
  buffer, the outcomes of the allocations to come and the globals of
  \<^verbatim>\<open>send_keys_to_term\<close>.  The round ends with the wait that does not end, with a fault, with
  the return of \<^verbatim>\<open>OK\<close> (\<^term>\<open>True\<close>) or \<^verbatim>\<open>FAIL\<close>, or it is followed by the next round.
\<close>

type_synonym loop_state = "term_T \<times> bool list \<times> key_globals"

datatype loop_step =
  Waiting
  | Fault fault
  | Leave bool loop_state key_events
  | Again loop_state key_events

text \<open>The last statement of the round: \<^verbatim>\<open>if (send_keys_to_term(...) != OK) return OK;\<close>\<close>

definition loop_send ::
  "input_env \<Rightarrow> key_T \<Rightarrow> loop_state \<Rightarrow> key_events \<Rightarrow> loop_step" where
  "loop_send env c s events =
     (case s of (term, allocs, g) \<Rightarrow>
        (case send_keys_to_term env term c True g of
           Inl f \<Rightarrow> Fault f
         | Inr (ok, term1, g1) \<Rightarrow>
             if ok then Again (term1, allocs, g1) events
             else Leave True (term1, allocs, g1) events))"

definition loop_round ::
  "input_env \<Rightarrow> loop_env \<Rightarrow> key_events \<Rightarrow> loop_state \<Rightarrow> loop_step" where
  "loop_round env lenv events s =
     (case s of (term0, allocs, g) \<Rightarrow>
        (case events of
           [] \<Rightarrow> Waiting
         | (c, change) # events1 \<Rightarrow>
             (let term = change term0 in
              if tl_vterm term = None \<or> \<not> term_job_running term
              then Leave False (term, allocs, g) events1
              else if c = (case termkey lenv of None \<Rightarrow> Char Ctrl_W | Some k \<Rightarrow> k) then
                (case events1 of
                   [] \<Rightarrow> Waiting
                 | (c2, change2) # events2 \<Rightarrow>
                     (let term2 = change2 term in
                      if tl_vterm term2 = None \<or> \<not> term_job_running term2
                      then Leave False (term2, allocs, g) events2
                      else if termkey lenv = None \<and> c2 = Char 46
                      then loop_send env (Char Ctrl_W) (term2, allocs, g) events2
                      else if c2 = Char 78 then
                        (case term_enter_terminal_mode (term2, allocs) of
                           None \<Rightarrow> Waiting
                         | Some (Inl f) \<Rightarrow> Fault f
                         | Some (Inr (term3, allocs3)) \<Rightarrow> Leave False (term3, allocs3, g) events2)
                      else if c2 = Char 34 then
                        (case term_paste_register lenv term2 events2 of
                           None \<Rightarrow> Waiting
                         | Some (Inl f) \<Rightarrow> Fault f
                         | Some (Inr (term3, events3)) \<Rightarrow> Again (term3, allocs, g) events3)
                      else if termkey lenv = None \<or> Some c2 \<noteq> termkey lenv
                      then Leave True
                             (term2, allocs, g\<lparr>readbuff := readbuff g @ [Char Ctrl_W, c2]\<rparr>)
                             events2
                      else loop_send env c2 (term2, allocs, g) events2))
              else loop_send env c (term, allocs, g) events1)))"

text \<open>
  \<^verbatim>\<open>terminal_loop\<close>: the result is what it returns, the state and the events that are left.
  Moving the cursor and drawing the screen act on the display only.
\<close>

partial_function (option) terminal_loop ::
  "input_env \<Rightarrow> loop_env \<Rightarrow> key_events \<Rightarrow> loop_state
     \<Rightarrow> (fault + bool \<times> loop_state \<times> key_events) option" where
  "terminal_loop env lenv events s =
     (case loop_round env lenv events s of
        Waiting \<Rightarrow> None
      | Fault f \<Rightarrow> Some (Inl f)
      | Leave r s1 events1 \<Rightarrow> Some (Inr (r, s1, events1))
      | Again s1 events1 \<Rightarrow> terminal_loop env lenv events1 s1)"

definition example_loop_env :: loop_env where
  "example_loop_env =
     \<lparr>termkey = None, get_expr_register = Char 61, get_reg_contents = (\<lambda>c. None),
      reg_is_MLINE = (\<lambda>c. False)\<rparr>"

section \<open>Properties of the damage callback\<close>

lemma Min_insert_min:
  "finite S \<Longrightarrow> Min (insert (min a b) S) = min (a::int) (Min (insert b S))"
  by (cases "S = {}") (simp_all add: min.assoc)

lemma Max_insert_max:
  "finite S \<Longrightarrow> Max (insert (max a b) S) = max (a::int) (Max (insert b S))"
  by (cases "S = {}") (simp_all add: max.assoc)

lemma handle_damages_start:
  "tl_dirty_row_start (handle_damages rects tm) =
     Min (insert (tl_dirty_row_start tm) (start_row ` set rects))"
proof (induction rects arbitrary: tm)
  case Nil
  then show ?case by simp
next
  case (Cons rect rects)
  have "Min (insert (min (tl_dirty_row_start tm) (start_row rect)) (start_row ` set rects))
      = Min (insert (tl_dirty_row_start tm) (insert (start_row rect) (start_row ` set rects)))"
    by (simp add: Min_insert_min)
  with Cons show ?case by (simp add: handle_damage_def)
qed

lemma handle_damages_end:
  "tl_dirty_row_end (handle_damages rects tm) =
     Max (insert (tl_dirty_row_end tm) (end_row ` set rects))"
proof (induction rects arbitrary: tm)
  case Nil
  then show ?case by simp
next
  case (Cons rect rects)
  have "Max (insert (max (tl_dirty_row_end tm) (end_row rect)) (end_row ` set rects))
      = Max (insert (tl_dirty_row_end tm) (insert (end_row rect) (end_row ` set rects)))"
    by (simp add: Max_insert_max)
  with Cons show ?case by (simp add: handle_damage_def)
qed

text \<open>
  C2, as the code has it.  After the damage callbacks \<open>rects\<close> the dirty range of a terminal
  is the union of the range it had before with all the ranges delivered: its start is the
  minimum of the old start and the starts \<open>a\<^sub>i\<close>, its end the maximum of the old end and the
  ends \<open>b\<^sub>i\<close>.  The result does not depend on the order of delivery, and a single callback
  never narrows the range.  A terminal fresh from \<^verbatim>\<open>ex_terminal\<close> starts with the range
  \<open>[0, MAX_ROW)\<close>, so for it the result is \<open>[min(0, min a\<^sub>i), max(999999, max b\<^sub>i))\<close> and not
  \<open>[min a\<^sub>i, max b\<^sub>i)\<close>.
\<close>

theorem handle_damages_dirty_range:
  "tl_dirty_row_start (handle_damages rects tm) =
     Min (insert (tl_dirty_row_start tm) (start_row ` set rects))
   \<and> tl_dirty_row_end (handle_damages rects tm) =
     Max (insert (tl_dirty_row_end tm) (end_row ` set rects))
   \<and> (mset rects' = mset rects \<longrightarrow>
        tl_dirty_row_start (handle_damages rects' tm) = tl_dirty_row_start (handle_damages rects tm)
        \<and> tl_dirty_row_end (handle_damages rects' tm) = tl_dirty_row_end (handle_damages rects tm))
   \<and> tl_dirty_row_start (handle_damage rect tm) \<le> tl_dirty_row_start tm
   \<and> tl_dirty_row_end tm \<le> tl_dirty_row_end (handle_damage rect tm)
   \<and> tl_dirty_row_start (handle_damages rects (ex_terminal_new buf)) =
     Min (insert 0 (start_row ` set rects))
   \<and> tl_dirty_row_end (handle_damages rects (ex_terminal_new buf)) =
     Max (insert 999999 (end_row ` set rects))"
proof -
  have order: "mset rects' = mset rects \<Longrightarrow> set rects' = set rects"
    by (rule mset_eq_setD)
  have fresh: "tl_dirty_row_start (ex_terminal_new buf) = 0"
    "tl_dirty_row_end (ex_terminal_new buf) = 999999"
    by (simp_all add: ex_terminal_new_def alloc_clear_term_def MAX_ROW_def)
  show ?thesis
    unfolding handle_damages_start handle_damages_end fresh
    using order by (simp add: handle_damage_def)
qed

theorem handle_damages_dirty_range_witness:
  "mset [\<lparr>start_row = 7, end_row = 9, start_col = 0, end_col = 80\<rparr>,
         \<lparr>start_row = 2, end_row = 5, start_col = 0, end_col = 80\<rparr>]
     = mset [\<lparr>start_row = 2, end_row = 5, start_col = 0, end_col = 80\<rparr>,
             \<lparr>start_row = 7, end_row = 9, start_col = 0, end_col = 80\<rparr>]
   \<and> tl_dirty_row_start
        (handle_damages [\<lparr>start_row = 7, end_row = 9, start_col = 0, end_col = 80\<rparr>,
                         \<lparr>start_row = 2, end_row = 5, start_col = 0, end_col = 80\<rparr>]
           ((ex_terminal_new \<lparr>b_fnum = 1, b_ml = [[]]\<rparr>)
              \<lparr>tl_dirty_row_start := 4, tl_dirty_row_end := 6\<rparr>)) = 2
   \<and> tl_dirty_row_end
        (handle_damages [\<lparr>start_row = 7, end_row = 9, start_col = 0, end_col = 80\<rparr>,
                         \<lparr>start_row = 2, end_row = 5, start_col = 0, end_col = 80\<rparr>]
           ((ex_terminal_new \<lparr>b_fnum = 1, b_ml = [[]]\<rparr>)
              \<lparr>tl_dirty_row_start := 4, tl_dirty_row_end := 6\<rparr>)) = 9"
  using handle_damages_dirty_range
    [of "[\<lparr>start_row = 2, end_row = 5, start_col = 0, end_col = 80\<rparr>,
          \<lparr>start_row = 7, end_row = 9, start_col = 0, end_col = 80\<rparr>]"
        "(ex_terminal_new \<lparr>b_fnum = 1, b_ml = [[]]\<rparr>)
           \<lparr>tl_dirty_row_start := 4, tl_dirty_row_end := 6\<rparr>"
        "[\<lparr>start_row = 7, end_row = 9, start_col = 0, end_col = 80\<rparr>,
          \<lparr>start_row = 2, end_row = 5, start_col = 0, end_col = 80\<rparr>]"]
  by simp

theorem handle_damage_fresh_counterexample:
  "\<not> (tl_dirty_row_start
         (handle_damages [\<lparr>start_row = 2, end_row = 5, start_col = 0, end_col = 80\<rparr>]
            (ex_terminal_new \<lparr>b_fnum = 1, b_ml = [[]]\<rparr>)) = 2
      \<and> tl_dirty_row_end
         (handle_damages [\<lparr>start_row = 2, end_row = 5, start_col = 0, end_col = 80\<rparr>]
            (ex_terminal_new \<lparr>b_fnum = 1, b_ml = [[]]\<rparr>)) = 5)"
  by (simp add: handle_damage_def ex_terminal_new_def alloc_clear_term_def MAX_ROW_def)

section \<open>Properties of the colour index\<close>

lemma round_div_51:
  assumes "0 \<le> r"
  shows "round (real_of_int r / 51) = (r + 25) div 51"
proof -
  have "real_of_int r / 51 + 1 / 2 = real_of_int (2 * r + 51) / real_of_int 102"
    by simp
  then have "round (real_of_int r / 51) = (2 * r + 51) div 102"
    unfolding round_def by (simp only: floor_divide_of_int_eq)
  also have "\<dots> = (r + 25) div 51"
  proof (rule int_div_pos_eq)
    show "2 * r + 51 = 102 * ((r + 25) div 51) + (2 * ((r + 25) mod 51) + 1)"
      using div_mult_mod_eq [of "r + 25" 51] by linarith
    show "0 \<le> 2 * ((r + 25) mod 51) + 1" by simp
    show "2 * ((r + 25) mod 51) + 1 < 102"
      using pos_mod_bound [of 51 "r + 25"] by linarith
  qed
  finally show ?thesis .
qed

lemma greyscale_filter:
  "sorted cs \<Longrightarrow> i + int (length cs) = 23 \<Longrightarrow>
     greyscale r cs i = i + 233 + int (length (filter (\<lambda>c. c \<le> r) cs))"
proof (induction cs arbitrary: i)
  case Nil
  then show ?case by simp
next
  case (Cons c cs)
  show ?case
  proof (cases "r < c")
    case True
    with Cons.prems(1) have "filter (\<lambda>c. c \<le> r) (c # cs) = []"
      by (auto simp: filter_empty_conv)
    with True show ?thesis by simp
  next
    case False
    with Cons show ?thesis by simp
  qed
qed

lemma sorted_cutoff: "sorted cutoff"
  by (simp add: cutoff_def)

lemma greyscale_cutoff:
  "greyscale r cutoff 0 = 233 + int (length (filter (\<lambda>c. c \<le> r) cutoff))"
  using greyscale_filter [OF sorted_cutoff, of 0 r] by (simp add: cutoff_def)

lemma color2index_nested:
  fixes r g b :: int and N :: int and L :: "int \<Rightarrow> int"
  shows "(if r = 0 then
        (if g = 0 then
           (if b = 0 then L 0
            else if b = 224 then L 1
            else N)
         else if g = 224 then
           (if b = 0 then L 2
            else if b = 224 then L 3
            else N)
         else N)
      else if r = 224 then
        (if g = 0 then
           (if b = 0 then L 4
            else if b = 224 then L 5
            else N)
         else if g = 224 then
           (if b = 0 then L 6
            else if b = 224 then L 8
            else N)
         else N)
      else if r = 128 then
        (if g = 128 \<and> b = 128 then L 12 else N)
      else if r = 255 then
        (if g = 64 then
           (if b = 64 then L 20
            else if b = 255 then L 22
            else N)
         else if g = 255 then
           (if b = 64 then L 24
            else if b = 255 then L 26
            else N)
         else N)
      else if r = 64 then
        (if g = 64 then
           (if b = 255 then L 14 else N)
         else if g = 255 then
           (if b = 64 then L 16
            else if b = 255 then L 18
            else N)
         else N)
      else N) = (case map_of standard_colors (r, g, b) of Some i \<Rightarrow> L i | None \<Rightarrow> N)"
  by (simp add: standard_colors_def)

lemma color2index_table:
  "color2index lookup ncolors color foreground =
     (case map_of standard_colors (rgb color) of
        Some idx \<Rightarrow> lookup idx foreground + 1
      | None \<Rightarrow>
          (if ncolors \<ge> 256 then
             (if uint (red color) = uint (blue color) \<and> uint (red color) = uint (green color)
              then greyscale (uint (red color)) cutoff 0
              else 17 + ((uint (red color) + 25) div 0x33) * 36
                      + ((uint (green color) + 25) div 0x33) * 6
                      + (uint (blue color) + 25) div 0x33)
           else 0))"
  unfolding color2index_def Let_def rgb_def
  by (rule color2index_nested [where L = "\<lambda>i. lookup i foreground + 1"])

lemma color2index_standard_match:
  assumes "(rgb color, idx) \<in> set standard_colors"
  shows "color2index lookup ncolors color foreground = lookup idx foreground + 1"
proof -
  have d: "distinct (map fst standard_colors)"
    by (simp add: standard_colors_def)
  have "map_of standard_colors (rgb color) = Some idx"
    by (rule map_of_is_SomeI [OF d assms])
  then show ?thesis by (simp add: color2index_table)
qed

text \<open>
  C5, as the code has it.  A colour that matches none of the standard palette entries
  maps, on a host with at least 256 colours, to \<open>233 + k\<close> when \<open>R = G = B\<close>, where \<open>k\<close> is
  the number of the 23 fixed breakpoints that are at most \<open>R\<close> (24 values, 233 to 256), and
  otherwise to \<open>17 + 36\<cdot>round(R/51) + 6\<cdot>round(G/51) + round(B/51)\<close>; on a host with fewer colours
  it maps to 0.  The results are one more than the palette index ("First color is 1"), so
  the colour cube starts at 17, not at 16.
\<close>

theorem color2index_no_standard_match:
  assumes "rgb color = (r, g, b)" and "(r, g, b) \<notin> fst ` set standard_colors"
  shows "color2index lookup ncolors color foreground =
     (if 256 \<le> ncolors then
        (if r = g \<and> g = b
         then 233 + int (length (filter (\<lambda>c. c \<le> r) cutoff))
         else 17 + 36 * round (real_of_int r / 51) + 6 * round (real_of_int g / 51)
                 + round (real_of_int b / 51))
      else 0)"
proof -
  from assms have none: "map_of standard_colors (rgb color) = None"
    by (simp add: map_of_eq_None_iff)
  from assms(1) have rgb: "uint (red color) = r" "uint (green color) = g" "uint (blue color) = b"
    by (simp_all add: rgb_def)
  then have "0 \<le> r" "0 \<le> g" "0 \<le> b" by auto
  then have rnd: "round (real_of_int r / 51) = (r + 25) div 51"
      "round (real_of_int g / 51) = (g + 25) div 51"
      "round (real_of_int b / 51) = (b + 25) div 51"
    by (simp_all only: round_div_51)
  show ?thesis
    unfolding color2index_table none rgb rnd
    by (auto simp: greyscale_cutoff)
qed

theorem color2index_no_standard_match_witness:
  "rgb \<lparr>red = 1, green = 2, blue = 3\<rparr> = (1, 2, 3) \<and>
   (1, 2, 3) \<notin> fst ` set standard_colors \<and>
   color2index id_lookup_color 256 \<lparr>red = 1, green = 2, blue = 3\<rparr> True = 17"
proof -
  have h1: "rgb \<lparr>red = 1, green = 2, blue = 3\<rparr> = (1, 2, 3)"
    by (simp add: rgb_def)
  have h2: "(1, 2, 3) \<notin> fst ` set standard_colors"
    by (simp add: standard_colors_def)
  show ?thesis
    using h1 h2 color2index_no_standard_match [OF h1 h2, of id_lookup_color 256 True]
      round_div_51 [of 1] round_div_51 [of 2] round_div_51 [of 3]
    by simp
qed

theorem color2index_cube_counterexample:
  "rgb \<lparr>red = 1, green = 2, blue = 3\<rparr> = (1, 2, 3) \<and>
   (1, 2, 3) \<notin> fst ` set standard_colors \<and>
   color2index id_lookup_color 256 \<lparr>red = 1, green = 2, blue = 3\<rparr> True
     \<noteq> 16 + 36 * round (real_of_int 1 / 51) + 6 * round (real_of_int 2 / 51)
           + round (real_of_int 3 / 51)"
  using round_div_51 [of 1] round_div_51 [of 2] round_div_51 [of 3]
  by (simp add: rgb_def standard_colors_def color2index_def)


section \<open>Properties of the size negotiation\<close>

lemma Min_insert_insert:
  "finite S \<Longrightarrow> Min (insert (min a b) S) = Min (insert (a::int) (insert b S))"
  by (simp add: Min_insert_min)

lemma windows_showing_Cons:
  "windows_showing tm (w # wins) =
     (if w_buffer w = b_fnum (tl_buffer tm) then insert w (windows_showing tm wins)
      else windows_showing tm wins)"
  by (auto simp: windows_showing_def)

lemma finite_windows_showing: "finite (windows_showing tm wins)"
  by (simp add: windows_showing_def)

lemma smallest_size_Min:
  "smallest_size tm wins (r, c) =
     (if tl_rows_fixed tm then r
      else Min (insert r (w_height ` windows_showing tm wins)),
      if tl_cols_fixed tm then c
      else Min (insert c (w_width ` windows_showing tm wins)))"
proof (induction wins arbitrary: r c)
  case Nil
  then show ?case by (simp add: windows_showing_def)
next
  case (Cons twp wins)
  let ?S = "windows_showing tm wins"
  have fin: "finite (w_height ` ?S)" "finite (w_width ` ?S)"
    by (simp_all add: finite_windows_showing)
  have h: "Min (insert (min r (w_height twp)) (w_height ` ?S))
         = Min (insert r (insert (w_height twp) (w_height ` ?S)))"
    by (rule Min_insert_insert [OF fin(1)])
  have w: "Min (insert (min c (w_width twp)) (w_width ` ?S))
         = Min (insert c (insert (w_width twp) (w_width ` ?S)))"
    by (rule Min_insert_insert [OF fin(2)])
  have m1: "(if r > w_height twp then w_height twp else r) = min r (w_height twp)"
    and m2: "(if c > w_width twp then w_width twp else c) = min c (w_width twp)"
    by auto
  show ?case
    by (simp add: Cons.IH windows_showing_Cons h w m1 m2 del: Min_insert)
qed

text \<open>
  C4, as the code has it.  When \<^verbatim>\<open>term_update_window\<close> finds that an unpinned dimension of
  the terminal differs from the window it updates, the size it gives to the emulator is,
  for each unpinned dimension, the minimum of that dimension over all windows showing the
  terminal's buffer, and for each pinned dimension the terminal's own value.  No lower
  bound is applied: the result is below 1 when a window showing the terminal is.  With two
  windows of heights 24 and 30 and nothing pinned the rows become 24.
\<close>

theorem term_update_window_smallest:
  assumes "tl_vterm tm = Some vt" and "\<not> tl_terminal_mode tm"
    and "wp \<in> windows_showing tm wins"
    and "(\<not> tl_rows_fixed tm \<and> tl_rows tm \<noteq> w_height wp)
         \<or> (\<not> tl_cols_fixed tm \<and> tl_cols tm \<noteq> w_width wp)"
  shows "term_update_window wp wins (Some tm) =
     Some (tm\<lparr>tl_vterm := Some (vterm_set_size
        (if tl_rows_fixed tm then tl_rows tm else Min (w_height ` windows_showing tm wins))
        (if tl_cols_fixed tm then tl_cols tm else Min (w_width ` windows_showing tm wins))
        vt)\<rparr>)"
proof -
  let ?S = "windows_showing tm wins"
  from assms(3) have "insert (w_height wp) (w_height ` ?S) = w_height ` ?S"
    and "insert (w_width wp) (w_width ` ?S) = w_width ` ?S"
    by auto
  then show ?thesis
    using assms(1,2,4)
    by (simp add: term_update_window_def term_update_window_size_def smallest_size_Min
        del: Min_insert)
qed

theorem term_update_window_smallest_witness:
  "tl_vterm (example_term [] 30 80) = Some (example_vterm [])
   \<and> \<not> tl_terminal_mode (example_term [] 30 80)
   \<and> example_win 24 80 \<in> windows_showing (example_term [] 30 80)
        [example_win 24 80, example_win 30 80]
   \<and> \<not> tl_rows_fixed (example_term [] 30 80)
   \<and> tl_rows (example_term [] 30 80) \<noteq> w_height (example_win 24 80)
   \<and> term_update_window (example_win 24 80) [example_win 24 80, example_win 30 80]
        (Some (example_term [] 30 80))
      = Some ((example_term [] 30 80)
          \<lparr>tl_vterm := Some (vterm_set_size 24 80 (example_vterm []))\<rparr>)"
proof -
  have h1: "tl_vterm (example_term [] 30 80) = Some (example_vterm [])"
    and h2: "\<not> tl_terminal_mode (example_term [] 30 80)"
    and h3: "example_win 24 80 \<in> windows_showing (example_term [] 30 80)
        [example_win 24 80, example_win 30 80]"
    and h4: "(\<not> tl_rows_fixed (example_term [] 30 80)
          \<and> tl_rows (example_term [] 30 80) \<noteq> w_height (example_win 24 80))
        \<or> (\<not> tl_cols_fixed (example_term [] 30 80)
          \<and> tl_cols (example_term [] 30 80) \<noteq> w_width (example_win 24 80))"
    by (simp_all add: example_term_def ex_terminal_new_def alloc_clear_term_def
        windows_showing_def example_win_def example_buf_def)
  have S: "windows_showing (example_term [] 30 80) [example_win 24 80, example_win 30 80]
      = {example_win 24 80, example_win 30 80}"
    by (auto simp: windows_showing_def example_term_def ex_terminal_new_def
        alloc_clear_term_def example_win_def example_buf_def)
  have fixed: "\<not> tl_rows_fixed (example_term [] 30 80)" "\<not> tl_cols_fixed (example_term [] 30 80)"
    "tl_rows (example_term [] 30 80) \<noteq> w_height (example_win 24 80)"
    by (simp_all add: example_term_def ex_terminal_new_def alloc_clear_term_def example_win_def)
  have mins: "Min (w_height ` windows_showing (example_term [] 30 80)
        [example_win 24 80, example_win 30 80]) = 24"
    "Min (w_width ` windows_showing (example_term [] 30 80)
        [example_win 24 80, example_win 30 80]) = 80"
    unfolding S by (simp_all add: example_win_def)
  show ?thesis
    using term_update_window_smallest [OF h1 h2 h3 h4] h1 h2 h3 fixed
    unfolding mins by simp
qed

theorem term_update_window_zero_counterexample:
  "example_win 24 80 \<in> windows_showing (example_term [] 30 80)
        [example_win 24 80, example_win 0 80]
   \<and> term_update_window_size (example_win 24 80) [example_win 24 80, example_win 0 80]
        (example_term [] 30 80) = Some (0, 80)
   \<and> \<not> (1::int) \<le> 0"
  by (simp add: term_update_window_size_def example_term_def ex_terminal_new_def
      alloc_clear_term_def windows_showing_def example_win_def example_buf_def)

section \<open>Properties of the attribute lookup\<close>

text \<open>
  The lookup on a scrollback whose lines have their cells.  For a line number \<open>lnum \<ge> 1\<close> and
  a column \<open>\<ge> 0\<close>, \<^verbatim>\<open>term_get_attr\<close> returns 0 when \<open>lnum\<close> exceeds the length of the
  scrollback or the column is at or beyond the width stored for that line, and otherwise
  the attribute that \<^verbatim>\<open>cell2attr\<close> derives from the stored cell.
\<close>

lemma term_get_attr_well_formed:
  assumes "1 \<le> lnum" and "0 \<le> column" and "scrollback_ok tm"
  shows "term_get_attr host tm lnum column =
     Inr (if lnum > int (length (tl_scrollback tm))
             \<or> column \<ge> sb_cols (tl_scrollback tm ! nat (lnum - 1)) then 0
          else cell2attr host (the (sb_cells (tl_scrollback tm ! nat (lnum - 1))) ! nat column))"
proof (cases "lnum > int (length (tl_scrollback tm))")
  case True
  then show ?thesis by (simp add: term_get_attr_def)
next
  case False
  with assms(1) have "nat (lnum - 1) < length (tl_scrollback tm)" by linarith
  with assms(3) have "sb_line_ok (tl_scrollback tm ! nat (lnum - 1))"
    by (simp add: scrollback_ok_def list_all_length)
  with False assms(1,2) show ?thesis
    by (auto simp: term_get_attr_def Let_def sb_line_ok_def split: option.splits)
qed

lemma term_get_attr_well_formed_example:
  "(1::int) \<le> 1 \<and> (0::int) \<le> 0
   \<and> scrollback_ok ((example_term [] 24 80)
        \<lparr>tl_vterm := None,
         tl_scrollback := [\<lparr>sb_cols = 1, sb_cells = Some [char_cell 97]\<rparr>]\<rparr>)
   \<and> term_get_attr example_host
        ((example_term [] 24 80)
           \<lparr>tl_vterm := None,
            tl_scrollback := [\<lparr>sb_cols = 1, sb_cells = Some [char_cell 97]\<rparr>]\<rparr>) 1 0
      = Inr (cell2attr example_host (char_cell 97))
   \<and> term_get_attr example_host
        ((example_term [] 24 80)
           \<lparr>tl_vterm := None,
            tl_scrollback := [\<lparr>sb_cols = 1, sb_cells = Some [char_cell 97]\<rparr>]\<rparr>) 1 1
      = Inr 0"
proof -
  let ?tm = "(example_term [] 24 80)
        \<lparr>tl_vterm := None,
         tl_scrollback := [\<lparr>sb_cols = 1, sb_cells = Some [char_cell 97]\<rparr>]\<rparr>"
  have ok: "scrollback_ok ?tm"
    by (simp add: scrollback_ok_def sb_line_ok_def)
  have one: "(1::int) \<le> 1" and zero: "(0::int) \<le> 0" and zero1: "(0::int) \<le> 1" by simp_all
  show ?thesis
    using ok term_get_attr_well_formed [OF one zero ok, of example_host]
      term_get_attr_well_formed [OF one zero1 ok, of example_host]
    by simp
qed


section \<open>Properties of writing job output\<close>

lemma utf8len_tab_pos: "1 \<le> utf8len_tab b"
  by (simp add: utf8len_tab_def)

lemma utf_ptr2len_len_pos: "1 \<le> utf_ptr2len_len bytes"
  using utf8len_tab_pos [of "hd bytes"] by (simp add: utf_ptr2len_len_def Let_def)

lemma continuation_not_NL: "(b :: 8 word) AND 0xC0 = 0x80 \<Longrightarrow> b \<noteq> NL"
  by (auto simp: NL_def)

lemma utf_ptr2len_len_no_NL:
  assumes ne: "bytes \<noteq> []" and hd: "hd bytes \<noteq> NL"
    and le: "utf_ptr2len_len bytes \<le> length bytes"
  shows "NL \<notin> set (take (utf_ptr2len_len bytes) bytes)"
proof (cases "utf_ptr2len_len bytes = 1")
  case True
  with ne hd show ?thesis by (cases bytes) simp_all
next
  case False
  let ?len = "utf8len_tab (hd bytes)"
  from False have k: "utf_ptr2len_len bytes = ?len"
    by (simp add: utf_ptr2len_len_def Let_def split: if_splits)
  with le have m: "\<not> ?len > length bytes" by simp
  from False have cont: "\<not> list_ex (\<lambda>i. (bytes ! i) AND 0xC0 \<noteq> 0x80) [1..<?len]"
    using m by (simp add: utf_ptr2len_len_def Let_def split: if_splits)
  show ?thesis
  proof
    assume "NL \<in> set (take (utf_ptr2len_len bytes) bytes)"
    then obtain i where i: "i < ?len" "i < length bytes" "bytes ! i = NL"
      unfolding k by (auto simp: in_set_conv_nth)
    show False
    proof (cases i)
      case 0
      with i ne hd show False by (simp add: hd_conv_nth)
    next
      case (Suc j)
      with i(1) cont have "(bytes ! i) AND 0xC0 = 0x80"
        by (auto simp: list_ex_iff)
      then have "bytes ! i \<noteq> NL" by (rule continuation_not_NL)
      with i(3) show False by simp
    qed
  qed
qed

lemma no_cut_characterD:
  assumes "no_cut_character h msg" and "p < length msg" and "msg ! p \<noteq> NL"
  shows "p + h (drop p msg) \<le> length msg"
  using assms by (auto simp: no_cut_character_def list_all_iff)

lemma scan_to_NL_takeWhile:
  assumes ok: "no_cut_character utf_ptr2len_len msg"
  shows "p \<le> length msg \<Longrightarrow>
     scan_to_NL utf_ptr2len_len msg p = Some (p + length (takeWhile (\<lambda>b. b \<noteq> NL) (drop p msg)))"
proof (induction "length msg - p" arbitrary: p rule: less_induct)
  case less
  show ?case
  proof (cases "p < length msg")
    case False
    with less.prems show ?thesis
      by (subst scan_to_NL.simps) simp
  next
    case True
    then have ne: "drop p msg \<noteq> []" by simp
    from True have hd: "hd (drop p msg) = msg ! p" by (simp add: hd_drop_conv_nth)
    show ?thesis
    proof (cases "msg ! p = NL")
      case nl: True
      from ne hd nl have "takeWhile (\<lambda>b. b \<noteq> NL) (drop p msg) = []"
        by (cases "drop p msg") auto
      with True nl show ?thesis
        by (subst scan_to_NL.simps) simp
    next
      case nonl: False
      let ?k = "utf_ptr2len_len (drop p msg)"
      from no_cut_characterD [OF ok True nonl] True
      have k2: "?k \<le> length (drop p msg)" by simp
      from hd nonl have "hd (drop p msg) \<noteq> NL" by simp
      from utf_ptr2len_len_pos [of "drop p msg"] k2 utf_ptr2len_len_no_NL [OF ne this k2]
      have k: "1 \<le> ?k" "?k \<le> length (drop p msg)"
        "NL \<notin> set (take ?k (drop p msg))"
        by simp_all
      from k(2) True have le: "p + ?k \<le> length msg" by simp
      from k(1) True have "length msg - (p + ?k) < length msg - p" by linarith
      from less.hyps [OF this le]
      have IH: "scan_to_NL utf_ptr2len_len msg (p + ?k) =
          Some (p + ?k + length (takeWhile (\<lambda>b. b \<noteq> NL) (drop (p + ?k) msg)))" .
      define xs ys where "xs = take ?k (drop p msg)" and "ys = drop (p + ?k) msg"
      have "drop ?k (drop p msg) = ys"
        by (simp add: ys_def add.commute)
      then have split: "drop p msg = xs @ ys"
        unfolding xs_def by (metis append_take_drop_id)
      have lenxs: "length xs = ?k"
        unfolding xs_def using k(2) by simp
      have "takeWhile (\<lambda>b. b \<noteq> NL) (xs @ ys) = xs @ takeWhile (\<lambda>b. b \<noteq> NL) ys"
        by (rule takeWhile_append2) (use k(3) in \<open>auto simp: xs_def\<close>)
      then have "length (takeWhile (\<lambda>b. b \<noteq> NL) (drop p msg)) =
          ?k + length (takeWhile (\<lambda>b. b \<noteq> NL) (drop (p + ?k) msg))"
        unfolding split [symmetric] ys_def [symmetric] using lenxs by simp
      with True nonl IH show ?thesis
        by (subst scan_to_NL.simps) simp
    qed
  qed
qed

lemma split_calls_Nil [simp]: "split_calls [] = []"
  by (subst split_calls.simps) simp

lemma write_lines_split_calls:
  assumes ok: "no_cut_character utf_ptr2len_len msg"
  shows "done \<le> length msg \<Longrightarrow>
     write_lines utf_ptr2len_len msg done vt =
       Some (Inr (vt\<lparr>vt_calls := vt_calls vt @ split_calls (drop done msg)\<rparr>))"
proof (induction "length msg - done" arbitrary: "done" vt rule: less_induct)
  case less
  show ?case
  proof (cases "done < length msg")
    case False
    with less.prems show ?thesis
      by (subst write_lines.simps) simp
  next
    case True
    let ?rest = "drop done msg"
    let ?seg = "takeWhile (\<lambda>b. b \<noteq> NL) ?rest"
    let ?p = "done + length ?seg"
    have scan: "scan_to_NL utf_ptr2len_len msg done = Some ?p"
      by (rule scan_to_NL_takeWhile [OF ok less.prems])
    have seg_le: "length ?seg \<le> length ?rest" by (rule length_takeWhile_le)
    with less.prems have p_le: "?p \<le> length msg" by simp
    have seg_take: "take (length ?seg) ?rest = ?seg"
      by (metis takeWhile_eq_take)
    from True have ne: "?rest \<noteq> []" by simp
    show ?thesis
    proof (cases "dropWhile (\<lambda>b. b \<noteq> NL) ?rest")
      case Nil
      then have all: "?seg = ?rest"
        by (metis append_Nil2 takeWhile_dropWhile_id)
      have "length ?seg = length ?rest" using all by (rule arg_cong)
      moreover have "length ?rest = length msg - done" by (rule length_drop)
      ultimately have p: "?p = length msg" using less.prems by linarith
      have sc: "split_calls ?rest = [InputWrite ?rest]"
        by (subst split_calls.simps) (simp only: ne Nil if_False list.case)
      have fin: "write_lines utf_ptr2len_len msg (length msg) (vterm_input_write ?rest vt) =
          Some (Inr (vterm_input_write ?rest vt))"
        by (subst write_lines.simps) simp
      show ?thesis
        apply (subst write_lines.simps)
        using True scan p all fin sc less.prems
        apply (simp add: Let_def vterm_input_write_def)
        done
    next
      case (Cons nl rest')
      then have nl: "nl = NL"
        by (metis (mono_tags, lifting) hd_dropWhile list.sel(1) list.distinct(1))
      have decomp: "?rest = ?seg @ NL # rest'"
        using Cons nl by (metis takeWhile_dropWhile_id)
      then have p_lt: "?p < length msg"
        using less.prems
        by (metis (no_types, lifting) True add_diff_cancel_left' le_add_diff_inverse
            length_append length_drop less_add_same_cancel1 list.size(4) nat_add_left_cancel_less
            zero_less_Suc add_Suc_right less_le_not_le nat_less_le not_less_eq_eq)
      have at_p: "msg ! ?p = NL"
      proof -
        have "msg ! ?p = ?rest ! length ?seg"
          using p_le less.prems by (simp add: add.commute)
        also have "\<dots> = NL" by (subst decomp) simp
        finally show ?thesis .
      qed
      have rest': "drop (Suc ?p) msg = rest'"
      proof -
        have "drop (Suc ?p) msg = drop (Suc (length ?seg)) ?rest"
          by (simp add: add.commute)
        also have "\<dots> = rest'" by (subst decomp) simp
        finally show ?thesis .
      qed
      have sc: "split_calls ?rest = InputWrite ?seg # InputWrite [CAR, NL] # split_calls rest'"
        by (subst split_calls.simps) (simp only: ne Cons nl if_False list.case)
      have "length msg - (?p + 1) < length msg - done" using p_lt by linarith
      from less.hyps [OF this, of "vterm_input_write [CAR, NL] (vterm_input_write ?seg vt)"] p_lt
      have IH: "write_lines utf_ptr2len_len msg (?p + 1) (vterm_input_write [CAR, NL] (vterm_input_write ?seg vt))
          = Some (Inr ((vterm_input_write [CAR, NL] (vterm_input_write ?seg vt))
               \<lparr>vt_calls := vt_calls (vterm_input_write [CAR, NL] (vterm_input_write ?seg vt))
                    @ split_calls rest'\<rparr>))"
        by (simp add: rest')
      show ?thesis
        apply (subst write_lines.simps)
        using True scan p_lt at_p IH sc seg_take
        apply (simp add: Let_def vterm_input_write_def)
        done
    qed
  qed
qed

lemma input_bytes_split_calls: "input_bytes (split_calls msg) = nl_to_crnl msg"
proof (induction msg rule: split_calls.induct)
  case (1 msg)
  show ?case
  proof (cases "msg = []")
    case True
    then show ?thesis by (simp add: nl_to_crnl_def)
  next
    case False
    show ?thesis
    proof (cases "dropWhile (\<lambda>b. b \<noteq> NL) msg")
      case Nil
      then have "\<forall>b\<in>set msg. b \<noteq> NL" by simp
      then have "nl_to_crnl msg = msg"
        unfolding nl_to_crnl_def by (induction msg) auto
      moreover have "split_calls msg = [InputWrite msg]"
        by (subst split_calls.simps) (simp only: False Nil if_False list.case)
      ultimately show ?thesis by simp
    next
      case (Cons nl rest)
      then have nl: "nl = NL"
        by (metis (mono_tags, lifting) hd_dropWhile list.sel(1) list.distinct(1))
      have decomp: "msg = takeWhile (\<lambda>b. b \<noteq> NL) msg @ NL # rest"
        using Cons nl by (metis takeWhile_dropWhile_id)
      have seg: "nl_to_crnl (takeWhile (\<lambda>b. b \<noteq> NL) msg) = takeWhile (\<lambda>b. b \<noteq> NL) msg"
        unfolding nl_to_crnl_def by (induction msg) auto
      have "nl_to_crnl msg = nl_to_crnl (takeWhile (\<lambda>b. b \<noteq> NL) msg) @ [CAR, NL] @ nl_to_crnl rest"
        by (subst decomp) (simp add: nl_to_crnl_def)
      moreover have "split_calls msg =
          InputWrite (takeWhile (\<lambda>b. b \<noteq> NL) msg) # InputWrite [CAR, NL] # split_calls rest"
        by (subst split_calls.simps) (simp only: False Cons if_False list.case)
      moreover have "input_bytes (split_calls rest) = nl_to_crnl rest"
        by (rule 1 [OF False Cons])
      ultimately show ?thesis using seg by simp
    qed
  qed
qed

text \<open>
  For a message in which no character is cut short by the end of the message,
  \<^verbatim>\<open>term_write_job_output\<close> returns.  The calls it makes to the emulator are those of the
  message split at its line feeds, every piece written unchanged and every line feed
  written as carriage return, line feed, followed by one call of
  \<^verbatim>\<open>vterm_screen_flush_damage\<close>, which is the last call before it returns.  The bytes written
  are the bytes of the message in their order with every line feed replaced by carriage
  return, line feed; a carriage return in the message is passed on as it is.
\<close>

lemma term_write_job_output_crnl:
  assumes "no_cut_character utf_ptr2len_len msg"
  shows "term_write_job_output utf_ptr2len_len msg vt =
       Some (Inr (vt\<lparr>vt_calls := vt_calls vt @ split_calls msg @ [ScreenFlushDamage]\<rparr>))
     \<and> input_bytes (split_calls msg) = nl_to_crnl msg"
  using write_lines_split_calls [OF assms, of 0 vt]
  by (simp add: term_write_job_output_def vterm_screen_flush_damage_def input_bytes_split_calls)

text \<open>A message of bytes below \<open>0x80\<close> has no character that could be cut short.\<close>

lemma no_cut_character_ascii:
  assumes "\<forall>b\<in>set msg. b < 0x80"
  shows "no_cut_character utf_ptr2len_len msg"
proof -
  have "p + utf_ptr2len_len (drop p msg) \<le> length msg" if p: "p < length msg" for p
  proof -
    from p assms have "msg ! p < 0x80" by simp
    then have "msg ! p < 0xC0" by (rule less_trans) simp
    moreover from p have "hd (drop p msg) = msg ! p" by (simp add: hd_drop_conv_nth)
    ultimately have "utf_ptr2len_len (drop p msg) = 1"
      by (simp add: utf_ptr2len_len_def utf8len_tab_def Let_def)
    with p show ?thesis by simp
  qed
  then show ?thesis by (simp add: no_cut_character_def list_all_iff)
qed

lemma term_write_job_output_crnl_example:
  "term_write_job_output utf_ptr2len_len [0x61, NL, CAR, 0xC3, 0xA9] (example_vterm []) =
       Some (Inr ((example_vterm [])
         \<lparr>vt_calls := [InputWrite [0x61], InputWrite [CAR, NL], InputWrite [CAR, 0xC3, 0xA9],
                       ScreenFlushDamage]\<rparr>))
   \<and> nl_to_crnl [0x61, NL, CAR, 0xC3, 0xA9] = [0x61, CAR, NL, CAR, 0xC3, 0xA9]"
proof -
  have "no_cut_character utf_ptr2len_len [0x61, NL, CAR, 0xC3, 0xA9]"
    by (simp add: no_cut_character_def utf_ptr2len_len_def utf8len_tab_def NL_def CAR_def
        upt_rec [of _ "numeral _"] upt_rec [of _ "Suc _"] Let_def)
  from term_write_job_output_crnl [OF this, of "example_vterm []"]
  show ?thesis
    by (simp add: split_calls.simps example_vterm_def nl_to_crnl_def NL_def CAR_def)
qed

text \<open>
  C6 fails for a message that ends inside a multi-byte character.  For the two bytes
  \<open>0x61 0xE2\<close>, the second being the first byte of a sequence of three, \<^verbatim>\<open>utf_ptr2len_len\<close>
  returns 3 for the one byte that is left, the scan for a line feed stops at offset 4, and
  \<^verbatim>\<open>vterm_input_write\<close> is called with a length of 4 for the message of 2 bytes: it reads
  the bytes behind the message and hands them to the emulator.  For a message in which no
  character is cut short the function does what C6 says, see \<open>term_write_job_output_crnl\<close>.
\<close>

theorem term_write_job_output_cut_character:
  "utf_ptr2len_len [0xE2] = 3
   \<and> scan_to_NL utf_ptr2len_len [0x61, 0xE2] 0 = Some 4
   \<and> term_write_job_output utf_ptr2len_len [0x61, 0xE2] (example_vterm [])
       = Some (Inl OutOfBounds)
   \<and> write_to_term utf_ptr2len_len (example_term [] 24 80) [0x61, 0xE2]
       = Some (Inl OutOfBounds)"
proof -
  have l1: "utf_ptr2len_len [0xE2] = 3"
    by (simp add: utf_ptr2len_len_def utf8len_tab_def Let_def)
  have l0: "utf_ptr2len_len [0x61, 0xE2] = 1"
    by (simp add: utf_ptr2len_len_def utf8len_tab_def Let_def)
  have scan: "scan_to_NL utf_ptr2len_len [0x61, 0xE2] 0 = Some 4"
    apply (subst scan_to_NL.simps, simp add: NL_def l0)
    apply (subst scan_to_NL.simps, simp add: NL_def l1)
    apply (subst scan_to_NL.simps, simp)
    done
  have w: "write_lines utf_ptr2len_len [0x61, 0xE2] 0 (example_vterm []) = Some (Inl OutOfBounds)"
    by (subst write_lines.simps) (simp add: scan)
  from l1 scan w show ?thesis
    by (simp add: term_write_job_output_def write_to_term_def example_term_def)
qed

section \<open>Properties of the scrollback: auxiliary facts\<close>


lemma alloc_Nil [simp]: "alloc [] = (True, [])"
  by (simp add: alloc_def)

lemma ga_grow_Nil [simp]: "ga_grow [] = (True, [])"
  by (simp add: ga_grow_def)

lemma cell_text_stops:
  assumes "i \<le> j" and "j < VTERM_MAX_CHARS_PER_CELL" and "0 < j" and "sint (chars_at cell j) \<le> 0"
  shows "\<exists>cs. cell_text cell i = Inr cs"
  using assms
proof (induction "j - i" arbitrary: i)
  case 0
  then have "i = j" by simp
  with 0 show ?case by (subst cell_text.simps) simp
next
  case (Suc n)
  then have "n = j - (i + 1)" and "i + 1 \<le> j" by simp_all
  from Suc.hyps(1) [OF this Suc.prems(2,3,4)]
  obtain cs where cs: "cell_text cell (i + 1) = Inr cs" by blast
  from Suc.prems Suc.hyps(2) have "i < VTERM_MAX_CHARS_PER_CELL" by simp
  with cs show ?case
    by (subst cell_text.simps) (simp add: Let_def)
qed

lemma cell_text_ok:
  assumes "cell_ok cell"
  shows "\<exists>cs. cell_text cell 0 = Inr cs"
proof -
  from assms obtain j where "j \<in> set [1..<VTERM_MAX_CHARS_PER_CELL]" "sint (chars_at cell j) \<le> 0"
    unfolding cell_ok_def list_ex_iff by blast
  then have "0 \<le> j" "j < VTERM_MAX_CHARS_PER_CELL" "0 < j" by simp_all
  with \<open>sint (chars_at cell j) \<le> 0\<close> show ?thesis
    using cell_text_stops [of 0 j cell] by simp
qed

lemma sb_line_text_ok:
  assumes "line_cells_ok line" and "0 \<le> column"
  shows "\<exists>ga'. sb_line_text line column ga [] = Some (Inr (Some ga', []))"
  using assms(2)
proof (induction "nat (sb_cols line - column)" arbitrary: column ga rule: less_induct)
  case less
  show ?case
  proof (cases "column < sb_cols line")
    case False
    then show ?thesis by (subst sb_line_text.simps) simp
  next
    case True
    with less.prems assms(1) obtain cells where cells: "sb_cells line = Some cells"
      "sb_cols line \<le> int (length cells)" "list_all cell_ok cells"
      unfolding line_cells_ok_def by (auto split: option.splits)
    from True cells(2) less.prems have inr: "nat column < length cells" by linarith
    with cells(3) have ok: "cell_ok (cells ! nat column)"
      by (simp add: list_all_length)
    then obtain cs where cs: "cell_text (cells ! nat column) 0 = Inr cs"
      using cell_text_ok by blast
    from ok have w: "1 \<le> width (cells ! nat column)" by (simp add: cell_ok_def)
    with True have "nat (sb_cols line - (column + width (cells ! nat column)))
        < nat (sb_cols line - column)" by linarith
    moreover from w less.prems have "0 \<le> column + width (cells ! nat column)" by linarith
    ultimately obtain ga' where
      "sb_line_text line (column + width (cells ! nat column)) (ga @ cs) [] = Some (Inr (Some ga', []))"
      using less.hyps by blast
    with True cells(1) cs inr less.prems show ?thesis
      by (subst sb_line_text.simps) (auto simp: Let_def)
  qed
qed

text \<open>The number of lines of the buffer after a scrollback line was added to it.\<close>

lemma ml_line_count_pos: "b_ml buf \<noteq> [] \<Longrightarrow> 1 \<le> ml_line_count buf"
  by (cases "b_ml buf") (simp_all add: ml_line_count_def)

lemma ml_append_buf_count:
  "0 \<le> lnum \<Longrightarrow> lnum \<le> ml_line_count buf \<Longrightarrow>
     ml_line_count (ml_append_buf buf lnum line) = ml_line_count buf + 1"
  by (simp add: ml_append_buf_def ml_line_count_def)

lemma ml_delete_count:
  "1 \<le> lnum \<Longrightarrow> lnum \<le> ml_line_count buf \<Longrightarrow>
     ml_line_count (ml_delete buf lnum) = max 1 (ml_line_count buf - 1)"
  by (auto simp: ml_delete_def ml_line_count_def)

lemma add_scrollback_line_to_buffer_ok:
  assumes "tl_scrollback tm \<noteq> []" and "line_cells_ok (last (tl_scrollback tm))"
  shows "\<exists>buf'. add_scrollback_line_to_buffer (tm, []) = Some (Inr (tm\<lparr>tl_buffer := buf'\<rparr>, []))
      \<and> (ml_line_count (tl_buffer tm) = max 1 (int (length (tl_scrollback tm)) - 1)
           \<longrightarrow> ml_line_count buf' = max 1 (int (length (tl_scrollback tm))))"
proof -
  obtain ga where ga: "sb_line_text (last (tl_scrollback tm)) 0 [] [] = Some (Inr (Some ga, []))"
    using sb_line_text_ok [OF assms(2), of 0 "[]"] by auto
  let ?lnum = "int (length (tl_scrollback tm)) - 1"
  let ?buf1 = "ml_append_buf (tl_buffer tm) ?lnum ga"
  let ?buf2 = "if ?lnum = 0 then ml_delete ?buf1 2 else ?buf1"
  have res: "add_scrollback_line_to_buffer (tm, []) = Some (Inr (tm\<lparr>tl_buffer := ?buf2\<rparr>, []))"
    using assms(1) ga by (simp add: add_scrollback_line_to_buffer_def Let_def)
  have cnt: "ml_line_count ?buf2 = max 1 (int (length (tl_scrollback tm)))"
    if inv: "ml_line_count (tl_buffer tm) = max 1 (int (length (tl_scrollback tm)) - 1)"
  proof (cases "?lnum = 0")
    case True
    with inv have c: "ml_line_count (tl_buffer tm) = 1" by simp
    then have "ml_line_count ?buf1 = 2"
      using True ml_append_buf_count [of ?lnum "tl_buffer tm" ga] by simp
    then have "ml_line_count (ml_delete ?buf1 2) = 1"
      using ml_delete_count [of 2 ?buf1] by simp
    with True show ?thesis by simp
  next
    case False
    moreover from assms(1) have "0 < length (tl_scrollback tm)" by simp
    ultimately have l: "1 \<le> ?lnum" by linarith
    with inv have c: "ml_line_count (tl_buffer tm) = ?lnum" by simp
    have "ml_line_count ?buf1 = ml_line_count (tl_buffer tm) + 1"
      by (rule ml_append_buf_count) (use l c assms(1) in simp_all)
    with c False l show ?thesis by simp
  qed
  from res cnt show ?thesis by blast
qed


lemma appended_refl: "appended tm [] tm"
  by (simp add: appended_def)

lemma appended_scrollback: "appended tm xs tm' \<Longrightarrow> tl_scrollback tm' = tl_scrollback tm @ xs"
proof -
  assume "appended tm xs tm'"
  then have "tl_scrollback (tm'\<lparr>tl_buffer := tl_buffer tm\<rparr>)
      = tl_scrollback (tm\<lparr>tl_scrollback := tl_scrollback tm @ xs\<rparr>)"
    unfolding appended_def by (elim conjE) (rule arg_cong)
  then show ?thesis by simp
qed

lemma appended_trans:
  assumes "appended tm xs tm1" and "appended tm1 ys tm2"
  shows "appended tm (xs @ ys) tm2"
proof -
  from assms(1) have a: "tm1\<lparr>tl_buffer := tl_buffer tm\<rparr> = tm\<lparr>tl_scrollback := tl_scrollback tm @ xs\<rparr>"
    by (simp add: appended_def)
  from assms(2) have b: "tm2\<lparr>tl_buffer := tl_buffer tm1\<rparr> = tm1\<lparr>tl_scrollback := tl_scrollback tm1 @ ys\<rparr>"
    by (simp add: appended_def)
  have s1: "tl_scrollback tm1 = tl_scrollback tm @ xs"
    by (rule appended_scrollback [OF assms(1)])
  have "tm2\<lparr>tl_buffer := tl_buffer tm\<rparr> = (tm2\<lparr>tl_buffer := tl_buffer tm1\<rparr>)\<lparr>tl_buffer := tl_buffer tm\<rparr>"
    by simp
  also have "\<dots> = (tm1\<lparr>tl_scrollback := tl_scrollback tm1 @ ys\<rparr>)\<lparr>tl_buffer := tl_buffer tm\<rparr>"
    by (simp only: b)
  also have "\<dots> = (tm1\<lparr>tl_buffer := tl_buffer tm\<rparr>)\<lparr>tl_scrollback := tl_scrollback tm1 @ ys\<rparr>"
    by simp
  also have "\<dots> = (tm\<lparr>tl_scrollback := tl_scrollback tm @ xs\<rparr>)\<lparr>tl_scrollback := tl_scrollback tm1 @ ys\<rparr>"
    by (simp only: a)
  also have "\<dots> = tm\<lparr>tl_scrollback := tl_scrollback tm @ (xs @ ys)\<rparr>"
    by (simp add: s1)
  finally have "tm2\<lparr>tl_buffer := tl_buffer tm\<rparr> = tm\<lparr>tl_scrollback := tl_scrollback tm @ (xs @ ys)\<rparr>" .
  moreover have "buffer_follows tm \<longrightarrow> buffer_follows tm2"
    using assms by (simp add: appended_def)
  ultimately show ?thesis by (simp add: appended_def)
qed

lemma appended_other_fields:
  assumes "appended tm xs tm'"
  shows "tl_vterm tm' = tl_vterm tm" and "tl_cols tm' = tl_cols tm" and "tl_rows tm' = tl_rows tm"
    and "tl_scrollback_scrolled tm' = tl_scrollback_scrolled tm"
    and "tl_channel_closed tm' = tl_channel_closed tm"
    and "tl_terminal_mode tm' = tl_terminal_mode tm"
proof -
  from assms have a: "tm'\<lparr>tl_buffer := tl_buffer tm\<rparr> = tm\<lparr>tl_scrollback := tl_scrollback tm @ xs\<rparr>"
    by (simp add: appended_def)
  have "tl_vterm (tm'\<lparr>tl_buffer := tl_buffer tm\<rparr>) = tl_vterm (tm\<lparr>tl_scrollback := tl_scrollback tm @ xs\<rparr>)"
    by (simp only: a)
  then show "tl_vterm tm' = tl_vterm tm" by simp
  have "tl_cols (tm'\<lparr>tl_buffer := tl_buffer tm\<rparr>) = tl_cols (tm\<lparr>tl_scrollback := tl_scrollback tm @ xs\<rparr>)"
    by (simp only: a)
  then show "tl_cols tm' = tl_cols tm" by simp
  have "tl_rows (tm'\<lparr>tl_buffer := tl_buffer tm\<rparr>) = tl_rows (tm\<lparr>tl_scrollback := tl_scrollback tm @ xs\<rparr>)"
    by (simp only: a)
  then show "tl_rows tm' = tl_rows tm" by simp
  have "tl_scrollback_scrolled (tm'\<lparr>tl_buffer := tl_buffer tm\<rparr>)
      = tl_scrollback_scrolled (tm\<lparr>tl_scrollback := tl_scrollback tm @ xs\<rparr>)"
    by (simp only: a)
  then show "tl_scrollback_scrolled tm' = tl_scrollback_scrolled tm" by simp
  have "tl_channel_closed (tm'\<lparr>tl_buffer := tl_buffer tm\<rparr>)
      = tl_channel_closed (tm\<lparr>tl_scrollback := tl_scrollback tm @ xs\<rparr>)"
    by (simp only: a)
  then show "tl_channel_closed tm' = tl_channel_closed tm" by simp
  have "tl_terminal_mode (tm'\<lparr>tl_buffer := tl_buffer tm\<rparr>)
      = tl_terminal_mode (tm\<lparr>tl_scrollback := tl_scrollback tm @ xs\<rparr>)"
    by (simp only: a)
  then show "tl_terminal_mode tm' = tl_terminal_mode tm" by simp
qed

text \<open>Adding the last scrollback line to the buffer, in terms of \<open>appended\<close>.\<close>

lemma add_line_appended:
  assumes "line_cells_ok line"
  shows "\<exists>tm'. add_scrollback_line_to_buffer (tm\<lparr>tl_scrollback := tl_scrollback tm @ [line]\<rparr>, [])
            = Some (Inr (tm', []))
          \<and> appended tm [line] tm'"
proof -
  let ?tm1 = "tm\<lparr>tl_scrollback := tl_scrollback tm @ [line]\<rparr>"
  have ne: "tl_scrollback ?tm1 \<noteq> []" and ok: "line_cells_ok (last (tl_scrollback ?tm1))"
    using assms by simp_all
  from add_scrollback_line_to_buffer_ok [OF ne ok]
  obtain buf' where r: "add_scrollback_line_to_buffer (?tm1, []) = Some (Inr (?tm1\<lparr>tl_buffer := buf'\<rparr>, []))"
    and c: "ml_line_count (tl_buffer ?tm1) = max 1 (int (length (tl_scrollback ?tm1)) - 1)
           \<longrightarrow> ml_line_count buf' = max 1 (int (length (tl_scrollback ?tm1)))"
    by blast
  have "appended tm [line] (?tm1\<lparr>tl_buffer := buf'\<rparr>)"
    using c by (simp add: appended_def buffer_follows_def)
  with r show ?thesis by blast
qed

lemma pushline_len_bounds:
  "0 \<le> pushline_len cells \<and> pushline_len cells \<le> int (length cells)"
proof -
  have "0 \<le> foldl (\<lambda>len i. if chars_at (cells ! i) 0 \<noteq> 0 then int i + 1 else len) 0 [0..<n]
      \<and> foldl (\<lambda>len i. if chars_at (cells ! i) 0 \<noteq> 0 then int i + 1 else len) 0 [0..<n] \<le> int n"
    for n
    by (induction n) auto
  then show ?thesis by (simp add: pushline_len_def)
qed

lemma line_cells_ok_pushed:
  assumes "list_all cell_ok cells"
  shows "line_cells_ok (pushed_line cells)"
proof -
  have b: "0 \<le> pushline_len cells" "pushline_len cells \<le> int (length cells)"
    using pushline_len_bounds by auto
  from assms have "list_all cell_ok (take (nat (pushline_len cells)) cells)"
    by (auto simp: list_all_iff dest: in_set_takeD)
  with b show ?thesis
    by (auto simp: line_cells_ok_def pushed_line_def)
qed

lemma handle_pushline_ok:
  assumes "list_all cell_ok cells"
  shows "\<exists>tm'. handle_pushline cells (tm, []) = Some (Inr (tm', []))
      \<and> appended (tm\<lparr>tl_scrollback_scrolled := tl_scrollback_scrolled tm + 1\<rparr>)
           [pushed_line cells] tm'"
proof -
  let ?tm0 = "tm\<lparr>tl_scrollback_scrolled := tl_scrollback_scrolled tm + 1\<rparr>"
  from add_line_appended [OF line_cells_ok_pushed [OF assms], of ?tm0]
  obtain tm' where r: "add_scrollback_line_to_buffer
        (?tm0\<lparr>tl_scrollback := tl_scrollback ?tm0 @ [pushed_line cells]\<rparr>, []) = Some (Inr (tm', []))"
    and a: "appended ?tm0 [pushed_line cells] tm'" by blast
  have eq: "?tm0\<lparr>tl_scrollback := tl_scrollback ?tm0 @ [pushed_line cells]\<rparr>
      = tm\<lparr>tl_scrollback := tl_scrollback tm @ [pushed_line cells],
            tl_scrollback_scrolled := tl_scrollback_scrolled tm + 1\<rparr>"
    by simp
  have "handle_pushline cells (tm, []) = add_scrollback_line_to_buffer
        (tm\<lparr>tl_scrollback := tl_scrollback tm @ [pushed_line cells],
            tl_scrollback_scrolled := tl_scrollback_scrolled tm + 1\<rparr>, [])"
    by (simp add: handle_pushline_def Let_def pushed_line_def)
  with r a show ?thesis unfolding eq by auto
qed


lemma line_cells_ok_empty: "line_cells_ok \<lparr>sb_cols = 0, sb_cells = None\<rparr>"
  by (simp add: line_cells_ok_def)

lemma add_skipped_lines_ok:
  "\<exists>tm'. add_skipped_lines n (tm, []) = Some (Inr (tm', []))
      \<and> appended tm (replicate n \<lparr>sb_cols = 0, sb_cells = None\<rparr>) tm'"
proof (induction n arbitrary: tm)
  case 0
  show ?case by (simp add: appended_refl)
next
  case (Suc n)
  from add_line_appended [OF line_cells_ok_empty, of tm]
  obtain tm1 where r1: "add_scrollback_line_to_buffer
        (tm\<lparr>tl_scrollback := tl_scrollback tm @ [\<lparr>sb_cols = 0, sb_cells = None\<rparr>]\<rparr>, [])
        = Some (Inr (tm1, []))"
    and a1: "appended tm [\<lparr>sb_cols = 0, sb_cells = None\<rparr>] tm1" by blast
  from Suc [of tm1] obtain tm2 where r2: "add_skipped_lines n (tm1, []) = Some (Inr (tm2, []))"
    and a2: "appended tm1 (replicate n \<lparr>sb_cols = 0, sb_cells = None\<rparr>) tm2" by blast
  have "appended tm (replicate (Suc n) \<lparr>sb_cols = 0, sb_cells = None\<rparr>) tm2"
    using appended_trans [OF a1 a2] by simp
  moreover have "add_skipped_lines (Suc n) (tm, []) = Some (Inr (tm2, []))"
    using r1 r2 by simp
  ultimately show ?case by blast
qed

lemma foldl_upto_bound:
  fixes F :: "int \<Rightarrow> int \<Rightarrow> int"
  assumes F: "\<And>len c. F len c = len \<or> F len c = c + 1" and "-1 \<le> j"
  shows "0 \<le> foldl F 0 [0..j] \<and> foldl F 0 [0..j] \<le> j + 1"
  using assms(2)
proof (induction j rule: int_ge_induct)
  case base
  show ?case by simp
next
  case (step j)
  from step(1) have "[0..j + 1] = [0..j] @ [j + 1]"
    using upto_rec2 [of 0 "j + 1"] by simp
  then have e: "foldl F 0 [0..j + 1] = F (foldl F 0 [0..j]) (j + 1)"
    by (simp only: foldl_append foldl.simps)
  from F [of "foldl F 0 [0..j]" "j + 1"] step show ?case
    unfolding e by auto
qed

lemma screen_row_len_upto:
  assumes "-1 \<le> j"
  shows "0 \<le> screen_row_len vt r (j + 1) \<and> screen_row_len vt r (j + 1) \<le> j + 1"
proof -
  have "0 \<le> foldl (\<lambda>len c. case vt_screen vt r c of None \<Rightarrow> len
                     | Some cell \<Rightarrow> if chars_at cell 0 \<noteq> 0 then c + 1 else len) 0 [0..j]
      \<and> foldl (\<lambda>len c. case vt_screen vt r c of None \<Rightarrow> len
                     | Some cell \<Rightarrow> if chars_at cell 0 \<noteq> 0 then c + 1 else len) 0 [0..j] \<le> j + 1"
    by (rule foldl_upto_bound [OF _ assms]) (auto split: option.splits)
  then show ?thesis by (simp add: screen_row_len_def)
qed

lemma screen_row_len_bounds:
  "0 \<le> screen_row_len vt r cols \<and> screen_row_len vt r cols \<le> max 0 cols"
proof (cases "0 \<le> cols")
  case True
  then show ?thesis using screen_row_len_upto [of "cols - 1" vt r] by simp
next
  case False
  then show ?thesis by (simp add: screen_row_len_def)
qed

lemma length_copy_screen_row: "length (copy_screen_row vt r len) = nat len"
  by (simp add: copy_screen_row_def)

lemma screen_ok_cell:
  assumes "screen_ok vt rows cols" and "0 \<le> r" and "r < rows" and "0 \<le> c" and "c < cols"
  shows "\<exists>cell. vt_screen vt r c = Some cell \<and> cell_ok cell"
proof -
  from assms have r: "r \<in> set [0..rows - 1]" and c: "c \<in> set [0..cols - 1]" by simp_all
  from assms(1) have "\<forall>r\<in>set [0..rows - 1]. \<forall>c\<in>set [0..cols - 1].
      (case vt_screen vt r c of None \<Rightarrow> False | Some cell \<Rightarrow> cell_ok cell)"
    unfolding screen_ok_def list_all_iff .
  with r c have "case vt_screen vt r c of None \<Rightarrow> False | Some cell \<Rightarrow> cell_ok cell"
    by blast
  then show ?thesis by (cases "vt_screen vt r c") simp_all
qed

lemma line_cells_ok_screen_line:
  assumes "screen_ok vt rows cols" and "0 \<le> r" and "r < rows"
  shows "line_cells_ok (screen_line vt cols r)"
proof (cases "screen_row_len vt r cols = 0")
  case True
  then show ?thesis by (simp add: screen_line_def line_cells_ok_def)
next
  case False
  let ?len = "screen_row_len vt r cols"
  have b: "0 \<le> ?len" "?len \<le> max 0 cols" using screen_row_len_bounds by auto
  have "cell_ok x" if "x \<in> set (copy_screen_row vt r ?len)" for x
  proof -
    from that obtain c where c: "0 \<le> c" "c \<le> ?len - 1"
      and x: "x = (case vt_screen vt r c of None \<Rightarrow> zero_cell | Some cell \<Rightarrow> cell)"
      by (auto simp: copy_screen_row_def)
    from c b have "c < cols" by linarith
    from screen_ok_cell [OF assms c(1) this] x show ?thesis by auto
  qed
  then have "list_all cell_ok (copy_screen_row vt r ?len)" by (simp add: list_all_iff)
  with False b show ?thesis
    by (simp add: screen_line_def line_cells_ok_def length_copy_screen_row)
qed

lemma add_screen_row_ok:
  assumes "screen_ok vt rows cols" and "0 \<le> r" and "r < rows"
    and "screen_row_len vt r cols \<noteq> 0"
  shows "\<exists>tm'. add_screen_row vt r (screen_row_len vt r cols) (tm, []) = Some (Inr (tm', []))
      \<and> appended tm [screen_line vt cols r] tm'"
proof -
  from add_line_appended [OF line_cells_ok_screen_line [OF assms(1,2,3)], of tm]
  obtain tm' where r: "add_scrollback_line_to_buffer
        (tm\<lparr>tl_scrollback := tl_scrollback tm @ [screen_line vt cols r]\<rparr>, []) = Some (Inr (tm', []))"
    and a: "appended tm [screen_line vt cols r] tm'" by blast
  from assms(4) have "add_screen_row vt r (screen_row_len vt r cols) (tm, []) =
      add_scrollback_line_to_buffer
        (tm\<lparr>tl_scrollback := tl_scrollback tm @ [screen_line vt cols r]\<rparr>, [])"
    by (simp add: add_screen_row_def screen_line_def)
  with r a show ?thesis by auto
qed

lemma move_rows_ok:
  assumes "screen_ok vt rows cols" and "\<forall>r\<in>set rs. 0 \<le> r \<and> r < rows" and "tl_cols tm = cols"
  shows "\<exists>tm'. move_rows vt rs k (tm, []) = Some (Inr (tm', []))
      \<and> appended tm (flush_acc vt cols k rs) tm'"
  using assms(2,3)
proof (induction rs arbitrary: k tm)
  case Nil
  show ?case by (simp add: appended_refl)
next
  case (Cons r rs)
  from Cons.prems have r: "0 \<le> r" "r < rows" and rs: "\<forall>r\<in>set rs. 0 \<le> r \<and> r < rows"
    by simp_all
  show ?case
  proof (cases "screen_row_len vt r cols = 0")
    case True
    from Cons.IH [OF rs Cons.prems(2), of "k + 1"] True Cons.prems(2)
    show ?thesis by (simp add: Let_def)
  next
    case False
    from add_skipped_lines_ok [of k tm]
    obtain tm1 where r1: "add_skipped_lines k (tm, []) = Some (Inr (tm1, []))"
      and a1: "appended tm (replicate k \<lparr>sb_cols = 0, sb_cells = None\<rparr>) tm1" by blast
    from add_screen_row_ok [OF assms(1) r False, of tm1]
    obtain tm2 where r2: "add_screen_row vt r (screen_row_len vt r cols) (tm1, []) = Some (Inr (tm2, []))"
      and a2: "appended tm1 [screen_line vt cols r] tm2" by blast
    have c2: "tl_cols tm2 = cols"
      using appended_other_fields(2) [OF a1] appended_other_fields(2) [OF a2] Cons.prems(2) by simp
    from Cons.IH [OF rs c2, of 0]
    obtain tm3 where r3: "move_rows vt rs 0 (tm2, []) = Some (Inr (tm3, []))"
      and a3: "appended tm2 (flush_acc vt cols 0 rs) tm3" by blast
    have "appended tm (flush_acc vt cols k (r # rs)) tm3"
      using appended_trans [OF appended_trans [OF a1 a2] a3] False by simp
    moreover have "move_rows vt (r # rs) k (tm, []) = Some (Inr (tm3, []))"
      using False r1 r2 r3 Cons.prems(2) by (simp add: Let_def)
    ultimately show ?thesis by blast
  qed
qed

lemma drop_trailing_empty_Cons:
  "drop_trailing_empty vt cols (r # rs) =
     (if (\<forall>x\<in>set rs. screen_row_len vt x cols = 0) \<and> screen_row_len vt r cols = 0 then []
      else r # drop_trailing_empty vt cols rs)"
  by (auto simp: drop_trailing_empty_def dropWhile_append)

lemma drop_trailing_empty_Nil_iff:
  "drop_trailing_empty vt cols rs = [] \<longleftrightarrow> (\<forall>x\<in>set rs. screen_row_len vt x cols = 0)"
  by (auto simp: drop_trailing_empty_def dropWhile_eq_Nil_conv)

lemma flush_acc_flushed_lines:
  "flush_acc vt cols k rs =
     (if \<forall>x\<in>set rs. screen_row_len vt x cols = 0 then []
      else replicate k \<lparr>sb_cols = 0, sb_cells = None\<rparr> @ flushed_lines vt cols rs)"
proof (induction rs arbitrary: k)
  case Nil
  show ?case by simp
next
  case (Cons r rs)
  show ?case
  proof (cases "screen_row_len vt r cols = 0")
    case True
    then have e: "screen_line vt cols r = \<lparr>sb_cols = 0, sb_cells = None\<rparr>"
      by (simp add: screen_line_def)
    show ?thesis
      using True e
      by (simp add: Cons.IH flushed_lines_def drop_trailing_empty_Cons replicate_app_Cons_same)
  next
    case False
    have "flushed_lines vt cols rs = []" if "\<forall>x\<in>set rs. screen_row_len vt x cols = 0"
      using that drop_trailing_empty_Nil_iff [of vt cols rs] by (simp add: flushed_lines_def)
    with False show ?thesis
      by (simp add: Cons.IH flushed_lines_def drop_trailing_empty_Cons)
  qed
qed

lemma flush_acc_0: "flush_acc vt cols 0 rs = flushed_lines vt cols rs"
  using drop_trailing_empty_Nil_iff [of vt cols rs]
  by (simp add: flush_acc_flushed_lines flushed_lines_def)

lemma move_terminal_to_buffer_ok:
  assumes "tl_vterm tm = Some vt" and "screen_ok vt (tl_rows tm) (tl_cols tm)"
  shows "\<exists>tm'. move_terminal_to_buffer (tm, []) = Some (Inr (tm', []))
      \<and> appended tm (flushed_lines vt (tl_cols tm) [0..tl_rows tm - 1]) tm'"
proof -
  have "\<forall>r\<in>set [0..tl_rows tm - 1]. 0 \<le> r \<and> r < tl_rows tm" by simp
  from move_rows_ok [OF assms(2) this refl, of 0]
  show ?thesis using assms(1) by (simp add: move_terminal_to_buffer_def flush_acc_0)
qed


lemma appended_scrolled:
  assumes "appended tm xs tm'"
  shows "appended (tm\<lparr>tl_scrollback_scrolled := n\<rparr>) xs (tm'\<lparr>tl_scrollback_scrolled := n\<rparr>)"
proof -
  from assms have a: "tm'\<lparr>tl_buffer := tl_buffer tm\<rparr> = tm\<lparr>tl_scrollback := tl_scrollback tm @ xs\<rparr>"
    and b: "buffer_follows tm \<longrightarrow> buffer_follows tm'"
    by (simp_all add: appended_def)
  have "(tm'\<lparr>tl_scrollback_scrolled := n\<rparr>)\<lparr>tl_buffer := tl_buffer tm\<rparr>
      = (tm'\<lparr>tl_buffer := tl_buffer tm\<rparr>)\<lparr>tl_scrollback_scrolled := n\<rparr>" by simp
  also have "\<dots> = (tm\<lparr>tl_scrollback := tl_scrollback tm @ xs\<rparr>)\<lparr>tl_scrollback_scrolled := n\<rparr>"
    by (simp only: a)
  finally show ?thesis using b by (simp add: appended_def buffer_follows_def)
qed

lemma handle_pushlines_ok:
  assumes "list_all (list_all cell_ok) pushed"
  shows "\<exists>tm'. handle_pushlines pushed (tm, []) = Some (Inr (tm', []))
      \<and> appended (tm\<lparr>tl_scrollback_scrolled := tl_scrollback_scrolled tm + int (length pushed)\<rparr>)
           (map pushed_line pushed) tm'"
  using assms
proof (induction pushed arbitrary: tm)
  case Nil
  show ?case by (simp add: appended_refl)
next
  case (Cons cells pushed)
  then have c: "list_all cell_ok cells" and p: "list_all (list_all cell_ok) pushed" by simp_all
  from handle_pushline_ok [OF c, of tm]
  obtain tm1 where r1: "handle_pushline cells (tm, []) = Some (Inr (tm1, []))"
    and a1: "appended (tm\<lparr>tl_scrollback_scrolled := tl_scrollback_scrolled tm + 1\<rparr>)
           [pushed_line cells] tm1" by blast
  from Cons.IH [OF p, of tm1]
  obtain tm2 where r2: "handle_pushlines pushed (tm1, []) = Some (Inr (tm2, []))"
    and a2: "appended (tm1\<lparr>tl_scrollback_scrolled := tl_scrollback_scrolled tm1 + int (length pushed)\<rparr>)
           (map pushed_line pushed) tm2" by blast
  let ?n = "tl_scrollback_scrolled tm + int (length (cells # pushed))"
  have s1: "tl_scrollback_scrolled tm1 = tl_scrollback_scrolled tm + 1"
    using appended_other_fields(4) [OF a1] by simp
  have s2: "tl_scrollback_scrolled tm2 = ?n"
    using appended_other_fields(4) [OF a2] s1 by simp
  from appended_scrolled [OF a1, of ?n]
  have a1': "appended (tm\<lparr>tl_scrollback_scrolled := ?n\<rparr>) [pushed_line cells]
      (tm1\<lparr>tl_scrollback_scrolled := ?n\<rparr>)" by simp
  have "tl_scrollback_scrolled tm1 + int (length pushed) = ?n" using s1 by simp
  with a2 have a2': "appended (tm1\<lparr>tl_scrollback_scrolled := ?n\<rparr>) (map pushed_line pushed) tm2"
    by (simp only:)
  have "appended (tm\<lparr>tl_scrollback_scrolled := ?n\<rparr>) (map pushed_line (cells # pushed)) tm2"
    using appended_trans [OF a1' a2'] by simp
  moreover have "handle_pushlines (cells # pushed) (tm, []) = Some (Inr (tm2, []))"
    using r1 r2 by simp
  ultimately show ?case by blast
qed

text \<open>The loop of \<open>term_leave_terminal_mode\<close>.\<close>

lemma ml_delete_last_count:
  "1 \<le> ml_line_count buf \<Longrightarrow>
     ml_line_count (ml_delete buf (ml_line_count buf)) = max 1 (ml_line_count buf - 1)"
  by (rule ml_delete_count) simp_all

lemma remove_terminal_contents_ok:
  assumes "buffer_follows t" and "tl_scrollback t = sb @ new"
    and "int (length sb) = tl_scrollback_scrolled t" and "sb @ new \<noteq> []"
  shows "\<exists>t'. remove_terminal_contents t = Inr t'
      \<and> t'\<lparr>tl_buffer := tl_buffer t\<rparr> = t\<lparr>tl_scrollback := sb\<rparr> \<and> buffer_follows t'"
  using assms
proof (induction new arbitrary: t rule: rev_induct)
  case Nil
  then have "0 < length sb" by simp
  with Nil have "\<not> ml_line_count (tl_buffer t) > tl_scrollback_scrolled t"
    unfolding buffer_follows_def by (auto simp: max_def)
  then have "remove_terminal_contents t = Inr t"
    by (subst remove_terminal_contents.simps) simp
  moreover have "t\<lparr>tl_buffer := tl_buffer t\<rparr> = t\<lparr>tl_scrollback := sb\<rparr>"
    using Nil.prems(2) by simp
  ultimately show ?case using Nil.prems(1) by simp
next
  case (snoc x xs)
  let ?L = "int (length (tl_scrollback t))"
  from snoc.prems(2) have L: "?L = int (length sb) + int (length xs) + 1" by simp
  with snoc.prems(1) have cnt: "ml_line_count (tl_buffer t) = ?L"
    by (simp add: buffer_follows_def)
  with L snoc.prems(3) have gt: "ml_line_count (tl_buffer t) > tl_scrollback_scrolled t" by simp
  let ?t1 = "t\<lparr>tl_buffer := ml_delete (tl_buffer t) (ml_line_count (tl_buffer t))\<rparr>"
  let ?t2 = "?t1\<lparr>tl_scrollback := butlast (tl_scrollback ?t1)\<rparr>"
  have ne1: "tl_scrollback ?t1 \<noteq> []" using snoc.prems(2) by simp
  have sb2: "tl_scrollback ?t2 = sb @ xs" using snoc.prems(2) by (simp add: butlast_append)
  have "ml_line_count (tl_buffer ?t2) = max 1 (?L - 1)"
    using ml_delete_last_count [of "tl_buffer t"] cnt L by simp
  then have bf2: "buffer_follows ?t2"
    using sb2 L by (simp add: buffer_follows_def)
  show ?case
  proof (cases "sb @ xs = []")
    case True
    then have "remove_terminal_contents t = Inr ?t2"
      using gt ne1 sb2 by (subst remove_terminal_contents.simps) (simp add: Let_def)
    moreover have "?t2\<lparr>tl_buffer := tl_buffer t\<rparr> = t\<lparr>tl_scrollback := sb\<rparr>"
      using True snoc.prems(2) by simp
    ultimately show ?thesis using bf2 by blast
  next
    case False
    have sc2: "int (length sb) = tl_scrollback_scrolled ?t2" using snoc.prems(3) by simp
    from snoc.IH [OF bf2 sb2 sc2 False]
    obtain t' where r: "remove_terminal_contents ?t2 = Inr t'"
      and e: "t'\<lparr>tl_buffer := tl_buffer ?t2\<rparr> = ?t2\<lparr>tl_scrollback := sb\<rparr>"
      and bf: "buffer_follows t'" by blast
    have "remove_terminal_contents t = remove_terminal_contents ?t2"
      using gt ne1 sb2 False by (subst remove_terminal_contents.simps) (auto simp: Let_def)
    with r have r': "remove_terminal_contents t = Inr t'" by simp
    have "t'\<lparr>tl_buffer := tl_buffer t\<rparr> = (t'\<lparr>tl_buffer := tl_buffer ?t2\<rparr>)\<lparr>tl_buffer := tl_buffer t\<rparr>"
      by simp
    also have "\<dots> = (?t2\<lparr>tl_scrollback := sb\<rparr>)\<lparr>tl_buffer := tl_buffer t\<rparr>"
      by (simp only: e)
    also have "\<dots> = t\<lparr>tl_scrollback := sb\<rparr>" by simp
    finally show ?thesis using r' bf by blast
  qed
qed


lemma enter_leave_round_trip:
  assumes v: "tl_vterm tm = Some vt" and s: "screen_ok vt (tl_rows tm) (tl_cols tm)"
    and nc: "\<not> tl_channel_closed tm" and bf: "buffer_follows tm"
    and sc: "int (length (tl_scrollback tm)) = tl_scrollback_scrolled tm"
    and ne: "tl_scrollback tm @ flushed_lines vt (tl_cols tm) [0..tl_rows tm - 1] \<noteq> []"
  shows "\<exists>tm1 tm2. term_enter_terminal_mode (tm, []) = Some (Inr (tm1, []))
      \<and> tl_scrollback tm1 = tl_scrollback tm @ flushed_lines vt (tl_cols tm) [0..tl_rows tm - 1]
      \<and> buffer_follows tm1
      \<and> term_leave_terminal_mode (tm1, []) = Some (Inr (tm2, []))
      \<and> ml_line_count (tl_buffer tm2) = ml_line_count (tl_buffer tm)
      \<and> tl_scrollback tm2 = tl_scrollback tm"
proof -
  let ?F = "flushed_lines vt (tl_cols tm) [0..tl_rows tm - 1]"
  from move_terminal_to_buffer_ok [OF v s]
  obtain tm' where r: "move_terminal_to_buffer (tm, []) = Some (Inr (tm', []))"
    and a: "appended tm ?F tm'" by blast
  let ?tm1 = "set_terminal_mode tm' True"
  have enter: "term_enter_terminal_mode (tm, []) = Some (Inr (?tm1, []))"
    using r by (simp add: term_enter_terminal_mode_def)
  have sb1: "tl_scrollback ?tm1 = tl_scrollback tm @ ?F"
    using appended_scrollback [OF a] by (simp add: set_terminal_mode_def)
  have bf1: "buffer_follows ?tm1"
    using a bf by (simp add: appended_def buffer_follows_def set_terminal_mode_def)
  have sc1: "int (length (tl_scrollback tm)) = tl_scrollback_scrolled ?tm1"
    using appended_other_fields(4) [OF a] sc by (simp add: set_terminal_mode_def)
  have nc1: "\<not> tl_channel_closed ?tm1"
    using appended_other_fields(5) [OF a] nc by (simp add: set_terminal_mode_def)
  from remove_terminal_contents_ok [OF bf1 sb1 sc1 ne]
  obtain t' where l: "remove_terminal_contents ?tm1 = Inr t'"
    and e: "t'\<lparr>tl_buffer := tl_buffer ?tm1\<rparr> = ?tm1\<lparr>tl_scrollback := tl_scrollback tm\<rparr>"
    and bf': "buffer_follows t'" by blast
  have "tl_scrollback (t'\<lparr>tl_buffer := tl_buffer ?tm1\<rparr>)
      = tl_scrollback (?tm1\<lparr>tl_scrollback := tl_scrollback tm\<rparr>)" by (simp only: e)
  then have sb': "tl_scrollback t' = tl_scrollback tm" by simp
  have "tl_channel_closed (t'\<lparr>tl_buffer := tl_buffer ?tm1\<rparr>)
      = tl_channel_closed (?tm1\<lparr>tl_scrollback := tl_scrollback tm\<rparr>)" by (simp only: e)
  then have nc': "\<not> tl_channel_closed t'" using nc1 by simp
  let ?tm2 = "set_terminal_mode t' False"
  have leave: "term_leave_terminal_mode (?tm1, []) = Some (Inr (?tm2, []))"
    using l nc' by (simp add: term_leave_terminal_mode_def Let_def set_terminal_mode_def)
  have cnt: "ml_line_count (tl_buffer ?tm2) = ml_line_count (tl_buffer tm)"
    using bf' bf sb' by (simp add: buffer_follows_def set_terminal_mode_def)
  have sb2: "tl_scrollback ?tm2 = tl_scrollback tm"
    using sb' by (simp add: set_terminal_mode_def)
  from enter sb1 bf1 leave cnt sb2 show ?thesis by blast
qed

lemma blank_screen_flush:
  "move_terminal_to_buffer (example_term [[blank_cell]] 1 1, [])
     = Some (Inr (example_term [[blank_cell]] 1 1, []))"
  by (simp add: move_terminal_to_buffer_def example_term_def ex_terminal_new_def
      alloc_clear_term_def example_vterm_def screen_row_len_def grid_screen_def blank_cell_def
      zero_cell_def chars_at_def)



lemma cell_ok_char_cell: "cell_ok (char_cell ch)"
  unfolding cell_ok_def list_ex_iff
  by (auto intro!: bexI [of _ 1]
      simp: char_cell_def zero_cell_def chars_at_def VTERM_MAX_CHARS_PER_CELL_def)

lemma cell_ok_blank_cell: "cell_ok blank_cell"
  unfolding cell_ok_def list_ex_iff
  by (auto intro!: bexI [of _ 1]
      simp: blank_cell_def zero_cell_def chars_at_def VTERM_MAX_CHARS_PER_CELL_def)

lemma screen_ok_example_grid: "screen_ok (example_vterm example_grid) 3 2"
  by code_simp

lemma flushed_lines_example_grid:
  "flushed_lines (example_vterm example_grid) 2 [0..3 - 1]
     = [\<lparr>sb_cols = 0, sb_cells = None\<rparr>, \<lparr>sb_cols = 1, sb_cells = Some [char_cell 97]\<rparr>]"
  by code_simp


text \<open>The flush keeps the scrollback intact whatever the outcomes of the allocations.\<close>


lemma add_scrollback_line_to_buffer_scrollback:
  assumes "add_scrollback_line_to_buffer (tm, a) = Some (Inr (tm', a'))"
  shows "tl_scrollback tm' = tl_scrollback tm"
  using assms
  by (auto simp: add_scrollback_line_to_buffer_def Let_def
      split: if_splits option.splits sum.splits prod.splits)

lemma scrollback_ok_snoc:
  "scrollback_ok (tm\<lparr>tl_scrollback := tl_scrollback tm @ [line]\<rparr>)
     \<longleftrightarrow> scrollback_ok tm \<and> sb_line_ok line"
  by (simp add: scrollback_ok_def)

lemma scrollback_ok_cong:
  "tl_scrollback tm' = tl_scrollback tm \<Longrightarrow> scrollback_ok tm' = scrollback_ok tm"
  by (simp add: scrollback_ok_def)

lemma add_skipped_lines_keeps_ok:
  assumes "add_skipped_lines n (tm, a) = Some (Inr (tm', a'))" and "scrollback_ok tm"
  shows "scrollback_ok tm'"
  using assms
proof (induction n arbitrary: tm a)
  case 0
  then show ?case by simp
next
  case (Suc n)
  show ?case
  proof (cases "fst (ga_grow a)")
    case False
    with Suc.prems(1) have "add_skipped_lines n (tm, snd (ga_grow a)) = Some (Inr (tm', a'))"
      by simp
    from Suc.IH [OF this Suc.prems(2)] show ?thesis .
  next
    case True
    let ?tm1 = "tm\<lparr>tl_scrollback := tl_scrollback tm @ [\<lparr>sb_cols = 0, sb_cells = None\<rparr>]\<rparr>"
    from Suc.prems(1) True obtain tm2 a2 where
      r: "add_scrollback_line_to_buffer (?tm1, snd (ga_grow a)) = Some (Inr (tm2, a2))"
      and n: "add_skipped_lines n (tm2, a2) = Some (Inr (tm', a'))"
      by (auto split: option.splits sum.splits)
    have "scrollback_ok ?tm1"
      using Suc.prems(2) by (simp add: scrollback_ok_snoc sb_line_ok_def)
    with scrollback_ok_cong [OF add_scrollback_line_to_buffer_scrollback [OF r]]
    have "scrollback_ok tm2" by blast
    from Suc.IH [OF n this] show ?thesis .
  qed
qed

lemma add_screen_row_keeps_ok:
  assumes "add_screen_row vt r len (tm, a) = Some (Inr (tm', a'))" and "scrollback_ok tm"
  shows "scrollback_ok tm'"
proof (cases "fst (alloc a) \<and> fst (ga_grow (snd (alloc a)))")
  case False
  with assms show ?thesis
    by (auto simp: add_screen_row_def split: if_splits)
next
  case True
  let ?tm1 = "tm\<lparr>tl_scrollback := tl_scrollback tm @
                        [\<lparr>sb_cols = len, sb_cells = Some (copy_screen_row vt r len)\<rparr>]\<rparr>"
  from assms(1) True have
    r: "add_scrollback_line_to_buffer (?tm1, snd (ga_grow (snd (alloc a)))) = Some (Inr (tm', a'))"
    by (simp add: add_screen_row_def)
  have "scrollback_ok ?tm1"
    using assms(2)
    by (simp add: scrollback_ok_snoc sb_line_ok_def length_copy_screen_row)
  with scrollback_ok_cong [OF add_scrollback_line_to_buffer_scrollback [OF r]]
  show ?thesis by blast
qed

lemma move_rows_keeps_ok:
  assumes "move_rows vt rs k (tm, a) = Some (Inr (tm', a'))" and "scrollback_ok tm"
  shows "scrollback_ok tm'"
  using assms
proof (induction rs arbitrary: k tm a)
  case Nil
  then show ?case by simp
next
  case (Cons r rs)
  show ?case
  proof (cases "screen_row_len vt r (tl_cols tm) = 0")
    case True
    with Cons.prems(1) have "move_rows vt rs (k + 1) (tm, a) = Some (Inr (tm', a'))"
      by (simp add: Let_def)
    from Cons.IH [OF this Cons.prems(2)] show ?thesis .
  next
    case False
    with Cons.prems(1) obtain tm1 a1 tm2 a2 where
      s: "add_skipped_lines k (tm, a) = Some (Inr (tm1, a1))"
      and w: "add_screen_row vt r (screen_row_len vt r (tl_cols tm)) (tm1, a1) = Some (Inr (tm2, a2))"
      and m: "move_rows vt rs 0 (tm2, a2) = Some (Inr (tm', a'))"
      by (auto simp: Let_def split: option.splits sum.splits)
    from add_skipped_lines_keeps_ok [OF s Cons.prems(2)] have "scrollback_ok tm1" .
    from add_screen_row_keeps_ok [OF w this] have "scrollback_ok tm2" .
    from Cons.IH [OF m this] show ?thesis .
  qed
qed

lemma move_terminal_to_buffer_keeps_ok:
  assumes "move_terminal_to_buffer (tm, a) = Some (Inr (tm', a'))" and "scrollback_ok tm"
  shows "scrollback_ok tm'"
proof -
  from assms(1) obtain vt where "tl_vterm tm = Some vt"
    and "move_rows vt [0..tl_rows tm - 1] 0 (tm, a) = Some (Inr (tm', a'))"
    by (auto simp: move_terminal_to_buffer_def split: option.splits)
  from move_rows_keeps_ok [OF this(2) assms(2)] show ?thesis .
qed


section \<open>Properties of the scrollback\<close>

text \<open>
  C3.  When no allocation fails and the cells are cells as the emulator delivers them:
  \<^item> a sequence of push-line callbacks returns and appends one scrollback line for each
    callback, in order, so that \<open>N\<close> callbacks on an empty scrollback leave \<open>N\<close> lines;
  \<^item> the flush of the screen returns and appends the lines of the rows down to the last row
    with content: a line of width 0 without cells for each empty row among them, the
    cells up to the last one with content for each other row, and nothing for the empty
    rows at the bottom of the screen.
\<close>

theorem scrollback_lines_stored:
  "(list_all (list_all cell_ok) pushed \<longrightarrow>
      (\<exists>tm'. handle_pushlines pushed (tm, []) = Some (Inr (tm', []))
          \<and> tl_scrollback tm' = tl_scrollback tm @ map pushed_line pushed
          \<and> length (tl_scrollback tm') = length (tl_scrollback tm) + length pushed))
   \<and> (tl_vterm tm = Some vt \<and> screen_ok vt (tl_rows tm) (tl_cols tm) \<longrightarrow>
      (\<exists>tm'. move_terminal_to_buffer (tm, []) = Some (Inr (tm', []))
          \<and> tl_scrollback tm' =
              tl_scrollback tm @ flushed_lines vt (tl_cols tm) [0..tl_rows tm - 1]))"
proof (intro conjI impI)
  assume "list_all (list_all cell_ok) pushed"
  from handle_pushlines_ok [OF this, of tm]
  obtain tm' where r: "handle_pushlines pushed (tm, []) = Some (Inr (tm', []))"
    and a: "appended (tm\<lparr>tl_scrollback_scrolled := tl_scrollback_scrolled tm + int (length pushed)\<rparr>)
           (map pushed_line pushed) tm'" by blast
  from appended_scrollback [OF a]
  have "tl_scrollback tm' = tl_scrollback tm @ map pushed_line pushed" by simp
  with r show "\<exists>tm'. handle_pushlines pushed (tm, []) = Some (Inr (tm', []))
          \<and> tl_scrollback tm' = tl_scrollback tm @ map pushed_line pushed
          \<and> length (tl_scrollback tm') = length (tl_scrollback tm) + length pushed"
    by auto
next
  assume "tl_vterm tm = Some vt \<and> screen_ok vt (tl_rows tm) (tl_cols tm)"
  then have v: "tl_vterm tm = Some vt" and s: "screen_ok vt (tl_rows tm) (tl_cols tm)" by simp_all
  from move_terminal_to_buffer_ok [OF v s]
  obtain tm' where r: "move_terminal_to_buffer (tm, []) = Some (Inr (tm', []))"
    and a: "appended tm (flushed_lines vt (tl_cols tm) [0..tl_rows tm - 1]) tm'" by blast
  from r appended_scrollback [OF a]
  show "\<exists>tm'. move_terminal_to_buffer (tm, []) = Some (Inr (tm', []))
          \<and> tl_scrollback tm' =
              tl_scrollback tm @ flushed_lines vt (tl_cols tm) [0..tl_rows tm - 1]"
    by auto
qed

theorem scrollback_lines_stored_witness:
  "list_all (list_all cell_ok) [[char_cell 97, blank_cell], [blank_cell, char_cell 98]]
   \<and> tl_vterm (example_term example_grid 3 2) = Some (example_vterm example_grid)
   \<and> screen_ok (example_vterm example_grid) (tl_rows (example_term example_grid 3 2))
        (tl_cols (example_term example_grid 3 2))
   \<and> (\<exists>tm'. handle_pushlines [[char_cell 97, blank_cell], [blank_cell, char_cell 98]]
              (example_term example_grid 3 2, []) = Some (Inr (tm', []))
          \<and> length (tl_scrollback tm') = 2)
   \<and> (\<exists>tm'. move_terminal_to_buffer (example_term example_grid 3 2, []) = Some (Inr (tm', []))
          \<and> tl_scrollback tm' =
              [\<lparr>sb_cols = 0, sb_cells = None\<rparr>, \<lparr>sb_cols = 1, sb_cells = Some [char_cell 97]\<rparr>])"
proof -
  have h1: "list_all (list_all cell_ok) [[char_cell 97, blank_cell], [blank_cell, char_cell 98]]"
    by (simp add: cell_ok_char_cell cell_ok_blank_cell)
  have f: "tl_vterm (example_term example_grid 3 2) = Some (example_vterm example_grid)"
    "tl_rows (example_term example_grid 3 2) = 3" "tl_cols (example_term example_grid 3 2) = 2"
    "tl_scrollback (example_term example_grid 3 2) = []"
    by (simp_all add: example_term_def ex_terminal_new_def alloc_clear_term_def)
  note stored = scrollback_lines_stored
      [of "[[char_cell 97, blank_cell], [blank_cell, char_cell 98]]"
          "example_term example_grid 3 2" "example_vterm example_grid"]
  have h2: "screen_ok (example_vterm example_grid) (tl_rows (example_term example_grid 3 2))
        (tl_cols (example_term example_grid 3 2))"
    unfolding f by (rule screen_ok_example_grid)
  from stored h1 obtain tm1 where
    p: "handle_pushlines [[char_cell 97, blank_cell], [blank_cell, char_cell 98]]
          (example_term example_grid 3 2, []) = Some (Inr (tm1, []))"
    and lp: "length (tl_scrollback tm1) = length (tl_scrollback (example_term example_grid 3 2))
          + length [[char_cell 97, blank_cell], [blank_cell, char_cell 98]]"
    by blast
  from stored f(1) h2 obtain tm2 where
    m: "move_terminal_to_buffer (example_term example_grid 3 2, []) = Some (Inr (tm2, []))"
    and lm: "tl_scrollback tm2 = tl_scrollback (example_term example_grid 3 2)
          @ flushed_lines (example_vterm example_grid) (tl_cols (example_term example_grid 3 2))
              [0..tl_rows (example_term example_grid 3 2) - 1]"
    by blast
  from lp have lp': "length (tl_scrollback tm1) = 2" unfolding f by simp
  from lm have lm': "tl_scrollback tm2 =
      [\<lparr>sb_cols = 0, sb_cells = None\<rparr>, \<lparr>sb_cols = 1, sb_cells = Some [char_cell 97]\<rparr>]"
    unfolding f flushed_lines_example_grid by simp
  from h1 f(1) h2 p lp' m lm' show ?thesis by blast
qed

text \<open>
  C7 fails for the push-line callback.  With one cell of content pushed, the scrollback
  able to grow, the allocation of the cells failing and the text buffer unable to grow,
  \<^verbatim>\<open>handle_pushline\<close> returns and leaves a scrollback line of width 1 whose cell array is
  \<^verbatim>\<open>NULL\<close>; \<^verbatim>\<open>term_get_attr\<close> on that line reads through the \<^verbatim>\<open>NULL\<close> pointer.  When the text
  buffer can grow, \<^verbatim>\<open>add_scrollback_line_to_buffer\<close> reads through the \<^verbatim>\<open>NULL\<close> pointer at
  once.
\<close>

theorem handle_pushline_alloc_failure:
  "handle_pushline [char_cell 97] (example_term [] 24 80, [True, False, False])
     = Some (Inr ((example_term [] 24 80)
          \<lparr>tl_scrollback := [\<lparr>sb_cols = 1, sb_cells = None\<rparr>], tl_scrollback_scrolled := 1\<rparr>, []))
   \<and> \<not> scrollback_ok ((example_term [] 24 80)
          \<lparr>tl_scrollback := [\<lparr>sb_cols = 1, sb_cells = None\<rparr>], tl_scrollback_scrolled := 1\<rparr>)
   \<and> term_get_attr example_host ((example_term [] 24 80)
          \<lparr>tl_scrollback := [\<lparr>sb_cols = 1, sb_cells = None\<rparr>], tl_scrollback_scrolled := 1\<rparr>) 1 0
     = Inl NullPointer
   \<and> handle_pushline [char_cell 97] (example_term [] 24 80, [True, False])
     = Some (Inl NullPointer)"
proof -
  have len: "pushline_len [char_cell 97] = 1"
    by (simp add: pushline_len_def char_cell_def chars_at_def)
  have t1: "sb_line_text \<lparr>sb_cols = 1, sb_cells = None\<rparr> 0 [] [False] = Some (Inr (None, []))"
    by (subst sb_line_text.simps) (simp add: ga_grow_def alloc_def)
  have t2: "sb_line_text \<lparr>sb_cols = 1, sb_cells = None\<rparr> 0 [] [] = Some (Inl NullPointer)"
    by (subst sb_line_text.simps) (simp add: ga_grow_def alloc_def)
  show ?thesis
    by (simp add: handle_pushline_def len Let_def ga_grow_def alloc_def
        add_scrollback_line_to_buffer_def t1 t2 scrollback_ok_def sb_line_ok_def
        term_get_attr_def example_term_def ex_terminal_new_def alloc_clear_term_def)
qed

text \<open>
  C9 fails for a terminal that finished after a push-line callback whose allocation of the
  cells failed.  On a terminal of one row and one column with a blank screen, a line with
  one character is pushed while the scrollback can grow, the allocation of the cells fails
  and the text buffer cannot grow: \<^verbatim>\<open>handle_pushline\<close> returns with a scrollback line of
  width 1 whose cell array is \<^verbatim>\<open>NULL\<close>.  The channel is closed then, which flushes the blank
  screen and frees the emulator, so the terminal is finished.  \<^verbatim>\<open>term_get_attr\<close> for line 1,
  column 0 of that terminal meets neither of its two tests and reads through the \<^verbatim>\<open>NULL\<close>
  pointer.  For a scrollback whose lines have their cells the lookup is total, see
  \<open>term_get_attr_well_formed\<close>.
\<close>

theorem term_get_attr_null_cells:
  "handle_pushline [char_cell 97] (example_term [[blank_cell]] 1 1, [True, False, False])
     = Some (Inr ((example_term [[blank_cell]] 1 1)
          \<lparr>tl_scrollback := [\<lparr>sb_cols = 1, sb_cells = None\<rparr>], tl_scrollback_scrolled := 1\<rparr>, []))
   \<and> term_channel_closed ((example_term [[blank_cell]] 1 1)
          \<lparr>tl_scrollback := [\<lparr>sb_cols = 1, sb_cells = None\<rparr>], tl_scrollback_scrolled := 1\<rparr>, [])
     = Some (Inr ((example_term [[blank_cell]] 1 1)
          \<lparr>tl_vterm := None, tl_channel_closed := True,
           tl_scrollback := [\<lparr>sb_cols = 1, sb_cells = None\<rparr>], tl_scrollback_scrolled := 1\<rparr>, []))
   \<and> term_is_finished (Some ((example_term [[blank_cell]] 1 1)
          \<lparr>tl_vterm := None, tl_channel_closed := True,
           tl_scrollback := [\<lparr>sb_cols = 1, sb_cells = None\<rparr>], tl_scrollback_scrolled := 1\<rparr>))
   \<and> term_get_attr example_host ((example_term [[blank_cell]] 1 1)
          \<lparr>tl_vterm := None, tl_channel_closed := True,
           tl_scrollback := [\<lparr>sb_cols = 1, sb_cells = None\<rparr>], tl_scrollback_scrolled := 1\<rparr>) 1 0
     = Inl NullPointer"
proof -
  have len: "pushline_len [char_cell 97] = 1"
    by (simp add: pushline_len_def char_cell_def chars_at_def)
  have t1: "sb_line_text \<lparr>sb_cols = 1, sb_cells = None\<rparr> 0 [] [False] = Some (Inr (None, []))"
    by (subst sb_line_text.simps) (simp add: ga_grow_def alloc_def)
  have push: "handle_pushline [char_cell 97] (example_term [[blank_cell]] 1 1, [True, False, False])
     = Some (Inr ((example_term [[blank_cell]] 1 1)
          \<lparr>tl_scrollback := [\<lparr>sb_cols = 1, sb_cells = None\<rparr>], tl_scrollback_scrolled := 1\<rparr>, []))"
    by (simp add: handle_pushline_def len Let_def ga_grow_def alloc_def
        add_scrollback_line_to_buffer_def t1 example_term_def ex_terminal_new_def
        alloc_clear_term_def)
  have closed: "term_channel_closed ((example_term [[blank_cell]] 1 1)
          \<lparr>tl_scrollback := [\<lparr>sb_cols = 1, sb_cells = None\<rparr>], tl_scrollback_scrolled := 1\<rparr>, [])
     = Some (Inr ((example_term [[blank_cell]] 1 1)
          \<lparr>tl_vterm := None, tl_channel_closed := True,
           tl_scrollback := [\<lparr>sb_cols = 1, sb_cells = None\<rparr>], tl_scrollback_scrolled := 1\<rparr>, []))"
    by (simp add: term_channel_closed_def cleanup_vterm_def move_terminal_to_buffer_def
      set_terminal_mode_def term_free_vterm_def example_term_def ex_terminal_new_def
      alloc_clear_term_def example_vterm_def screen_row_len_def grid_screen_def blank_cell_def
      zero_cell_def chars_at_def)
  show ?thesis
    using push closed
    by (simp add: term_get_attr_def term_is_finished_def example_term_def ex_terminal_new_def
        alloc_clear_term_def)
qed

text \<open>
  C1 fails for a terminal with nothing in the scrollback and nothing on the screen:
  \<^verbatim>\<open>term_enter_terminal_mode\<close> adds no line, and the loop of \<^verbatim>\<open>term_leave_terminal_mode\<close>,
  entered because the one line of the empty buffer is more than the 0 lines scrolled,
  reads the scrollback entry before the start of the array.  For every other terminal
  the round trip holds, see \<open>enter_leave_round_trip\<close>.
\<close>

theorem term_leave_terminal_mode_empty:
  "term_enter_terminal_mode (example_term [[blank_cell]] 1 1, [])
     = Some (Inr (set_terminal_mode (example_term [[blank_cell]] 1 1) True, []))
   \<and> term_leave_terminal_mode (set_terminal_mode (example_term [[blank_cell]] 1 1) True, [])
     = Some (Inl OutOfBounds)"
proof -
  have "remove_terminal_contents (set_terminal_mode (example_term [[blank_cell]] 1 1) True)
      = Inl OutOfBounds"
    by (subst remove_terminal_contents.simps)
       (simp add: set_terminal_mode_def example_term_def ex_terminal_new_def
          alloc_clear_term_def example_buf_def ml_line_count_def Let_def)
  then show ?thesis
    by (simp add: term_enter_terminal_mode_def blank_screen_flush term_leave_terminal_mode_def)
qed



text \<open>
  The round trip on the terminal that shows \<open>example_grid\<close>: two lines are added and
  removed again.
\<close>

lemma enter_leave_round_trip_example:
  "\<exists>tm1 tm2. term_enter_terminal_mode (example_term example_grid 3 2, []) = Some (Inr (tm1, []))
      \<and> length (tl_scrollback tm1) = 2 \<and> ml_line_count (tl_buffer tm1) = 2
      \<and> term_leave_terminal_mode (tm1, []) = Some (Inr (tm2, []))
      \<and> ml_line_count (tl_buffer tm2) = 1 \<and> tl_scrollback tm2 = []"
proof -
  let ?T = "example_term example_grid 3 2"
  have f: "tl_vterm ?T = Some (example_vterm example_grid)" "tl_rows ?T = 3" "tl_cols ?T = 2"
    "tl_scrollback ?T = []" "tl_scrollback_scrolled ?T = 0" "\<not> tl_channel_closed ?T"
    "ml_line_count (tl_buffer ?T) = 1"
    by (simp_all add: example_term_def ex_terminal_new_def alloc_clear_term_def example_buf_def
        ml_line_count_def)
  have s: "screen_ok (example_vterm example_grid) (tl_rows ?T) (tl_cols ?T)"
    unfolding f by (rule screen_ok_example_grid)
  have bf: "buffer_follows ?T" by (simp add: buffer_follows_def f)
  have sc: "int (length (tl_scrollback ?T)) = tl_scrollback_scrolled ?T" by (simp add: f)
  have ne: "tl_scrollback ?T @ flushed_lines (example_vterm example_grid) (tl_cols ?T)
      [0..tl_rows ?T - 1] \<noteq> []"
    unfolding f flushed_lines_example_grid by simp
  from enter_leave_round_trip [OF f(1) s f(6) bf sc ne]
  obtain tm1 tm2 where e: "term_enter_terminal_mode (?T, []) = Some (Inr (tm1, []))"
    and sb1: "tl_scrollback tm1 = tl_scrollback ?T @ flushed_lines (example_vterm example_grid)
        (tl_cols ?T) [0..tl_rows ?T - 1]"
    and bf1: "buffer_follows tm1"
    and l: "term_leave_terminal_mode (tm1, []) = Some (Inr (tm2, []))"
    and c: "ml_line_count (tl_buffer tm2) = ml_line_count (tl_buffer ?T)"
    and sb2: "tl_scrollback tm2 = tl_scrollback ?T"
    by blast
  from sb1 have len1: "length (tl_scrollback tm1) = 2"
    unfolding f flushed_lines_example_grid by simp
  with bf1 have "ml_line_count (tl_buffer tm1) = 2" by (simp add: buffer_follows_def)
  with e len1 l c sb2 f show ?thesis by auto
qed


section \<open>Properties of the key conversion\<close>


lemma convert_key_read_back_count:
  "fst (convert_key_read_back vt key modifier mouse c)
     = length (fst (snd (convert_key_read_back vt key modifier mouse c)))"
  by (simp add: convert_key_read_back_def vterm_output_read_def min_def)

lemma convert_key_read_back_bound:
  "length (fst (snd (convert_key_read_back vt key modifier mouse c))) \<le> KEY_BUF_LEN"
  by (simp add: convert_key_read_back_def vterm_output_read_def)

lemma convert_key_switch_count:
  "fst (convert_key_switch env vt c) = length (fst (snd (convert_key_switch env vt c)))"
  by (cases c) (simp_all add: convert_key_switch_def Let_def convert_key_read_back_count)

lemma convert_key_switch_bound:
  "length (fst (snd (convert_key_switch env vt c))) \<le> KEY_BUF_LEN"
  by (cases c) (simp_all add: convert_key_switch_def Let_def convert_key_read_back_bound)

lemma term_convert_key_bound_aux:
  assumes "term_convert_key env tm c = Inr (n, buf, tm')"
  shows "n = length buf \<and> n \<le> KEY_BUF_LEN"
proof (cases "returns_at_once c")
  case True
  with assms show ?thesis by (simp add: term_convert_key_def)
next
  case False
  with assms obtain vt where vt: "tl_vterm tm = Some vt"
    by (auto simp: term_convert_key_def split: option.splits)
  obtain n' buf' vt' where sw: "convert_key_switch env vt c = (n', buf', vt')"
    by (cases "convert_key_switch env vt c") auto
  with assms False vt have "n = n'" "buf = buf'"
    by (simp_all add: term_convert_key_def)
  with convert_key_switch_bound [of env vt c] convert_key_switch_count [of env vt c] sw
  show ?thesis by simp
qed

lemma send_keys_to_term_sent:
  assumes "send_keys_to_term env tm c typed g = Inr (ok, tm', g')"
  shows "sent tm' = sent tm
      \<or> (\<exists>bytes. sent tm' = sent tm @ [bytes] \<and> 0 < length bytes \<and> length bytes \<le> KEY_BUF_LEN)"
proof (cases "term_convert_key env tm c")
  case (Inl f)
  with assms show ?thesis
    by (auto simp: send_keys_to_term_def Let_def split: if_splits)
next
  case (Inr r)
  obtain n buf tm1 where r: "r = (n, buf, tm1)" by (cases r) auto
  from term_convert_key_bound_aux [of env tm c n buf tm1] Inr r
  have b: "n = length buf" "n \<le> KEY_BUF_LEN" by simp_all
  have s1: "sent tm1 = sent tm"
    using Inr r by (auto simp: term_convert_key_def sent_def split: if_splits option.splits prod.splits)
  from assms Inr r b s1 show ?thesis
    by (auto simp: send_keys_to_term_def Let_def channel_send_def sent_def
        split: if_splits option.splits sum.splits)
qed
lemma convert_K_UP:
  "term_convert_key example_env example_keys_term K_UP =
     Inr (3, [0x1B, 0x5B, 0x41],
          example_keys_term\<lparr>tl_vterm := Some ((example_vterm [])
            \<lparr>vt_calls := [KeyboardKey VTERM_KEY_UP VTERM_MOD_NONE],
             vt_encode := (\<lambda>call. [0x1B, 0x5B, 0x41])\<rparr>)\<rparr>)"
  by (simp add: term_convert_key_def returns_at_once_def example_keys_term_def
      convert_key_switch_def convert_key_read_back_def vterm_keyboard_key_def vterm_call_out_def
      vterm_output_read_def KEY_BUF_LEN_def example_vterm_def example_term_def
      ex_terminal_new_def alloc_clear_term_def)


text \<open>
  C10.  Whatever the key, \<^verbatim>\<open>term_convert_key\<close> returns for a terminal that has its emulator;
  the value it returns is the number of bytes it wrote to the buffer, and that number is at
  most \<^verbatim>\<open>KEY_BUF_LEN\<close> (200); a key that the \<^verbatim>\<open>switch\<close> drops gives 0 and leaves the terminal
  alone.  So \<^verbatim>\<open>send_keys_to_term\<close> queues for the job either nothing
  or one sequence of at least 1 and at most 200 bytes.
\<close>

theorem term_convert_key_bound:
  "(tl_vterm tm \<noteq> None \<or> returns_at_once c \<longrightarrow>
      (\<exists>n buf tm'. term_convert_key env tm c = Inr (n, buf, tm')))
   \<and> (term_convert_key env tm c = Inr (n, buf, tm') \<longrightarrow> n = length buf \<and> n \<le> KEY_BUF_LEN)
   \<and> (returns_at_once c \<longrightarrow> term_convert_key env tm c = Inr (0, [], tm))
   \<and> (send_keys_to_term env tm c typed g = Inr (ok, tm2, g') \<longrightarrow>
        sent tm2 = sent tm
        \<or> (\<exists>bytes. sent tm2 = sent tm @ [bytes] \<and> 0 < length bytes \<and> length bytes \<le> KEY_BUF_LEN))"
proof -
  have "\<exists>n buf tm'. term_convert_key env tm c = Inr (n, buf, tm')"
    if "tl_vterm tm \<noteq> None \<or> returns_at_once c"
    using that by (auto simp: term_convert_key_def split: option.splits prod.splits)
  then show ?thesis
    using term_convert_key_bound_aux [of env tm c n buf tm']
      send_keys_to_term_sent [of env tm c typed g ok tm2 g']
    by (simp add: term_convert_key_def)
qed

theorem term_convert_key_bound_witness:
  "term_convert_key example_env example_keys_term K_UP =
     Inr (3, [0x1B, 0x5B, 0x41],
          example_keys_term\<lparr>tl_vterm := Some ((example_vterm [])
            \<lparr>vt_calls := [KeyboardKey VTERM_KEY_UP VTERM_MOD_NONE],
             vt_encode := (\<lambda>call. [0x1B, 0x5B, 0x41])\<rparr>)\<rparr>)
   \<and> (3::nat) = length [0x1B, 0x5B, 0x41 :: 8 word] \<and> (3::nat) \<le> KEY_BUF_LEN
   \<and> returns_at_once K_HELP
   \<and> term_convert_key example_env example_keys_term K_HELP = Inr (0, [], example_keys_term)"
proof -
  have h: "returns_at_once K_HELP" by (simp add: returns_at_once_def)
  from term_convert_key_bound [where env = example_env and tm = example_keys_term and c = K_UP
      and n = 3 and buf = "[0x1B, 0x5B, 0x41]"
      and tm' = "example_keys_term\<lparr>tl_vterm := Some ((example_vterm [])
            \<lparr>vt_calls := [KeyboardKey VTERM_KEY_UP VTERM_MOD_NONE],
             vt_encode := (\<lambda>call. [0x1B, 0x5B, 0x41])\<rparr>)\<rparr>"] convert_K_UP
  have b: "(3::nat) = length [0x1B, 0x5B, 0x41 :: 8 word] \<and> (3::nat) \<le> KEY_BUF_LEN" by blast
  from term_convert_key_bound [where env = example_env and tm = example_keys_term and c = K_HELP] h
  have d: "term_convert_key example_env example_keys_term K_HELP = Inr (0, [], example_keys_term)"
    by blast
  from convert_K_UP b h d show ?thesis by blast
qed

section \<open>Properties of a terminal without emulator\<close>

lemma scrape_get_cell_stored:
  assumes v: "tl_vterm tm = None" and ok: "scrollback_ok tm" and c: "0 \<le> column"
  shows "scrape_get_cell tm prow column = Inr None
     \<or> (\<exists>cell\<in>set (stored_cells tm prow). scrape_get_cell tm prow column = Inr (Some cell))"
proof -
  let ?lnum = "prow + tl_scrollback_scrolled tm"
  show ?thesis
  proof (cases "?lnum < 0 \<or> ?lnum \<ge> int (length (tl_scrollback tm))")
    case True
    with v show ?thesis by (simp add: scrape_get_cell_def Let_def)
  next
    case False
    then have r: "nat ?lnum < length (tl_scrollback tm)" by linarith
    let ?line = "tl_scrollback tm ! nat ?lnum"
    from ok r have lok: "sb_line_ok ?line" by (simp add: scrollback_ok_def list_all_length)
    show ?thesis
    proof (cases "column \<ge> sb_cols ?line")
      case True
      with v False show ?thesis by (simp add: scrape_get_cell_def Let_def)
    next
      case lt: False
      with c have "sb_cols ?line > 0" by simp
      with lok obtain cells where cs: "sb_cells ?line = Some cells"
        and len: "sb_cols ?line \<le> int (length cells)"
        by (auto simp: sb_line_ok_def split: option.splits)
      from lt len c have n: "nat column < length cells" by linarith
      from v False lt cs c n
      have "scrape_get_cell tm prow column = Inr (Some (cells ! nat column))"
        by (simp add: scrape_get_cell_def Let_def)
      moreover from False cs have "stored_cells tm prow = cells"
        by (simp add: stored_cells_def Let_def)
      ultimately show ?thesis using n by auto
    qed
  qed
qed

lemma scrape_cells_stored:
  assumes v: "tl_vterm tm = None" and ok: "scrollback_ok tm"
  shows "0 \<le> column \<Longrightarrow>
     \<exists>entries. scrape_cells host tm prow column [] = Inr (entries, [])
        \<and> (\<forall>e\<in>set entries. \<exists>cell\<in>set (stored_cells tm prow). e = scrape_dict host cell)"
proof (induction "nat (tl_cols tm - column)" arbitrary: column rule: less_induct)
  case less
  show ?case
  proof (cases "column < tl_cols tm")
    case False
    then show ?thesis by (subst scrape_cells.simps) simp
  next
    case True
    from scrape_get_cell_stored [OF v ok less.prems, of prow]
    show ?thesis
    proof
      assume "scrape_get_cell tm prow column = Inr None"
      with True show ?thesis by (subst scrape_cells.simps) simp
    next
      assume "\<exists>cell\<in>set (stored_cells tm prow). scrape_get_cell tm prow column = Inr (Some cell)"
      then obtain cell where cell: "cell \<in> set (stored_cells tm prow)"
        and g: "scrape_get_cell tm prow column = Inr (Some cell)" by blast
      let ?next = "if width cell = 2 then column + 2 else column + 1"
      have "nat (tl_cols tm - ?next) < nat (tl_cols tm - column)" using True by auto
      moreover have "0 \<le> ?next" using less.prems by auto
      ultimately obtain entries where e: "scrape_cells host tm prow ?next [] = Inr (entries, [])"
        and all: "\<forall>e\<in>set entries. \<exists>cell\<in>set (stored_cells tm prow). e = scrape_dict host cell"
        using less.hyps by blast
      have "scrape_cells host tm prow column [] = Inr (scrape_dict host cell # entries, [])"
        by (subst scrape_cells.simps) (use True g e in \<open>simp\<close>)
      with cell all show ?thesis by auto
    qed
  qed
qed

lemma f_term_scrape_stored:
  assumes v: "tl_vterm tm = None" and ok: "scrollback_ok tm"
  shows "\<exists>entries. f_term_scrape host (Some tm) arg [] = Inr (Some entries, [])
        \<and> (\<forall>e\<in>set entries. \<exists>cell\<in>set
              (stored_cells tm (case arg of None \<Rightarrow> row (tl_cursor_pos tm) | Some n \<Rightarrow> n)).
              e = scrape_dict host cell)"
proof -
  let ?prow = "case arg of None \<Rightarrow> row (tl_cursor_pos tm) | Some n \<Rightarrow> n"
  from scrape_cells_stored [OF v ok, of 0 host ?prow]
  obtain entries where "scrape_cells host tm ?prow 0 [] = Inr (entries, [])"
    and "\<forall>e\<in>set entries. \<exists>cell\<in>set (stored_cells tm ?prow). e = scrape_dict host cell"
    by auto
  then show ?thesis by (auto simp: f_term_scrape_def Let_def)
qed

text \<open>
  When the channel of a terminal outside Terminal-Normal mode is closed and no allocation
  fails, the screen is flushed and the emulator is freed: the terminal is finished.
\<close>

lemma term_channel_closed_finishes:
  assumes v: "tl_vterm tm = Some vt" and s: "screen_ok vt (tl_rows tm) (tl_cols tm)"
    and m: "\<not> tl_terminal_mode tm"
  shows "\<exists>tm'. term_channel_closed (tm, []) = Some (Inr (tm', []))
      \<and> term_is_finished (Some tm') \<and> \<not> tl_terminal_mode tm' \<and> tl_channel_closed tm'
      \<and> tl_scrollback tm' = tl_scrollback tm @ flushed_lines vt (tl_cols tm) [0..tl_rows tm - 1]"
proof -
  let ?tm1 = "tm\<lparr>tl_channel_closed := True, tl_title := None, tl_status_text := None\<rparr>"
  have "tl_vterm ?tm1 = Some vt" "screen_ok vt (tl_rows ?tm1) (tl_cols ?tm1)"
    using v s by simp_all
  from move_terminal_to_buffer_ok [OF this]
  obtain tm2 where mv: "move_terminal_to_buffer (?tm1, []) = Some (Inr (tm2, []))"
    and ap: "appended ?tm1 (flushed_lines vt (tl_cols ?tm1) [0..tl_rows ?tm1 - 1]) tm2"
    by blast
  from appended_scrollback [OF ap]
  have sb: "tl_scrollback tm2 = tl_scrollback tm @ flushed_lines vt (tl_cols tm) [0..tl_rows tm - 1]"
    by simp
  from appended_other_fields [OF ap] have cl: "tl_channel_closed tm2" by simp
  from m mv sb cl show ?thesis
    by (simp add: term_channel_closed_def cleanup_vterm_def set_terminal_mode_def
        term_free_vterm_def term_is_finished_def)
qed

text \<open>The terminal that showed the character \<open>a\<close> is finished by closing its channel.\<close>

lemma example_term_finishes:
  "term_channel_closed (example_term [[char_cell 97]] 1 1, []) = Some (Inr (example_finished_term, []))"
proof -
  let ?vt = "example_vterm [[char_cell 97]]"
  let ?line = "\<lparr>sb_cols = 1, sb_cells = Some [char_cell 97]\<rparr>"
  have len: "screen_row_len ?vt 0 1 = 1"
    by (simp add: screen_row_len_def example_vterm_def grid_screen_def char_cell_def
        zero_cell_def chars_at_def)
  have copy: "copy_screen_row ?vt 0 1 = [char_cell 97]"
    by (simp add: copy_screen_row_def example_vterm_def grid_screen_def)
  have ch: "chars_at (char_cell 97) 0 = 97" "chars_at (char_cell 97) (Suc 0) = 0"
    and w: "width (char_cell 97) = 1"
    by (simp_all add: char_cell_def zero_cell_def chars_at_def)
  have c2: "cell_text (char_cell 97) (Suc 0) = Inr []"
    by (subst cell_text.simps) (simp add: VTERM_MAX_CHARS_PER_CELL_def ch)
  have c1: "cell_text (char_cell 97) 0 = Inr [97]"
    by (subst cell_text.simps) (simp add: VTERM_MAX_CHARS_PER_CELL_def c2 ch)
  have t2: "sb_line_text ?line 1 [97] [] = Some (Inr (Some [97], []))"
    by (subst sb_line_text.simps) simp
  have t1: "sb_line_text ?line 0 [] [] = Some (Inr (Some [97], []))"
    by (subst sb_line_text.simps) (simp add: c1 t2 w)
  show ?thesis
    by (simp add: term_channel_closed_def cleanup_vterm_def move_terminal_to_buffer_def
        example_term_def ex_terminal_new_def alloc_clear_term_def len copy Let_def
        add_screen_row_def add_scrollback_line_to_buffer_def t1 ml_append_buf_def ml_delete_def
        ml_line_count_def example_buf_def set_terminal_mode_def term_free_vterm_def
        example_finished_term_def)
qed

text \<open>
  C8, as the code has it.  For a terminal whose emulator is gone (\<^verbatim>\<open>tl_vterm\<close> is \<^verbatim>\<open>NULL\<close>), every operation of
  terminal.c that tests for the emulator returns:
  \<^item> \<^verbatim>\<open>write_to_term\<close> leaves the terminal as it is;
  \<^item> \<^verbatim>\<open>f_term_sendkeys\<close> leaves the terminal and its channel as they are, so no byte is sent;
  \<^item> \<^verbatim>\<open>term_update_window\<close> reports \<^verbatim>\<open>FAIL\<close>;
  \<^item> \<^verbatim>\<open>term_use_loop\<close> is false, and \<^verbatim>\<open>terminal_loop\<close> returns \<^verbatim>\<open>FAIL\<close> after the first key when
    the emulator is still gone then, sending nothing;
  \<^item> \<^verbatim>\<open>term_free_vterm\<close> changes nothing, \<^verbatim>\<open>term_is_finished\<close> and \<^verbatim>\<open>term_show_buffer\<close> are true;
  \<^item> \<^verbatim>\<open>f_term_getline\<close> returns the line of the buffer for the row, or no string when there
    is no such line or the copy cannot be allocated;
  \<^item> \<^verbatim>\<open>f_term_scrape\<close>, for a scrollback whose lines have their cells and when no allocation
    fails, returns entries made from the cells stored for the row.

  Nothing is said about \<^verbatim>\<open>term_channel_closed\<close> and \<^verbatim>\<open>term_leave_terminal_mode\<close>, which flush
  the screen without a test for the emulator.
\<close>

theorem engine_absent_operations:
  assumes "tl_vterm tm = None"
  shows "write_to_term h tm msg = Some (Inr tm)
     \<and> f_term_sendkeys env (Some tm) keys g = Inr (Some tm, g)
     \<and> term_update_window wp wins (Some tm) = None
     \<and> \<not> term_use_loop (Some tm)
     \<and> (tl_vterm (change tm) = None \<longrightarrow>
          terminal_loop env lenv ((c, change) # events) (tm, allocs, g)
            = Some (Inr (False, (change tm, allocs, g), events)))
     \<and> term_free_vterm tm = tm
     \<and> term_is_finished (Some tm) \<and> term_show_buffer (Some tm)
     \<and> f_term_getline gt (Some tm) arg allocs =
         (let lnum = (case arg of None \<Rightarrow> row (tl_cursor_pos tm) | Some n \<Rightarrow> n)
                       + tl_scrollback_scrolled tm + 1
          in if 0 < lnum \<and> lnum \<le> ml_line_count (tl_buffer tm) \<and> fst (alloc allocs)
             then Inr (BufferLine (b_ml (tl_buffer tm) ! nat (lnum - 1)), snd (alloc allocs))
             else if 0 < lnum \<and> lnum \<le> ml_line_count (tl_buffer tm)
             then Inr (NoString, snd (alloc allocs))
             else Inr (NoString, allocs))
     \<and> (scrollback_ok tm \<longrightarrow>
          (\<exists>entries. f_term_scrape host (Some tm) arg [] = Inr (Some entries, [])
             \<and> (\<forall>e\<in>set entries. \<exists>cell\<in>set
                   (stored_cells tm (case arg of None \<Rightarrow> row (tl_cursor_pos tm) | Some n \<Rightarrow> n)).
                   e = scrape_dict host cell)))"
proof -
  have loop: "terminal_loop env lenv ((c, change) # events) (tm, allocs, g)
      = Some (Inr (False, (change tm, allocs, g), events))" if "tl_vterm (change tm) = None"
    by (subst terminal_loop.simps) (simp add: loop_round_def that)
  from assms [symmetric] have free: "term_free_vterm tm = tm"
    by (simp add: term_free_vterm_def)
  have getline: "f_term_getline gt (Some tm) arg allocs =
         (let lnum = (case arg of None \<Rightarrow> row (tl_cursor_pos tm) | Some n \<Rightarrow> n)
                       + tl_scrollback_scrolled tm + 1
          in if 0 < lnum \<and> lnum \<le> ml_line_count (tl_buffer tm) \<and> fst (alloc allocs)
             then Inr (BufferLine (b_ml (tl_buffer tm) ! nat (lnum - 1)), snd (alloc allocs))
             else if 0 < lnum \<and> lnum \<le> ml_line_count (tl_buffer tm)
             then Inr (NoString, snd (alloc allocs))
             else Inr (NoString, allocs))"
    using assms by (simp add: f_term_getline_def Let_def)
  have first: "write_to_term h tm msg = Some (Inr tm)
     \<and> f_term_sendkeys env (Some tm) keys g = Inr (Some tm, g)
     \<and> term_update_window wp wins (Some tm) = None
     \<and> \<not> term_use_loop (Some tm)
     \<and> term_is_finished (Some tm) \<and> term_show_buffer (Some tm)"
    using assms
    by (auto simp: write_to_term_def f_term_sendkeys_def term_update_window_def
        term_use_loop_def term_is_finished_def term_show_buffer_def split: option.splits)
  from first loop free getline f_term_scrape_stored [OF assms, of host arg]
  show ?thesis by blast
qed

theorem engine_absent_operations_witness:
  "tl_vterm example_finished_term = None
   \<and> scrollback_ok example_finished_term
   \<and> write_to_term utf_ptr2len_len example_finished_term [0x61] = Some (Inr example_finished_term)
   \<and> f_term_sendkeys example_env (Some example_finished_term) (Some [97])
        \<lparr>mouse_was_outside = False, readbuff = []\<rparr>
       = Inr (Some example_finished_term, \<lparr>mouse_was_outside = False, readbuff = []\<rparr>)
   \<and> term_update_window (example_win 24 80) [example_win 24 80] (Some example_finished_term)
       = None
   \<and> \<not> term_use_loop (Some example_finished_term)
   \<and> terminal_loop example_env example_loop_env [(Char 97, id)]
        (example_finished_term, [], \<lparr>mouse_was_outside = False, readbuff = []\<rparr>)
       = Some (Inr (False,
           (example_finished_term, [], \<lparr>mouse_was_outside = False, readbuff = []\<rparr>), []))
   \<and> term_free_vterm example_finished_term = example_finished_term
   \<and> term_is_finished (Some example_finished_term)
   \<and> term_show_buffer (Some example_finished_term)
   \<and> f_term_getline no_screen_text (Some example_finished_term) (Some 0) []
       = Inr (BufferLine [97], [])
   \<and> f_term_getline no_screen_text (Some example_finished_term) (Some 1) [] = Inr (NoString, [])
   \<and> f_term_scrape example_host (Some example_finished_term) (Some 0) []
       = Inr (Some [scrape_dict example_host (char_cell 97)], [])"
proof -
  let ?g = "\<lparr>mouse_was_outside = False, readbuff = []\<rparr>"
  have v: "tl_vterm example_finished_term = None"
    by (simp add: example_finished_term_def)
  have ok: "scrollback_ok example_finished_term"
    by (simp add: example_finished_term_def scrollback_ok_def sb_line_ok_def)
  have vid: "tl_vterm (id example_finished_term) = None" using v by simp
  have cols: "tl_cols example_finished_term = 1"
    by (simp add: example_finished_term_def example_term_def)
  have g0: "scrape_get_cell example_finished_term 0 0 = Inr (Some (char_cell 97))"
    by (simp add: scrape_get_cell_def example_finished_term_def example_term_def
        ex_terminal_new_def alloc_clear_term_def Let_def)
  have s1: "scrape_cells example_host example_finished_term 0 1 [] = Inr ([], [])"
    by (subst scrape_cells.simps) (simp add: cols)
  have s0: "scrape_cells example_host example_finished_term 0 0 []
      = Inr ([scrape_dict example_host (char_cell 97)], [])"
    by (subst scrape_cells.simps) (simp add: cols g0 s1 char_cell_def)
  have scrape: "f_term_scrape example_host (Some example_finished_term) (Some 0) []
       = Inr (Some [scrape_dict example_host (char_cell 97)], [])"
    by (simp add: f_term_scrape_def s0)
  have lines: "ml_line_count (tl_buffer example_finished_term) = 1"
    "b_ml (tl_buffer example_finished_term) = [[97]]"
    "tl_scrollback_scrolled example_finished_term = 0"
    by (simp_all add: example_finished_term_def example_term_def ex_terminal_new_def
        alloc_clear_term_def ml_line_count_def)
  from engine_absent_operations [OF v, where h = utf_ptr2len_len and msg = "[0x61]"
      and env = example_env and keys = "Some [97]" and g = ?g and wp = "example_win 24 80"
      and wins = "[example_win 24 80]" and change = id and lenv = example_loop_env
      and c = "Char 97" and events = "[]" and allocs = "[]" and gt = no_screen_text
      and arg = "Some 0" and host = example_host]
    engine_absent_operations [OF v, where gt = no_screen_text and arg = "Some 1" and allocs = "[]"]
    v ok vid scrape
  show ?thesis by (simp add: lines Let_def)
qed

theorem engine_absent_counterexample:
  "term_channel_closed (example_term [[char_cell 97]] 1 1, [])
     = Some (Inr (example_finished_term, []))
   \<and> term_is_finished (Some example_finished_term)
   \<and> f_term_getline no_screen_text (Some example_finished_term) (Some 0) []
       = Inr (BufferLine [97], [])
   \<and> term_channel_closed (example_finished_term, []) = Some (Inl NullPointer)"
  using example_term_finishes
  by (simp add: term_is_finished_def f_term_getline_def term_channel_closed_def
      cleanup_vterm_def move_terminal_to_buffer_def example_finished_term_def example_term_def
      ex_terminal_new_def alloc_clear_term_def ml_line_count_def Let_def)

end
